(* ===== verification/Go_Prelude.thy ===== *)
theory Go_Prelude
  imports
    Main
    "HOL-Library.Word"
    "HOL-Library.List_Lexorder"
    "HOL-Library.Char_ord"
    "HOL-Library.Multiset"
begin

text \<open>
  The vocabulary shared by every component: Go errors as values, results, the string
  operations of the Go standard library the program calls, and the generic lemmas on lists
  that the component theories use.

  A Go \<open>string\<close> is a sequence of bytes, so it is modelled by \<^typ>\<open>string\<close>, whose
  characters are bytes; \<open>len(s)\<close> is \<^term>\<open>length\<close> and Go's \<open><\<close> on strings is the
  lexicographic order of \<^theory_text>\<open>List_Lexorder\<close> with \<^theory_text>\<open>Char_ord\<close>. A Go
  \<open>int\<close> is an \<^typ>\<open>int\<close>; where 64-bit wrap-around can happen it is written out with
  \<open>i64\<close>.
\<close>

named_theorems go_defs \<open>definitions of the Go runtime vocabulary, for unfolding\<close>

section \<open>Errors and results\<close>

text \<open>
  An error value is a package variable made by \<open>errors.New\<close> (\<open>Sentinel\<close>, identified by
  its text: the texts of the program's sentinels are distinct) or the result of
  \<open>fmt.Errorf\<close> (\<open>Errorf\<close>: the format, its value arguments, and the error wrapped by
  \<open>%w\<close> if there is one). The text is kept unformatted, so two errors are equal exactly
  when they come from the same format with the same arguments. An anonymous
  \<open>errors.New("...")\<close> in a function body is an \<open>Errorf\<close> with no argument.
\<close>

datatype farg = FS string | FI int

datatype goerr = Sentinel string | Errorf string "farg list" "goerr option"

type_synonym 'a res = "goerr + 'a"

text \<open>\<open>errors.Is\<close>: the error itself or anything it wraps.\<close>

fun errors_is :: "goerr \<Rightarrow> goerr \<Rightarrow> bool" where
  "errors_is (Sentinel s) t = (Sentinel s = t)"
| "errors_is (Errorf f args w) t =
     (Errorf f args w = t \<or> (case w of None \<Rightarrow> False | Some e \<Rightarrow> errors_is e t))"

abbreviation new_err :: "string \<Rightarrow> goerr" where
  "new_err s \<equiv> Errorf s [] None"

abbreviation wrap_err :: "string \<Rightarrow> goerr \<Rightarrow> goerr" where
  "wrap_err s e \<equiv> Errorf s [] (Some e)"

lemma errors_is_refl [simp]: "errors_is e e"
  by (cases e) auto

lemma errors_is_wrap [simp]: "errors_is (Errorf f args (Some e)) (Sentinel s) = errors_is e (Sentinel s)"
  by simp

lemma errors_is_new [simp]: "\<not> errors_is (Errorf f args None) (Sentinel s)"
  by simp

section \<open>Characters and strings\<close>

abbreviation code_of :: "char \<Rightarrow> nat" where
  "code_of c \<equiv> of_char c"

definition is_ascii :: "string \<Rightarrow> bool" where
  "is_ascii s = list_all (\<lambda>c. code_of c < 128) s"

definition is_upper_char :: "char \<Rightarrow> bool" where
  "is_upper_char c = (65 \<le> code_of c \<and> code_of c \<le> 90)"

definition is_lower_char :: "char \<Rightarrow> bool" where
  "is_lower_char c = (97 \<le> code_of c \<and> code_of c \<le> 122)"

definition is_digit_char :: "char \<Rightarrow> bool" where
  "is_digit_char c = (48 \<le> code_of c \<and> code_of c \<le> 57)"

definition lower_char :: "char \<Rightarrow> char" where
  "lower_char c = (if is_upper_char c then char_of (code_of c + 32) else c)"

definition upper_char :: "char \<Rightarrow> char" where
  "upper_char c = (if is_lower_char c then char_of (code_of c - 32) else c)"

text \<open>
  \<open>strings.ToLower\<close> and \<open>strings.ToUpper\<close> map ASCII strings byte by byte. On a string
  with a byte from 128 on they map code points by the Unicode tables; those tables are the
  fields of a \<open>unicode\<close> record that every caller passes on, and no theorem depends on
  what they hold unless it says so.
\<close>

record unicode =
  uni_lower :: "string \<Rightarrow> string"
  uni_upper :: "string \<Rightarrow> string"

definition ToLower :: "unicode \<Rightarrow> string \<Rightarrow> string" where
  "ToLower u s = (if is_ascii s then map lower_char s else uni_lower u s)"

definition ToUpper :: "unicode \<Rightarrow> string \<Rightarrow> string" where
  "ToUpper u s = (if is_ascii s then map upper_char s else uni_upper u s)"

text \<open>\<open>strings.ReplaceAll\<close> with one-byte arguments.\<close>

definition ReplaceAllChar :: "char \<Rightarrow> char \<Rightarrow> string \<Rightarrow> string" where
  "ReplaceAllChar old new s = map (\<lambda>c. if c = old then new else c) s"

lemma length_ReplaceAllChar [simp]: "length (ReplaceAllChar a b s) = length s"
  by (simp add: ReplaceAllChar_def)

lemma is_ascii_Nil [simp]: "is_ascii []"
  by (simp add: is_ascii_def)

lemma is_ascii_append [simp]: "is_ascii (s @ t) = (is_ascii s \<and> is_ascii t)"
  by (simp add: is_ascii_def)

lemma is_ascii_rev [simp]: "is_ascii (rev s) = is_ascii s"
  by (simp add: is_ascii_def list_all_iff)

lemma code_of_lower_char: "code_of (lower_char c) = (if is_upper_char c then code_of c + 32 else code_of c)"
  by (simp add: lower_char_def is_upper_char_def)

lemma code_of_upper_char: "code_of (upper_char c) = (if is_lower_char c then code_of c - 32 else code_of c)"
  by (auto simp: upper_char_def is_lower_char_def)

lemma lower_char_idem [simp]: "lower_char (lower_char c) = lower_char c"
  by (simp add: lower_char_def is_upper_char_def)

lemma upper_char_idem [simp]: "upper_char (upper_char c) = upper_char c"
  by (auto simp: upper_char_def is_lower_char_def)

lemma is_ascii_map_lower [simp]: "is_ascii (map lower_char s) = is_ascii s"
  by (induction s) (auto simp: is_ascii_def code_of_lower_char is_upper_char_def)

lemma is_ascii_map_upper [simp]: "is_ascii (map upper_char s) = is_ascii s"
  by (induction s) (auto simp: is_ascii_def code_of_upper_char is_lower_char_def)

lemma length_ToUpper_ascii: "is_ascii s \<Longrightarrow> length (ToUpper u s) = length s"
  by (simp add: ToUpper_def)

section \<open>\<open>strings.TrimSpace\<close>\<close>

text \<open>
  White space is the six ASCII space bytes and the UTF-8 encodings of the other code points
  for which \<open>unicode.IsSpace\<close> holds (U+0085, U+00A0, U+1680, U+2000 to U+200A, U+2028,
  U+2029, U+202F, U+205F, U+3000). Decoding the first or last rune of a string gives one of
  them exactly when its encoding is a prefix or suffix, so trimming strips these sequences.
\<close>

definition space_seqs :: "string list" where
  "space_seqs = map (map char_of)
     ([[9], [10], [11], [12], [13], [32], [194, 133], [194, 160], [225, 154, 128],
       [226, 128, 168], [226, 128, 169], [226, 128, 175], [226, 129, 159], [227, 128, 128]]
      @ map (\<lambda>n. [226, 128, n]) [128..<139 :: nat])"

fun strip_prefix :: "'a list \<Rightarrow> 'a list \<Rightarrow> 'a list option" where
  "strip_prefix [] s = Some s"
| "strip_prefix (p # ps) [] = None"
| "strip_prefix (p # ps) (c # s) = (if p = c then strip_prefix ps s else None)"

fun strip_any :: "'a list list \<Rightarrow> 'a list \<Rightarrow> 'a list option" where
  "strip_any [] s = None"
| "strip_any (p # ps) s =
     (case p of [] \<Rightarrow> strip_any ps s
      | _ \<Rightarrow> (case strip_prefix p s of Some r \<Rightarrow> Some r | None \<Rightarrow> strip_any ps s))"

lemma strip_prefix_Some: "strip_prefix p s = Some r \<longleftrightarrow> s = p @ r"
  by (induction p s rule: strip_prefix.induct) auto

lemma strip_prefix_None: "strip_prefix p s = None \<longleftrightarrow> (\<forall>r. s \<noteq> p @ r)"
  by (metis not_Some_eq strip_prefix_Some)

lemma strip_prefix_append [simp]: "strip_prefix p (p @ s) = Some s"
  by (simp add: strip_prefix_Some)

lemma strip_any_length: "strip_any ps s = Some r \<Longrightarrow> length r < length s"
  by (induction ps) (auto split: list.splits option.splits simp: strip_prefix_Some)

lemma strip_any_None: "strip_any ps s = None \<longleftrightarrow> (\<forall>p \<in> set ps. p \<noteq> [] \<longrightarrow> strip_prefix p s = None)"
  by (induction ps) (auto split: list.splits option.splits)

lemma strip_any_suffix: "strip_any ps s = Some r \<Longrightarrow> \<exists>p. s = p @ r"
  by (induction ps) (auto split: list.splits option.splits simp: strip_prefix_Some)

function trim_with :: "'a list list \<Rightarrow> 'a list \<Rightarrow> 'a list" where
  "trim_with ps s = (case strip_any ps s of None \<Rightarrow> s | Some r \<Rightarrow> trim_with ps r)"
  by pat_completeness auto
termination
  by (relation "measure (\<lambda>(ps, s). length s)") (auto dest: strip_any_length)

declare trim_with.simps [simp del]

definition TrimSpace :: "string \<Rightarrow> string" where
  "TrimSpace s = rev (trim_with (map rev space_seqs) (rev (trim_with space_seqs s)))"

lemma trim_with_stop: "strip_any ps s = None \<Longrightarrow> trim_with ps s = s"
  by (subst trim_with.simps) simp

lemma trim_with_done: "strip_any ps (trim_with ps s) = None"
proof (induction ps s rule: trim_with.induct)
  case (1 ps s)
  show ?case
  proof (cases "strip_any ps s")
    case None
    then show ?thesis by (simp add: trim_with_stop)
  next
    case (Some r)
    with 1 show ?thesis by (simp add: trim_with.simps [of ps s])
  qed
qed

lemma trim_with_suffix: "\<exists>p. s = p @ trim_with ps s"
proof (induction ps s rule: trim_with.induct)
  case (1 ps s)
  show ?case
  proof (cases "strip_any ps s")
    case None
    then show ?thesis by (simp add: trim_with_stop)
  next
    case (Some r)
    then obtain p where p: "s = p @ r" using strip_any_suffix by blast
    from 1 [OF Some] obtain q where "r = q @ trim_with ps r" by blast
    with p Some show ?thesis
      by (metis append.assoc option.simps(5) trim_with.simps)
  qed
qed

lemma strip_any_prefix_None:
  "strip_any ps (s @ t) = None \<Longrightarrow> strip_any ps s = None"
  by (auto simp: strip_any_None strip_prefix_None)

text \<open>Trimming is idempotent: neither end of the result is white space.\<close>

lemma TrimSpace_ends:
  "strip_any space_seqs (TrimSpace s) = None"
  "strip_any (map rev space_seqs) (rev (TrimSpace s)) = None"
proof -
  let ?l = "trim_with space_seqs s"
  let ?r = "trim_with (map rev space_seqs) (rev ?l)"
  obtain p where "rev ?l = p @ ?r" using trim_with_suffix by blast
  then have "?l = rev ?r @ rev p" by (metis rev_append rev_rev_ident)
  then have "strip_any space_seqs (rev ?r @ rev p) = None"
    using trim_with_done [of space_seqs s] by simp
  then show "strip_any space_seqs (TrimSpace s) = None"
    unfolding TrimSpace_def by (rule strip_any_prefix_None)
  show "strip_any (map rev space_seqs) (rev (TrimSpace s)) = None"
    by (simp add: TrimSpace_def trim_with_done)
qed

lemma TrimSpace_fixed:
  assumes "strip_any space_seqs s = None" "strip_any (map rev space_seqs) (rev s) = None"
  shows "TrimSpace s = s"
  using assms by (simp add: TrimSpace_def trim_with_stop)

lemma TrimSpace_idem [simp]: "TrimSpace (TrimSpace s) = TrimSpace s"
  by (rule TrimSpace_fixed) (fact TrimSpace_ends)+

lemma TrimSpace_infix: "\<exists>p q. s = p @ TrimSpace s @ q"
proof -
  let ?l = "trim_with space_seqs s"
  let ?r = "trim_with (map rev space_seqs) (rev ?l)"
  obtain p where p: "s = p @ ?l" using trim_with_suffix by blast
  obtain q where "rev ?l = q @ ?r" using trim_with_suffix by blast
  then have "?l = rev ?r @ rev q" by (metis rev_append rev_rev_ident)
  with p show ?thesis unfolding TrimSpace_def by metis
qed

lemma is_ascii_TrimSpace: "is_ascii s \<Longrightarrow> is_ascii (TrimSpace s)"
  using TrimSpace_infix [of s] by (metis is_ascii_append)

lemma TrimSpace_Nil [simp]: "TrimSpace [] = []"
  using TrimSpace_infix [of "[]"] by auto

text \<open>
  A string whose first and last bytes are ASCII and no space bytes is not changed by
  trimming: every white space sequence starts and ends with another byte.
\<close>

definition edge_char :: "char \<Rightarrow> bool" where
  "edge_char c = (code_of c = 32 \<or> (9 \<le> code_of c \<and> code_of c \<le> 13) \<or> 128 \<le> code_of c)"

lemma space_seqs_edges:
  "list_all (\<lambda>p. p \<noteq> [] \<and> edge_char (hd p) \<and> edge_char (last p)) space_seqs"
  by (simp add: space_seqs_def edge_char_def upt_rec)

lemma strip_any_hd:
  assumes "list_all (\<lambda>p. p \<noteq> [] \<and> edge_char (hd p)) ps" "s = [] \<or> \<not> edge_char (hd s)"
  shows "strip_any ps s = None"
proof (cases "s = []")
  case True
  with assms(1) show ?thesis by (auto simp: strip_any_None strip_prefix_None list_all_iff)
next
  case False
  have "strip_prefix p s = None" if "p \<in> set ps" for p
    using assms False that
    by (metis (mono_tags, lifting) hd_append2 list_all_iff strip_prefix_None)
  then show ?thesis by (simp add: strip_any_None)
qed

lemma TrimSpace_same:
  assumes "s = [] \<or> \<not> edge_char (hd s) \<and> \<not> edge_char (last s)"
  shows "TrimSpace s = s"
proof (rule TrimSpace_fixed)
  show "strip_any space_seqs s = None"
    using space_seqs_edges assms by (intro strip_any_hd) (auto simp: list_all_iff)
  show "strip_any (map rev space_seqs) (rev s) = None"
    using space_seqs_edges assms by (intro strip_any_hd) (auto simp: list_all_iff hd_rev)
qed

text \<open>Most texts have nothing to trim, which their ends say.\<close>

lemma TrimSpace_code [code]:
  "TrimSpace s = (if s = [] \<or> \<not> edge_char (hd s) \<and> \<not> edge_char (last s) then s else rev (trim_with (map rev space_seqs) (rev (trim_with space_seqs s))))"
  using TrimSpace_same [of s] by (simp add: TrimSpace_def)

lemma TrimSpace_all:
  assumes "list_all (\<lambda>c. \<not> edge_char c) s"
  shows "TrimSpace s = s"
proof (rule TrimSpace_same)
  show "s = [] \<or> \<not> edge_char (hd s) \<and> \<not> edge_char (last s)"
    using assms by (cases "s = []") (auto simp: list_all_iff)
qed

text \<open>
  Words of the bytes 96 to 127 and dashes (the lower-case letters and dashes of the
  program's keywords), recognised by their bits so that literals are checked fast.
\<close>

fun word_char :: "char \<Rightarrow> bool" where
  "word_char (Char b0 b1 b2 b3 b4 b5 b6 b7) =
     (b6 \<and> b5 \<and> \<not> b7 \<or> b0 \<and> \<not> b1 \<and> b2 \<and> b3 \<and> \<not> b4 \<and> b5 \<and> \<not> b6 \<and> \<not> b7)"

lemma word_char_code: "word_char c \<Longrightarrow> code_of c = 45 \<or> (96 \<le> code_of c \<and> code_of c < 128)"
  by (cases c) (auto simp: of_char_Char)

lemma word_char_not:
  assumes "word_char c"
  shows "\<not> edge_char c" "\<not> is_upper_char c" "c \<noteq> CHR ''_''" "c \<noteq> CHR '' ''"
  using word_char_code [OF assms] assms by (auto simp: edge_char_def is_upper_char_def)

lemma edge_char_ascii: "list_all (\<lambda>c. \<not> edge_char c) s \<Longrightarrow> is_ascii s"
  by (auto simp: is_ascii_def list_all_iff edge_char_def not_le)

end
