(* ===== verification/Go_Strings.thy ===== *)
theory Go_Strings
  imports Go_Prelude
begin

text \<open>
  The rest of the Go string library the program calls (\<open>strings\<close>, \<open>strconv\<close>,
  \<open>encoding/hex\<close>, \<open>net\<close> host and port), and the loop "skip what was seen" that the
  program writes in seven places.
\<close>

section \<open>Bytes\<close>

type_synonym byte = "8 word"

definition bytes_of :: "string \<Rightarrow> byte list" where
  "bytes_of s = map of_char s"

definition string_of :: "byte list \<Rightarrow> string" where
  "string_of bs = map (\<lambda>b. char_of (unat b)) bs"

lemma unat_of_char_byte [simp]: "unat (of_char c :: byte) = code_of c"
proof -
  have "unat (word_of_nat (code_of c) :: byte) = code_of c"
    by (simp add: unat_of_nat)
  then show ?thesis by (simp only: of_nat_of_char)
qed

lemma string_of_bytes_of [simp]: "string_of (bytes_of s) = s"
  by (simp add: string_of_def bytes_of_def comp_def)

lemma length_bytes_of [simp]: "length (bytes_of s) = length s"
  by (simp add: bytes_of_def)

section \<open>Prefixes, suffixes, splitting\<close>

definition HasPrefix :: "string \<Rightarrow> string \<Rightarrow> bool" where
  "HasPrefix s p = (take (length p) s = p)"

definition HasSuffix :: "string \<Rightarrow> string \<Rightarrow> bool" where
  "HasSuffix s p = HasPrefix (rev s) (rev p)"

definition TrimPrefix :: "string \<Rightarrow> string \<Rightarrow> string" where
  "TrimPrefix s p = (if HasPrefix s p then drop (length p) s else s)"

definition TrimSuffix :: "string \<Rightarrow> string \<Rightarrow> string" where
  "TrimSuffix s p = (if HasSuffix s p then take (length s - length p) s else s)"

lemma HasPrefix_iff: "HasPrefix s p \<longleftrightarrow> (\<exists>r. s = p @ r)"
  by (metis HasPrefix_def append_eq_conv_conj append_take_drop_id)

lemma HasSuffix_iff: "HasSuffix s p \<longleftrightarrow> (\<exists>r. s = r @ p)"
  by (metis HasPrefix_iff HasSuffix_def rev_append rev_rev_ident)

lemma TrimSuffix_append [simp]: "TrimSuffix (s @ p) p = s"
  by (simp add: TrimSuffix_def HasSuffix_iff)

lemma TrimSuffix_no [simp]: "\<not> HasSuffix s p \<Longrightarrow> TrimSuffix s p = s"
  by (simp add: TrimSuffix_def)

fun Contains :: "string \<Rightarrow> string \<Rightarrow> bool" where
  "Contains [] p = (p = [])"
| "Contains (c # s) p = (HasPrefix (c # s) p \<or> Contains s p)"

lemma Contains_iff: "Contains s p \<longleftrightarrow> (\<exists>a b. s = a @ p @ b)"
proof (induction s)
  case Nil
  then show ?case by auto
next
  case (Cons c s)
  show ?case
    by (auto simp: Cons.IH HasPrefix_iff Cons_eq_append_conv)
qed

text \<open>\<open>strings.Split\<close> with a one-byte separator, and \<open>strings.Join\<close>.\<close>

fun split_char :: "char \<Rightarrow> string \<Rightarrow> string list" where
  "split_char c [] = [[]]"
| "split_char c (x # xs) =
     (if x = c then [] # split_char c xs
      else (case split_char c xs of [] \<Rightarrow> [[x]] | p # ps \<Rightarrow> (x # p) # ps))"

fun JoinStr :: "string \<Rightarrow> string list \<Rightarrow> string" where
  "JoinStr sep [] = []"
| "JoinStr sep [p] = p"
| "JoinStr sep (p # q # ps) = p @ sep @ JoinStr sep (q # ps)"

lemma split_char_not_Nil [simp]: "split_char c s \<noteq> []"
  by (induction s) (auto split: list.splits)

lemma split_char_no_sep: "p \<in> set (split_char c s) \<Longrightarrow> c \<notin> set p"
  by (induction s arbitrary: p) (auto split: list.splits if_splits)

lemma JoinStr_split_char [simp]: "JoinStr [c] (split_char c s) = s"
proof (induction s)
  case Nil
  then show ?case by simp
next
  case (Cons x s)
  obtain p ps where ps: "split_char c s = p # ps"
    by (cases "split_char c s") auto
  then show ?case using Cons.IH by (cases ps) auto
qed


text \<open>\<open>strings.SplitN(s, sep, 2)\<close> and \<open>strings.Cut\<close>: around the first separator.\<close>

fun cut_char :: "char \<Rightarrow> string \<Rightarrow> (string \<times> string) option" where
  "cut_char c [] = None"
| "cut_char c (x # xs) =
     (if x = c then Some ([], xs)
      else (case cut_char c xs of None \<Rightarrow> None | Some (a, b) \<Rightarrow> Some (x # a, b)))"

lemma cut_char_Some: "cut_char c s = Some (a, b) \<Longrightarrow> s = a @ c # b \<and> c \<notin> set a"
  by (induction s arbitrary: a b) (auto split: if_splits option.splits)

lemma cut_char_None: "cut_char c s = None \<longleftrightarrow> c \<notin> set s"
  by (induction s) (auto split: option.splits)

lemma cut_char_append: "c \<notin> set a \<Longrightarrow> cut_char c (a @ c # b) = Some (a, b)"
  by (induction a) auto

section \<open>Decimal numbers: \<open>strconv.Itoa\<close> and \<open>strconv.Atoi\<close>\<close>

definition digit_char :: "nat \<Rightarrow> char" where
  "digit_char d = char_of (48 + d)"

fun nat_digits :: "nat \<Rightarrow> string" where
  "nat_digits n =
     (if n < 10 then [digit_char n] else nat_digits (n div 10) @ [digit_char (n mod 10)])"

declare nat_digits.simps [simp del]

definition Itoa :: "int \<Rightarrow> string" where
  "Itoa i = (if i < 0 then CHR ''-'' # nat_digits (nat (- i)) else nat_digits (nat i))"

fun digits_val :: "nat \<Rightarrow> string \<Rightarrow> nat option" where
  "digits_val acc [] = Some acc"
| "digits_val acc (c # s) =
     (if is_digit_char c then digits_val (10 * acc + (code_of c - 48)) s else None)"

definition err_syntax :: goerr where "err_syntax = Sentinel ''invalid syntax''"
definition err_range :: goerr where "err_range = Sentinel ''value out of range''"

definition atoi_sign :: "string \<Rightarrow> bool \<times> string" where
  "atoi_sign s =
     (case s of [] \<Rightarrow> (False, [])
      | c # r \<Rightarrow> if c = CHR ''-'' then (True, r) else if c = CHR ''+'' then (False, r) else (False, s))"

definition Atoi :: "string \<Rightarrow> int res" where
  "Atoi s =
     (let (neg, ds) = atoi_sign s in
      if ds = [] then Inl err_syntax
      else case digits_val 0 ds of
        None \<Rightarrow> Inl err_syntax
      | Some n \<Rightarrow>
          let v = (if neg then - int n else int n) in
          if - (2 ^ 63) \<le> v \<and> v < 2 ^ 63 then Inr v else Inl err_range)"

lemma digit_char_props:
  assumes "d < 10"
  shows "is_digit_char (digit_char d)" "code_of (digit_char d) = 48 + d"
  using assms by (simp_all add: digit_char_def is_digit_char_def)

lemma digits_val_append:
  "digits_val a (s @ t) = (case digits_val a s of None \<Rightarrow> None | Some b \<Rightarrow> digits_val b t)"
  by (induction s arbitrary: a) auto

lemma digits_val_nat_digits [simp]: "digits_val 0 (nat_digits n) = Some n"
proof (induction n rule: nat_digits.induct)
  case (1 n)
  show ?case
  proof (cases "n < 10")
    case True
    then show ?thesis by (subst nat_digits.simps) (simp add: digit_char_props)
  next
    case False
    with 1 have "digits_val 0 (nat_digits (n div 10)) = Some (n div 10)" by simp
    moreover have "is_digit_char (digit_char (n mod 10))"
      "code_of (digit_char (n mod 10)) = 48 + n mod 10"
      by (rule digit_char_props; simp)+
    ultimately show ?thesis using False
      by (subst nat_digits.simps) (simp add: digits_val_append)
  qed
qed

lemma digits_val_digits: "digits_val a s = Some n \<Longrightarrow> list_all is_digit_char s"
  by (induction s arbitrary: a) (auto split: if_splits)

lemma nat_digits_not_Nil [simp]: "nat_digits n \<noteq> []"
  by (subst nat_digits.simps) simp

lemma nat_digits_hd: "is_digit_char (hd (nat_digits n))"
  using digits_val_digits [OF digits_val_nat_digits [of n]]
  by (cases "nat_digits n") auto

lemma is_digit_not_sign: "is_digit_char c \<Longrightarrow> c \<noteq> CHR ''-'' \<and> c \<noteq> CHR ''+''"
  by (auto simp: is_digit_char_def)

text \<open>Reading back what \<open>Itoa\<close> printed.\<close>

lemma Atoi_Itoa:
  assumes "- (2 ^ 63) \<le> i" "i < 2 ^ 63"
  shows "Atoi (Itoa i) = Inr i"
proof (cases "i < 0")
  case True
  then show ?thesis using assms by (simp add: Atoi_def Itoa_def atoi_sign_def)
next
  case False
  obtain c r where cr: "nat_digits (nat i) = c # r" by (cases "nat_digits (nat i)") auto
  with nat_digits_hd [of "nat i"] have "c \<noteq> CHR ''-'' \<and> c \<noteq> CHR ''+''"
    by (simp add: is_digit_not_sign)
  then have "atoi_sign (nat_digits (nat i)) = (False, nat_digits (nat i))"
    by (simp add: atoi_sign_def cr)
  then show ?thesis using assms False by (simp add: Atoi_def Itoa_def)
qed

lemma Itoa_inj: "Itoa i = Itoa j \<longleftrightarrow> i = j"
proof -
  have inj: "nat_digits m = nat_digits n \<Longrightarrow> m = n" for m n
    by (metis digits_val_nat_digits option.inject)
  have sign: "nat_digits m \<noteq> CHR ''-'' # s" for m s
    using nat_digits_hd [of m] is_digit_not_sign by (metis list.sel(1))
  show ?thesis
    by (auto simp: Itoa_def sign [symmetric] sign dest!: inj split: if_splits)
qed

section \<open>Hexadecimal: \<open>encoding/hex\<close>\<close>

definition hex_val :: "char \<Rightarrow> nat option" where
  "hex_val c =
     (let n = code_of c in
      if 48 \<le> n \<and> n \<le> 57 then Some (n - 48)
      else if 97 \<le> n \<and> n \<le> 102 then Some (n - 87)
      else if 65 \<le> n \<and> n \<le> 70 then Some (n - 55)
      else None)"

fun hex_DecodeString :: "string \<Rightarrow> byte list res" where
  "hex_DecodeString [] = Inr []"
| "hex_DecodeString [c] =
     (case hex_val c of None \<Rightarrow> Inl (new_err ''invalid byte'') | Some _ \<Rightarrow> Inl (new_err ''odd length hex string''))"
| "hex_DecodeString (c # d # s) =
     (case hex_val c of None \<Rightarrow> Inl (new_err ''invalid byte'')
      | Some h \<Rightarrow> (case hex_val d of None \<Rightarrow> Inl (new_err ''invalid byte'')
        | Some l \<Rightarrow> (case hex_DecodeString s of Inl e \<Rightarrow> Inl e
          | Inr bs \<Rightarrow> Inr (word_of_nat (16 * h + l) # bs))))"

definition hex_digit :: "nat \<Rightarrow> char" where
  "hex_digit d = (if d < 10 then char_of (48 + d) else char_of (87 + d))"

definition hex_EncodeToString :: "byte list \<Rightarrow> string" where
  "hex_EncodeToString bs =
     concat (map (\<lambda>b. [hex_digit (unat b div 16), hex_digit (unat b mod 16)]) bs)"

lemma hex_val_bound: "hex_val c = Some v \<Longrightarrow> v < 16"
  by (auto simp: hex_val_def Let_def split: if_splits)

lemma hex_val_hex_digit: "d < 16 \<Longrightarrow> hex_val (hex_digit d) = Some d"
  by (simp add: hex_val_def hex_digit_def Let_def)

lemma hex_DecodeString_Encode [simp]: "hex_DecodeString (hex_EncodeToString bs) = Inr bs"
proof (induction bs)
  case Nil
  then show ?case by (simp add: hex_EncodeToString_def)
next
  case (Cons b bs)
  have "unat b < 256" using unsigned_less [of b] by simp
  then have "unat b div 16 < 16" by simp
  with Cons show ?case
    by (simp add: hex_EncodeToString_def hex_val_hex_digit)
qed

lemma hex_DecodeString_ok:
  assumes "list_all (\<lambda>c. hex_val c \<noteq> None) s" "even (length s)"
  shows "\<exists>bs. hex_DecodeString s = Inr bs \<and> length bs = length s div 2"
  using assms
proof (induction s rule: hex_DecodeString.induct)
  case (3 c d s)
  then obtain h l where hl: "hex_val c = Some h" "hex_val d = Some l" by auto
  with 3 obtain bs where "hex_DecodeString s = Inr bs" "length bs = length s div 2" by auto
  with hl show ?case by simp
qed auto

lemma hex_DecodeString_Inr:
  "hex_DecodeString s = Inr bs \<Longrightarrow> list_all (\<lambda>c. hex_val c \<noteq> None) s \<and> length s = 2 * length bs"
  by (induction s arbitrary: bs rule: hex_DecodeString.induct)
     (auto split: option.splits sum.splits)

text \<open>The verb \<open>%x\<close> on a number.\<close>

fun hex_number :: "nat \<Rightarrow> string" where
  "hex_number n = (if n < 16 then [hex_digit n] else hex_number (n div 16) @ [hex_digit (n mod 16)])"

declare hex_number.simps [simp del]

lemma hex_digit_eq: "a < 16 \<Longrightarrow> b < 16 \<Longrightarrow> hex_digit a = hex_digit b \<Longrightarrow> a = b"
  by (metis hex_val_hex_digit option.inject)

lemma hex_number_not_Nil [simp]: "hex_number n \<noteq> []"
  by (subst hex_number.simps) simp

lemma hex_number_inj: "hex_number a = hex_number b \<Longrightarrow> a = b"
proof (induction a arbitrary: b rule: hex_number.induct)
  case (1 a)
  show ?case
  proof (cases "a < 16")
    case True
    then have a: "hex_number a = [hex_digit a]" by (simp add: hex_number.simps)
    have "b < 16"
    proof (rule ccontr)
      assume "\<not> b < 16"
      then have "hex_number b = hex_number (b div 16) @ [hex_digit (b mod 16)]" by (subst hex_number.simps) simp
      with "1.prems" a hex_number_not_Nil [of "b div 16"] show False by (simp add: append_eq_Cons_conv del: hex_number_not_Nil)
    qed
    then have "hex_number b = [hex_digit b]" by (simp add: hex_number.simps)
    with "1.prems" a True \<open>b < 16\<close> show ?thesis by (simp add: hex_digit_eq)
  next
    case False
    then have a: "hex_number a = hex_number (a div 16) @ [hex_digit (a mod 16)]" by (subst hex_number.simps) simp
    have "\<not> b < 16"
    proof
      assume "b < 16"
      then have "hex_number b = [hex_digit b]" by (simp add: hex_number.simps)
      with "1.prems" a show False by simp
    qed
    then have "hex_number b = hex_number (b div 16) @ [hex_digit (b mod 16)]" by (subst hex_number.simps) simp
    with "1.prems" a have "hex_number (a div 16) = hex_number (b div 16)" "hex_digit (a mod 16) = hex_digit (b mod 16)"
      by simp_all
    with "1.IH" False have "a div 16 = b div 16" "a mod 16 = b mod 16" by (auto intro: hex_digit_eq)
    then show ?thesis by (metis div_mult_mod_eq)
  qed
qed

section \<open>The loop over unseen values\<close>

text \<open>
  \<open>for _, v := range vs { if _, ok := seen[v]; ok { continue }; seen[v] = struct{}{}; out =
  append(out, v) }\<close>, with what is already in \<open>seen\<close> as the first argument.
\<close>

fun unseen :: "'a set \<Rightarrow> 'a list \<Rightarrow> 'a list" where
  "unseen seen [] = []"
| "unseen seen (x # xs) = (if x \<in> seen then unseen seen xs else x # unseen (insert x seen) xs)"

lemma set_unseen: "set (unseen S xs) = set xs - S"
  by (induction xs arbitrary: S) auto

lemma distinct_unseen: "distinct (unseen S xs)"
  by (induction xs arbitrary: S) (auto simp: set_unseen)

lemma unseen_distinct: "distinct xs \<Longrightarrow> set xs \<inter> S = {} \<Longrightarrow> unseen S xs = xs"
  by (induction xs arbitrary: S) auto

lemma sorted_list_of_unseen: "sort (unseen {} xs) = sorted_list_of_set (set xs)"
  by (metis Diff_empty distinct_unseen set_unseen sorted_list_of_set_sort_remdups
      remdups_id_iff_distinct)

lemma unseen_cong_set:
  "set xs = set ys \<Longrightarrow> sort (unseen {} xs) = sort (unseen {} ys)"
  by (simp add: sorted_list_of_unseen)

end
