(* ===== verification/Actions.thy ===== *)
theory Actions
  imports Go_Strings
begin

text \<open>
  Package \<open>core/action\<close>: the remote's actions, their aliases and the parser of user input.
  A Go \<open>Action\<close> is a string type, so an \<open>action\<close> is a \<^typ>\<open>string\<close>: code that takes
  one must also answer for strings that name no action.
\<close>

type_synonym action = string

section \<open>The actions\<close>

definition Back :: action where "Back = ''back''"
definition Down :: action where "Down = ''down''"
definition Enter :: action where "Enter = ''enter''"
definition FastForward :: action where "FastForward = ''fast-forward''"
definition Home :: action where "Home = ''home''"
definition Left :: action where "Left = ''left''"
definition Menu :: action where "Menu = ''menu''"
definition Mute :: action where "Mute = ''mute''"
definition PlayPause :: action where "PlayPause = ''play-pause''"
definition Power :: action where "Power = ''power''"
definition Rewind :: action where "Rewind = ''rewind''"
definition Right :: action where "Right = ''right''"
definition Sleep :: action where "Sleep = ''sleep''"
definition Up :: action where "Up = ''up''"
definition VolumeDown :: action where "VolumeDown = ''volume-down''"
definition VolumeUp :: action where "VolumeUp = ''volume-up''"
definition Wakeup :: action where "Wakeup = ''wakeup''"

lemmas action_names = Back_def Down_def Enter_def FastForward_def Home_def Left_def Menu_def
  Mute_def PlayPause_def Power_def Rewind_def Right_def Sleep_def Up_def VolumeDown_def
  VolumeUp_def Wakeup_def

definition ErrUnknownAction :: goerr where
  "ErrUnknownAction = Sentinel ''unknown action''"

definition aliases :: "(string \<times> action) list" where
  "aliases =
    [(''back'', Back), (''center'', Enter), (''down'', Down), (''enter'', Enter),
     (''ff'', FastForward), (''fast-forward'', FastForward), (''home'', Home),
     (''left'', Left), (''menu'', Menu), (''mute'', Mute), (''ok'', Enter),
     (''play-pause'', PlayPause), (''power'', Power), (''rew'', Rewind),
     (''rewind'', Rewind), (''right'', Right), (''sleep'', Sleep), (''up'', Up),
     (''vol-down'', VolumeDown), (''vol-up'', VolumeUp), (''voldown'', VolumeDown),
     (''volume-down'', VolumeDown), (''volume-up'', VolumeUp), (''volup'', VolumeUp),
     (''wake'', Wakeup), (''wake-up'', Wakeup), (''wakeup'', Wakeup)]"

section \<open>Parsing\<close>

definition normalize :: "unicode \<Rightarrow> string \<Rightarrow> string" where
  "normalize u raw =
     (let raw = ToLower u (TrimSpace raw);
          raw = ReplaceAllChar (CHR ''_'') (CHR ''-'') raw;
          raw = ReplaceAllChar (CHR '' '') (CHR ''-'') raw
      in raw)"

definition Parse :: "unicode \<Rightarrow> string \<Rightarrow> action res" where
  "Parse u raw =
     (let normalized = normalize u raw in
      case map_of aliases normalized of
        None \<Rightarrow> Inl (Errorf ''%w: %s'' [FS normalized] (Some ErrUnknownAction))
      | Some act \<Rightarrow> Inr act)"

text \<open>\<open>MustParse\<close> panics with the error of \<open>Parse\<close>: \<open>Inl\<close> is the panic here.\<close>

definition MustParse :: "unicode \<Rightarrow> string \<Rightarrow> action res" where
  "MustParse u raw = (case Parse u raw of Inl err \<Rightarrow> Inl err | Inr act \<Rightarrow> Inr act)"

definition AllActions :: "action list" where
  "AllActions = sort [Back, Down, Enter, FastForward, Home, Left, Menu, Mute, PlayPause, Power, Rewind,
     Right, Sleep, Up, VolumeDown, VolumeUp, Wakeup]"

definition action_String :: "action \<Rightarrow> string" where
  "action_String a = a"

section \<open>Lemmas\<close>

text \<open>
  Words of lower-case letters and dashes are their own normal form, whatever the Unicode
  tables; the aliases are such words.
\<close>

lemma normalize_word:
  assumes "list_all word_char s"
  shows "normalize u s = s"
proof -
  have e: "list_all (\<lambda>c. \<not> edge_char c) s"
    using assms by (auto simp: list_all_iff word_char_not)
  have l: "map lower_char s = s"
    using assms by (intro map_idI) (auto simp: list_all_iff lower_char_def word_char_not)
  have r: "ReplaceAllChar (CHR '' '') (CHR ''-'') (ReplaceAllChar (CHR ''_'') (CHR ''-'') s) = s"
    unfolding ReplaceAllChar_def map_map using assms
    by (intro map_idI) (auto simp: list_all_iff word_char_not)
  show ?thesis
    using e l r by (simp add: normalize_def ToLower_def TrimSpace_all edge_char_ascii)
qed

lemma aliases_words: "list_all (list_all word_char) (map fst aliases)"
  by (simp add: aliases_def)

lemma alias_values: "list_all (\<lambda>a. map_of aliases a = Some a) (map snd aliases)"
  by code_simp

lemma set_AllActions: "set AllActions = snd ` set aliases"
  unfolding AllActions_def set_sort by (simp add: aliases_def set_eq_subset)

lemma Parse_alias:
  assumes "map_of aliases k = Some act"
  shows "Parse u k = Inr act"
proof -
  have "list_all word_char k"
    using assms aliases_words by (auto simp: list_all_iff dest: map_of_SomeD)
  with assms show ?thesis by (simp add: Parse_def normalize_word Let_def)
qed

lemma Parse_canonical:
  assumes "act \<in> set AllActions"
  shows "Parse u act = Inr act"
  using assms alias_values by (intro Parse_alias) (auto simp: set_AllActions list_all_iff)

lemma Parse_Inr_alias: "Parse u raw = Inr act \<Longrightarrow> map_of aliases (normalize u raw) = Some act"
  by (auto simp: Parse_def Let_def split: option.splits)

lemma Parse_Inr_set: "Parse u raw = Inr act \<Longrightarrow> act \<in> set AllActions"
  by (force simp: set_AllActions dest!: Parse_Inr_alias map_of_SomeD)

section \<open>Properties\<close>

text \<open>
  \<open>Parse\<close> is total: it returns one of the actions \<open>All\<close> lists, which parses to itself,
  or an error that is \<open>ErrUnknownAction\<close>, and then the normal form of the input is no alias.
  The list \<open>All\<close> is sorted and has no duplicates.
\<close>

theorem Parse_total:
  "sorted AllActions \<and> distinct AllActions \<and>
   (case Parse u raw of
      Inr act \<Rightarrow> act \<in> set AllActions \<and> Parse u (action_String act) = Inr act
    | Inl err \<Rightarrow> errors_is err ErrUnknownAction \<and> map_of aliases (normalize u raw) = None)"
proof -
  have "sorted AllActions" by (simp only: AllActions_def sorted_sort)
  moreover have "distinct AllActions"
    unfolding AllActions_def distinct_sort by (simp add: action_names)
  moreover have "case Parse u raw of
      Inr act \<Rightarrow> act \<in> set AllActions \<and> Parse u (action_String act) = Inr act
    | Inl err \<Rightarrow> errors_is err ErrUnknownAction \<and> map_of aliases (normalize u raw) = None"
  proof (cases "Parse u raw")
    case (Inl err)
    then show ?thesis by (auto simp: Parse_def Let_def ErrUnknownAction_def split: option.splits)
  next
    case (Inr act)
    then have "act \<in> set AllActions" by (rule Parse_Inr_set)
    then show ?thesis using Inr by (simp add: action_String_def Parse_canonical)
  qed
  ultimately show ?thesis by simp
qed

end
