(* ===== verification/Devices.thy ===== *)
theory Devices
  imports Go_Strings
begin

text \<open>
  Package \<open>core/device\<close>: discovered devices, targets, and the service that decides which
  target a command goes to. The Go interfaces \<open>Discoverer\<close> and \<open>TargetStore\<close> are records of
  functions over the state \<^typ>\<open>'w\<close> of the world (files, network) that they act on; a nil
  interface is \<^const>\<open>None\<close>. The context argument only carries the deadline, which the
  functions of this package do not look at.
\<close>

section \<open>Data\<close>

definition ErrMultipleDevices :: goerr where "ErrMultipleDevices = Sentinel ''multiple devices found''"
definition ErrNoDevices :: goerr where "ErrNoDevices = Sentinel ''no devices found''"
definition ErrNoSavedTarget :: goerr where "ErrNoSavedTarget = Sentinel ''no saved target''"
definition ErrNoUsableAddress :: goerr where
  "ErrNoUsableAddress = Sentinel ''device has no usable address''"

lemmas device_errors = ErrMultipleDevices_def ErrNoDevices_def ErrNoSavedTarget_def
  ErrNoUsableAddress_def

record device =
  dev_ID :: string
  dev_Service :: string
  dev_Instance :: string
  dev_HostName :: string
  dev_Port :: int
  dev_IPv4 :: "string list"
  dev_IPv6 :: "string list"
  dev_Text :: "string list"

record target =
  t_Host :: string
  t_Port :: int
  t_DeviceID :: string
  t_Label :: string

definition zero_target :: target where
  "zero_target = \<lparr>t_Host = [], t_Port = 0, t_DeviceID = [], t_Label = []\<rparr>"

definition target_IsZero :: "target \<Rightarrow> bool" where
  "target_IsZero t = (t_Host t = [])"

record 'w target_store =
  ts_Load :: "'w \<Rightarrow> target res \<times> 'w"
  ts_Save :: "target \<Rightarrow> 'w \<Rightarrow> goerr option \<times> 'w"
  ts_Clear :: "'w \<Rightarrow> goerr option \<times> 'w"

type_synonym 'w discoverer = "'w \<Rightarrow> device list res \<times> 'w"

record 'w device_service =
  ds_discoverer :: "'w discoverer option"
  ds_targetStore :: "'w target_store option"
  ds_defaultPort :: int

definition new_device_service ::
  "'w discoverer option \<Rightarrow> 'w target_store option \<Rightarrow> int \<Rightarrow> 'w device_service" where
  "new_device_service d ts port =
     \<lparr>ds_discoverer = d, ds_targetStore = ts, ds_defaultPort = port\<rparr>"

section \<open>Operations\<close>

definition normalizeTarget :: "target \<Rightarrow> int \<Rightarrow> target" where
  "normalizeTarget t defaultPort =
     (let t = (if t_Port t = 0 then t\<lparr>t_Port := defaultPort\<rparr> else t);
          t = (if t_Label t = [] then t\<lparr>t_Label := t_Host t\<rparr> else t)
      in t)"

definition TargetFromDevice :: "device \<Rightarrow> int \<Rightarrow> target res" where
  "TargetFromDevice dev defaultPort =
     (let host = (if dev_IPv4 dev \<noteq> [] then hd (dev_IPv4 dev)
                  else if dev_IPv6 dev \<noteq> [] then hd (dev_IPv6 dev)
                  else if dev_HostName dev \<noteq> [] then dev_HostName dev
                  else [])
      in if host = [] then Inl ErrNoUsableAddress
         else
           (let port = (if defaultPort = 0 then dev_Port dev else defaultPort);
                label = (if dev_Instance dev = [] then host else dev_Instance dev)
            in Inr \<lparr>t_Host = host, t_Port = port, t_DeviceID = dev_ID dev, t_Label = label\<rparr>))"

definition ResolveTarget ::
  "target option \<Rightarrow> target option \<Rightarrow> device list \<Rightarrow> int \<Rightarrow> target res" where
  "ResolveTarget explicit saved discovered defaultPort =
     (if explicit \<noteq> None \<and> \<not> target_IsZero (the explicit)
      then Inr (normalizeTarget (the explicit) defaultPort)
      else if saved \<noteq> None \<and> \<not> target_IsZero (the saved)
      then Inr (normalizeTarget (the saved) defaultPort)
      else case discovered of
          [] \<Rightarrow> Inl ErrNoDevices
        | [dev] \<Rightarrow> TargetFromDevice dev defaultPort
        | _ \<Rightarrow> Inl (Errorf ''%w (%d)'' [FI (int (length discovered))] (Some ErrMultipleDevices)))"

definition device_Discover :: "'w device_service \<Rightarrow> 'w \<Rightarrow> device list res \<times> 'w" where
  "device_Discover s w =
     (case ds_discoverer s of None \<Rightarrow> (Inl ErrNoDevices, w) | Some d \<Rightarrow> d w)"

definition LoadDefault :: "'w device_service \<Rightarrow> 'w \<Rightarrow> target res \<times> 'w" where
  "LoadDefault s w =
     (case ds_targetStore s of None \<Rightarrow> (Inl ErrNoSavedTarget, w) | Some ts \<Rightarrow> ts_Load ts w)"

definition SaveDefault :: "'w device_service \<Rightarrow> target \<Rightarrow> 'w \<Rightarrow> goerr option \<times> 'w" where
  "SaveDefault s t w =
     (case ds_targetStore s of None \<Rightarrow> (None, w)
      | Some ts \<Rightarrow> ts_Save ts (normalizeTarget t (ds_defaultPort s)) w)"

definition ClearDefault :: "'w device_service \<Rightarrow> 'w \<Rightarrow> goerr option \<times> 'w" where
  "ClearDefault s w =
     (case ds_targetStore s of None \<Rightarrow> (None, w) | Some ts \<Rightarrow> ts_Clear ts w)"

text \<open>The last part of \<open>Resolve\<close>, reached when no target is given and none is saved.\<close>

definition resolve_discovered :: "'w device_service \<Rightarrow> 'w \<Rightarrow> target res \<times> 'w" where
  "resolve_discovered s w =
     (case device_Discover s w of
        (Inl err, w) \<Rightarrow> (Inl err, w)
      | (Inr devs, w) \<Rightarrow> (ResolveTarget None None devs (ds_defaultPort s), w))"

definition Resolve :: "'w device_service \<Rightarrow> target option \<Rightarrow> 'w \<Rightarrow> target res \<times> 'w" where
  "Resolve s explicit w =
     (if explicit \<noteq> None \<and> \<not> target_IsZero (the explicit)
      then (Inr (normalizeTarget (the explicit) (ds_defaultPort s)), w)
      else case ds_targetStore s of
          None \<Rightarrow> resolve_discovered s w
        | Some ts \<Rightarrow>
            (case ts_Load ts w of
               (Inr t, w) \<Rightarrow> (Inr (normalizeTarget t (ds_defaultPort s)), w)
             | (Inl err, w) \<Rightarrow>
                 if errors_is err ErrNoSavedTarget then resolve_discovered s w
                 else (Inl err, w)))"

section \<open>Lemmas\<close>

lemma normalizeTarget_simps [simp]:
  "t_Host (normalizeTarget t p) = t_Host t"
  "t_DeviceID (normalizeTarget t p) = t_DeviceID t"
  "t_Port (normalizeTarget t p) = (if t_Port t = 0 then p else t_Port t)"
  "t_Label (normalizeTarget t p) = (if t_Label t = [] then t_Host t else t_Label t)"
  by (simp_all add: normalizeTarget_def Let_def)

lemma normalizeTarget_IsZero [simp]: "target_IsZero (normalizeTarget t p) = target_IsZero t"
  by (simp add: target_IsZero_def)

lemma normalizeTarget_idem [simp]: "normalizeTarget (normalizeTarget t p) p = normalizeTarget t p"
  by (rule target.equality) simp_all

text \<open>A target a connection can be opened to: a host, a label to show, and a port.\<close>

definition usable :: "int \<Rightarrow> target \<Rightarrow> bool" where
  "usable defaultPort t \<longleftrightarrow> t_Host t \<noteq> [] \<and> t_Label t \<noteq> [] \<and> (defaultPort \<noteq> 0 \<longrightarrow> t_Port t \<noteq> 0)"

lemma usable_normalize: "\<not> target_IsZero t \<Longrightarrow> usable p (normalizeTarget t p)"
  by (simp add: usable_def target_IsZero_def)

lemma TargetFromDevice_usable: "TargetFromDevice dev p = Inr t \<Longrightarrow> usable p t"
  by (auto simp: TargetFromDevice_def usable_def Let_def split: if_splits)

lemma ResolveTarget_usable: "ResolveTarget ex saved devs p = Inr t \<Longrightarrow> usable p t"
  by (auto simp: ResolveTarget_def usable_normalize dest: TargetFromDevice_usable
      split: if_splits list.splits)

lemma resolve_discovered_usable:
  "resolve_discovered s w = (Inr t, w') \<Longrightarrow> usable (ds_defaultPort s) t"
  by (auto simp: resolve_discovered_def dest: ResolveTarget_usable split: prod.splits sum.splits)

section \<open>The contract of a target store\<close>

text \<open>
  What the services need of a \<open>TargetStore\<close>: a target that was saved is the one loaded
  next, loading it leaves the store as it is, and a load that succeeds yields a target with
  a host. \<open>storable\<close> holds of the targets the store's format can represent, \<open>readable\<close> of
  the worlds in which the files of the store can be read.
\<close>

locale saved_target_store =
  fixes store :: "'w target_store"
    and storable :: "target \<Rightarrow> bool"
    and readable :: "'w \<Rightarrow> bool"
  assumes load_save: "storable t \<Longrightarrow> \<not> target_IsZero t \<Longrightarrow> ts_Save store t w = (None, w') \<Longrightarrow>
      readable w' \<Longrightarrow> ts_Load store w' = (Inr t, w')"
    and load_nonzero: "ts_Load store w = (Inr t, w') \<Longrightarrow> \<not> target_IsZero t"
begin

lemma Resolve_usable:
  assumes "ds_targetStore s = Some store" "Resolve s explicit w = (Inr t, w')"
  shows "usable (ds_defaultPort s) t"
  using assms
  by (auto simp: Resolve_def usable_normalize dest: load_nonzero resolve_discovered_usable
      split: if_splits prod.splits sum.splits)

lemma LoadDefault_after_save:
  assumes "ds_targetStore s = Some store"
    and "storable (normalizeTarget t (ds_defaultPort s))" "\<not> target_IsZero t"
    and "SaveDefault s t w = (None, w')" "readable w'"
  shows "LoadDefault s w' = (Inr (normalizeTarget t (ds_defaultPort s)), w')"
  using assms by (simp add: LoadDefault_def SaveDefault_def load_save)

text \<open>After a target was saved, it is what a command with no explicit target goes to.\<close>

lemma Resolve_after_save:
  assumes "ds_targetStore s = Some store"
    and "storable (normalizeTarget t (ds_defaultPort s))" "\<not> target_IsZero t"
    and "SaveDefault s t w = (None, w')" "readable w'"
  shows "Resolve s None w' = (Inr (normalizeTarget t (ds_defaultPort s)), w')"
  using LoadDefault_after_save [OF assms] assms(1) by (simp add: Resolve_def LoadDefault_def)

end

section \<open>Properties\<close>

definition saved_of :: "target res \<Rightarrow> target option" where
  "saved_of r = (case r of Inl _ \<Rightarrow> None | Inr t \<Rightarrow> Some t)"

text \<open>
  C25: \<open>Service.Resolve\<close>, which asks the store and the discoverer only when it has to,
  decides as \<open>ResolveTarget\<close> does on everything at once: for any devices the discoverer
  reports and any store that answers with a target that has a host or with
  \<open>ErrNoSavedTarget\<close>, the two return the same target or the same error.
\<close>

theorem Resolve_is_ResolveTarget:
  assumes "\<And>w. ds_discoverer s \<noteq> None \<Longrightarrow> fst (the (ds_discoverer s) w) = Inr devs"
    and "ds_discoverer s = None \<Longrightarrow> devs = []"
    and "ds_targetStore s = Some ts" "fst (ts_Load ts w) = saved"
    and "case saved of Inl err \<Rightarrow> errors_is err ErrNoSavedTarget | Inr t \<Rightarrow> \<not> target_IsZero t"
  shows "fst (Resolve s explicit w) =
    ResolveTarget explicit (saved_of saved) devs (ds_defaultPort s)"
proof -
  have disc: "fst (resolve_discovered s w) = ResolveTarget None None devs (ds_defaultPort s)" for w
    using assms(1) [of w] assms(2)
    by (cases "ds_discoverer s")
      (auto simp: resolve_discovered_def device_Discover_def ResolveTarget_def
        split: prod.splits sum.splits)
  obtain w' where "ts_Load ts w = (saved, w')" using assms(4) by (metis prod.collapse)
  with assms(3,5) disc [of w'] show ?thesis
    by (cases saved) (auto simp: Resolve_def ResolveTarget_def saved_of_def)
qed

theorem Resolve_is_ResolveTarget_witness:
  "fst (Resolve
      \<lparr>ds_discoverer = Some (\<lambda>w :: unit. (Inr [], w)),
       ds_targetStore = Some \<lparr>ts_Load = (\<lambda>w. (Inr \<lparr>t_Host = ''tv'', t_Port = 0, t_DeviceID = [], t_Label = []\<rparr>, w)),
         ts_Save = (\<lambda>t w. (None, w)), ts_Clear = (\<lambda>w. (None, w))\<rparr>,
       ds_defaultPort = 6466\<rparr> None ()) =
   Inr \<lparr>t_Host = ''tv'', t_Port = 6466, t_DeviceID = [], t_Label = ''tv''\<rparr>"
  by (subst Resolve_is_ResolveTarget [where devs = "[]" and
        saved = "Inr \<lparr>t_Host = ''tv'', t_Port = 0, t_DeviceID = [], t_Label = []\<rparr>"])
    (auto simp: target_IsZero_def saved_of_def ResolveTarget_def normalizeTarget_def)

end
