(* ===== verification/Pairing_Core.thy ===== *)
theory Pairing_Core
  imports Devices
begin

text \<open>
  Package \<open>core/pairing\<close>: pairing codes, client credentials and the service that runs a
  pairing. A \<open>CodeProvider\<close> asks the user, so it acts on the world; \<open>Pairer\<close> and
  \<open>CredentialStore\<close> are interfaces, modelled like those of \<^theory_text>\<open>Devices\<close>.
\<close>

section \<open>Data\<close>

definition ErrCredentialsNotFound :: goerr where
  "ErrCredentialsNotFound = Sentinel ''credentials not found''"
definition ErrInvalidCode :: goerr where "ErrInvalidCode = Sentinel ''invalid pairing code''"
definition ErrPairingRequired :: goerr where "ErrPairingRequired = Sentinel ''pairing required''"

lemmas pairing_errors = ErrCredentialsNotFound_def ErrInvalidCode_def ErrPairingRequired_def

type_synonym code = string

record credentials =
  cr_CertPath :: string
  cr_KeyPath :: string
  cr_Source :: string

record pairing_state =
  ps_Available :: bool
  ps_Credentials :: credentials

definition zero_credentials :: credentials where
  "zero_credentials = \<lparr>cr_CertPath = [], cr_KeyPath = [], cr_Source = []\<rparr>"

definition zero_pairing_state :: pairing_state where
  "zero_pairing_state = \<lparr>ps_Available = False, ps_Credentials = zero_credentials\<rparr>"

type_synonym 'w code_provider = "'w \<Rightarrow> code res \<times> 'w"

record 'w pair_request =
  pq_Target :: target
  pq_Code :: code
  pq_CodeProvider :: "'w code_provider option"
  pq_Credentials :: credentials
  pq_ClientName :: string
  pq_ServiceName :: string

type_synonym 'w pairer = "'w pair_request \<Rightarrow> 'w \<Rightarrow> credentials res \<times> 'w"

record 'w credential_store =
  cs_Default :: "'w \<Rightarrow> credentials res \<times> 'w"
  cs_Load :: "'w \<Rightarrow> credentials res \<times> 'w"
  cs_Exists :: "credentials \<Rightarrow> 'w \<Rightarrow> bool res \<times> 'w"

record 'w pairing_service =
  pv_pairer :: "'w pairer option"
  pv_store :: "'w credential_store option"
  pv_clientName :: string
  pv_serviceName :: string

definition new_pairing_service ::
  "'w pairer option \<Rightarrow> 'w credential_store option \<Rightarrow> string \<Rightarrow> string \<Rightarrow> 'w pairing_service" where
  "new_pairing_service p st cn sn =
     \<lparr>pv_pairer = p, pv_store = st, pv_clientName = cn, pv_serviceName = sn\<rparr>"

section \<open>Pairing codes\<close>

text \<open>
  The check of one rune of a code. A byte from 128 on starts or continues a rune above \<open>'F'\<close>
  (or an invalid sequence, which decodes to U+FFFD), so checking bytes is checking runes.
\<close>

definition code_rune_bad :: "char \<Rightarrow> bool" where
  "code_rune_bad r =
     (code_of r < 48 \<or> (code_of r > 57 \<and> (code_of r < 65 \<or> code_of r > 70)))"

definition ParseCode :: "unicode \<Rightarrow> string \<Rightarrow> code res" where
  "ParseCode u raw =
     (let code = ToUpper u (TrimSpace raw) in
      if length code \<noteq> 6
      then Inl (Errorf ''%w: expected 6 hex characters'' [] (Some ErrInvalidCode))
      else if list_ex code_rune_bad code
      then Inl (Errorf ''%w: %q'' [FS raw] (Some ErrInvalidCode))
      else Inr code)"

definition creds_IsZero :: "credentials \<Rightarrow> bool" where
  "creds_IsZero c = (cr_CertPath c = [] \<or> cr_KeyPath c = [])"

section \<open>The service\<close>

definition pairing_Credentials :: "'w pairing_service \<Rightarrow> 'w \<Rightarrow> credentials res \<times> 'w" where
  "pairing_Credentials s w =
     (case pv_store s of
        None \<Rightarrow> (Inl ErrCredentialsNotFound, w)
      | Some st \<Rightarrow>
          (case cs_Load st w of
             (Inl err, w) \<Rightarrow> (Inl err, w)
           | (Inr creds, w) \<Rightarrow>
               if creds_IsZero creds then (Inl ErrCredentialsNotFound, w)
               else
                 (case cs_Exists st creds w of
                    (Inl err, w) \<Rightarrow> (Inl err, w)
                  | (Inr exists, w) \<Rightarrow>
                      if \<not> exists then (Inl ErrCredentialsNotFound, w) else (Inr creds, w))))"

definition pairing_State :: "'w pairing_service \<Rightarrow> 'w \<Rightarrow> pairing_state res \<times> 'w" where
  "pairing_State s w =
     (case pairing_Credentials s w of
        (Inl err, w) \<Rightarrow>
          if errors_is err ErrCredentialsNotFound then (Inr zero_pairing_state, w) else (Inl err, w)
      | (Inr creds, w) \<Rightarrow> (Inr \<lparr>ps_Available = True, ps_Credentials = creds\<rparr>, w))"

definition wrap_provider :: "unicode \<Rightarrow> 'w code_provider \<Rightarrow> 'w code_provider" where
  "wrap_provider u provider w =
     (case provider w of
        (Inl err, w) \<Rightarrow> (Inl err, w)
      | (Inr provided, w) \<Rightarrow> (ParseCode u provided, w))"

text \<open>The part of \<open>Pair\<close> after the code was checked.\<close>

definition pair_checked ::
  "unicode \<Rightarrow> 'w pairing_service \<Rightarrow> target \<Rightarrow> code \<Rightarrow> 'w code_provider option \<Rightarrow> 'w \<Rightarrow>
    pairing_state res \<times> 'w" where
  "pair_checked u s t code provider w =
     (case (pv_store s, pv_pairer s) of
        (Some st, Some pairer) \<Rightarrow>
          (case cs_Default st w of
             (Inl err, w) \<Rightarrow> (Inl err, w)
           | (Inr creds, w) \<Rightarrow>
               (case pairer \<lparr>pq_Target = t, pq_Code = code,
                       pq_CodeProvider = map_option (wrap_provider u) provider,
                       pq_Credentials = creds, pq_ClientName = pv_clientName s,
                       pq_ServiceName = pv_serviceName s\<rparr> w of
                  (Inl err, w) \<Rightarrow> (Inl err, w)
                | (Inr creds, w) \<Rightarrow> (Inr \<lparr>ps_Available = True, ps_Credentials = creds\<rparr>, w)))
      | _ \<Rightarrow> (Inl (new_err ''pairing not configured''), w))"

definition pairing_Pair ::
  "unicode \<Rightarrow> 'w pairing_service \<Rightarrow> target \<Rightarrow> code \<Rightarrow> 'w code_provider option \<Rightarrow> 'w \<Rightarrow>
    pairing_state res \<times> 'w" where
  "pairing_Pair u s t code provider w =
     (if target_IsZero t then (Inl ErrNoDevices, w)
      else if code = [] \<and> provider = None then (Inl ErrInvalidCode, w)
      else if code \<noteq> [] then
        (case ParseCode u code of
           Inl err \<Rightarrow> (Inl err, w)
         | Inr validated \<Rightarrow> pair_checked u s t validated provider w)
      else pair_checked u s t code provider w)"

section \<open>Lemmas\<close>

lemma ParseCode_Inr:
  "ParseCode u raw = Inr c \<Longrightarrow>
    c = ToUpper u (TrimSpace raw) \<and> length c = 6 \<and> list_all (\<lambda>r. \<not> code_rune_bad r) c"
  by (auto simp: ParseCode_def Let_def list_ex_iff list_all_iff split: if_splits)

lemma good_rune:
  assumes "\<not> code_rune_bad r"
  shows "\<not> edge_char r" "upper_char r = r" "hex_val r \<noteq> None"
  using assms
  by (auto simp: code_rune_bad_def edge_char_def upper_char_def is_lower_char_def hex_val_def Let_def)

text \<open>A valid code is its own normal form.\<close>

lemma ParseCode_fixed:
  assumes "length c = 6" "list_all (\<lambda>r. \<not> code_rune_bad r) c"
  shows "ParseCode u c = Inr c"
proof -
  have e: "list_all (\<lambda>r. \<not> edge_char r) c"
    using assms(2) by (auto simp: list_all_iff good_rune)
  have up: "map upper_char c = c"
    using assms(2) by (intro map_idI) (auto simp: list_all_iff good_rune)
  have "\<not> list_ex code_rune_bad c"
    using assms(2) by (auto simp: list_ex_iff list_all_iff)
  with assms(1) e up show ?thesis
    by (simp add: ParseCode_def ToUpper_def TrimSpace_all edge_char_ascii)
qed

lemma ParseCode_error: "ParseCode u raw = Inl err \<Longrightarrow> errors_is err ErrInvalidCode"
  by (auto simp: ParseCode_def Let_def pairing_errors split: if_splits)

lemma valid_code_hex:
  assumes "length c = 6" "list_all (\<lambda>r. \<not> code_rune_bad r) c"
  shows "\<exists>bs. hex_DecodeString c = Inr bs \<and> length bs = 3"
proof -
  have "list_all (\<lambda>r. hex_val r \<noteq> None) c"
    using assms(2) good_rune(3) by (auto simp: list_all_iff)
  with hex_DecodeString_ok [of c] assms(1) show ?thesis by auto
qed

text \<open>A request the service may hand to the pairer.\<close>

definition valid_code :: "code \<Rightarrow> bool" where
  "valid_code c \<longleftrightarrow> length c = 6 \<and> list_all (\<lambda>r. \<not> code_rune_bad r) c"

definition valid_request :: "'w pair_request \<Rightarrow> bool" where
  "valid_request q \<longleftrightarrow>
     \<not> target_IsZero (pq_Target q) \<and>
     (pq_Code q = [] \<and> pq_CodeProvider q \<noteq> None \<or> valid_code (pq_Code q)) \<and>
     (\<forall>p w c w'. pq_CodeProvider q = Some p \<longrightarrow> p w = (Inr c, w') \<longrightarrow> valid_code c)"

lemma wrap_provider_valid: "wrap_provider u p w = (Inr c, w') \<Longrightarrow> valid_code c"
  by (auto simp: wrap_provider_def valid_code_def dest!: ParseCode_Inr split: prod.splits sum.splits)

section \<open>The contract of a credential store\<close>

text \<open>
  What the services need of a \<open>CredentialStore\<close>: credentials it loads name two files, and it
  confirms that they exist, without changing anything.
\<close>

locale client_credential_store =
  fixes store :: "'w credential_store"
  assumes load_exists: "cs_Load store w = (Inr c, w') \<Longrightarrow>
      \<not> creds_IsZero c \<and> cs_Exists store c w' = (Inr True, w')"
begin

text \<open>Then the service's second look at the files never turns credentials down.\<close>

lemma Credentials_Load:
  assumes "pv_store s = Some store"
  shows "pairing_Credentials s w = cs_Load store w"
  using assms load_exists
  by (fastforce simp: pairing_Credentials_def split: prod.splits sum.splits)

end

section \<open>Properties\<close>

text \<open>
  \<open>ParseCode\<close> returns six upper-case hexadecimal digits, which decode to three bytes and
  parse to themselves, or an error that is \<open>ErrInvalidCode\<close>.
\<close>

theorem ParseCode_normal_form:
  "case ParseCode u raw of
     Inr c \<Rightarrow> valid_code c \<and> ParseCode u c = Inr c \<and>
       (\<exists>bs. hex_DecodeString c = Inr bs \<and> length bs = 3)
   | Inl err \<Rightarrow> errors_is err ErrInvalidCode"
proof (cases "ParseCode u raw")
  case (Inl err)
  then show ?thesis by (simp add: ParseCode_error)
next
  case (Inr c)
  then have "length c = 6" "list_all (\<lambda>r. \<not> code_rune_bad r) c" by (auto dest: ParseCode_Inr)
  with Inr show ?thesis by (simp add: valid_code_def ParseCode_fixed valid_code_hex)
qed

text \<open>
  The pairer is only ever called with a valid request: a target with a host, a code that
  was validated or a provider of validated codes. Two pairers that agree on valid requests
  give the service the same behaviour, whatever they do on others.
\<close>

theorem Pair_only_valid_requests:
  assumes "\<And>q w. valid_request q \<Longrightarrow> pairer q w = pairer' q w"
  shows "pairing_Pair u (s\<lparr>pv_pairer := Some pairer\<rparr>) t code provider w =
    pairing_Pair u (s\<lparr>pv_pairer := Some pairer'\<rparr>) t code provider w"
proof -
  have eq: "pair_checked u (s\<lparr>pv_pairer := Some pairer\<rparr>) t c provider w =
      pair_checked u (s\<lparr>pv_pairer := Some pairer'\<rparr>) t c provider w"
    if "\<not> target_IsZero t" "c = [] \<and> provider \<noteq> None \<or> valid_code c" for c
  proof -
    have "valid_request \<lparr>pq_Target = t, pq_Code = c, pq_CodeProvider = map_option (wrap_provider u) provider,
        pq_Credentials = creds, pq_ClientName = a, pq_ServiceName = b\<rparr>" for creds a b
      using that by (auto simp: valid_request_def dest: wrap_provider_valid)
    with assms show ?thesis
      by (auto simp: pair_checked_def split: option.splits prod.splits sum.splits)
  qed
  have "valid_code c" if "ParseCode u code = Inr c" for c
    using that by (auto simp: valid_code_def dest!: ParseCode_Inr)
  then show ?thesis
    unfolding pairing_Pair_def
    by (cases "target_IsZero t"; cases "code = []"; cases "ParseCode u code")
      (auto simp: eq)
qed

theorem Pair_only_valid_requests_witness:
  "pairing_Pair \<lparr>uni_lower = id, uni_upper = id\<rparr>
     (\<lparr>pv_pairer = None, pv_store = None, pv_clientName = ''shrmt'', pv_serviceName = ''atvremote''\<rparr>
        \<lparr>pv_pairer := Some (\<lambda>q w. (Inr (pq_Credentials q), w))\<rparr>)
     \<lparr>t_Host = ''tv'', t_Port = 0, t_DeviceID = [], t_Label = []\<rparr> ''A1B2C3'' None (0 :: nat) =
   pairing_Pair \<lparr>uni_lower = id, uni_upper = id\<rparr>
     (\<lparr>pv_pairer = None, pv_store = None, pv_clientName = ''shrmt'', pv_serviceName = ''atvremote''\<rparr>
        \<lparr>pv_pairer := Some (\<lambda>q w. if valid_request q then (Inr (pq_Credentials q), w) else (Inl ErrInvalidCode, w))\<rparr>)
     \<lparr>t_Host = ''tv'', t_Port = 0, t_DeviceID = [], t_Label = []\<rparr> ''A1B2C3'' None (0 :: nat)"
  by (rule Pair_only_valid_requests) simp

end
