(* ===== verification/Remote_Core.thy ===== *)
theory Remote_Core
  imports Actions Pairing_Core
begin

text \<open>
  Packages \<open>core/remote\<close>, \<open>controller\<close> and \<open>ports\<close>: loading the state of the remote, sending
  actions and launching links, and the controller that the command line and the window drive.
  The interfaces \<open>Warmupper\<close> and \<open>Launcher\<close> that a \<open>Sender\<close> may implement as well are optional
  fields of the record of a sender. Methods on a nil \<open>*Service\<close> are not called: the services
  are options where the code compares them with nil.
\<close>

section \<open>Data\<close>

definition ErrLaunchNotSupported :: goerr where
  "ErrLaunchNotSupported = Sentinel ''launch not supported''"
definition ErrRemoteNotReady :: goerr where "ErrRemoteNotReady = Sentinel ''remote not ready''"

record send_input =
  si_Target :: "target option"
  si_Action :: action

record launch_input =
  li_Target :: "target option"
  li_Link :: string

record remote_state =
  rs_Target :: target
  rs_HasTarget :: bool
  rs_SavedTarget :: bool
  rs_Pairing :: pairing_state

definition zero_remote_state :: remote_state where
  "zero_remote_state = \<lparr>rs_Target = zero_target, rs_HasTarget = False, rs_SavedTarget = False,
     rs_Pairing = zero_pairing_state\<rparr>"

record send_result =
  sr_Action :: action
  sr_SupportedFeatures :: "32 word"
  sr_ActiveFeatures :: "32 word"
  sr_Powered :: "bool option"

type_synonym 'w send_fun = "target \<Rightarrow> credentials \<Rightarrow> action \<Rightarrow> 'w \<Rightarrow> send_result res \<times> 'w"
type_synonym 'w warmup_fun = "target \<Rightarrow> credentials \<Rightarrow> 'w \<Rightarrow> goerr option \<times> 'w"
type_synonym 'w launch_fun = "target \<Rightarrow> credentials \<Rightarrow> string \<Rightarrow> 'w \<Rightarrow> goerr option \<times> 'w"

record 'w sender =
  sn_Send :: "'w send_fun"
  sn_Warmup :: "'w warmup_fun option"
  sn_Launch :: "'w launch_fun option"

record 'w remote_service =
  rm_devices :: "'w device_service option"
  rm_pairing :: "'w pairing_service option"
  rm_sender :: "'w sender option"
  rm_launcher :: "'w launch_fun option"

definition new_remote_service ::
  "'w device_service option \<Rightarrow> 'w pairing_service option \<Rightarrow> 'w sender option \<Rightarrow> 'w remote_service" where
  "new_remote_service devices pairingSvc sender =
     \<lparr>rm_devices = devices, rm_pairing = pairingSvc, rm_sender = sender,
      rm_launcher = Option.bind sender sn_Launch\<rparr>"

section \<open>The remote service\<close>

text \<open>
  \<open>Load\<close> returns a state beside an error: the zero state, or the one filled so far when no
  target could be resolved. The first block of its body, then its remainder:
\<close>

definition load_pairing :: "'w remote_service \<Rightarrow> 'w \<Rightarrow> pairing_state res \<times> 'w" where
  "load_pairing s w =
     (case rm_pairing s of None \<Rightarrow> (Inr zero_pairing_state, w) | Some p \<Rightarrow> pairing_State p w)"

definition load_saved :: "'w device_service \<Rightarrow> target option \<Rightarrow> 'w \<Rightarrow> bool res \<times> 'w" where
  "load_saved devices explicit w =
     (case explicit of
        Some _ \<Rightarrow> (Inr False, w)
      | None \<Rightarrow>
          (case LoadDefault devices w of
             (Inr _, w) \<Rightarrow> (Inr True, w)
           | (Inl err, w) \<Rightarrow>
               if \<not> errors_is err ErrNoSavedTarget then (Inl err, w) else (Inr False, w)))"

definition load_warmup ::
  "'w remote_service \<Rightarrow> target option \<Rightarrow> remote_state \<Rightarrow> 'w \<Rightarrow> 'w" where
  "load_warmup s explicit state w =
     (let warmTarget = (explicit \<noteq> None \<or> rs_SavedTarget state) in
      if warmTarget \<and> rs_HasTarget state \<and> ps_Available (rs_Pairing state)
      then (case Option.bind (rm_sender s) sn_Warmup of
              None \<Rightarrow> w
            | Some warmup \<Rightarrow>
                snd (warmup (rs_Target state) (ps_Credentials (rs_Pairing state)) w))
      else w)"

definition remote_Load ::
  "'w remote_service \<Rightarrow> target option \<Rightarrow> 'w \<Rightarrow> (remote_state \<times> goerr option) \<times> 'w" where
  "remote_Load s explicit w =
     (case load_pairing s w of
        (Inl err, w) \<Rightarrow> ((zero_remote_state, Some err), w)
      | (Inr ps, w) \<Rightarrow>
          (let state = zero_remote_state\<lparr>rs_Pairing := ps\<rparr> in
           case rm_devices s of
             None \<Rightarrow> ((state, None), w)
           | Some devices \<Rightarrow>
               (case load_saved devices explicit w of
                  (Inl err, w) \<Rightarrow> ((zero_remote_state, Some err), w)
                | (Inr saved, w) \<Rightarrow>
                    (let state = state\<lparr>rs_SavedTarget := saved\<rparr> in
                     case Resolve devices explicit w of
                       (Inl err, w) \<Rightarrow> ((state, Some err), w)
                     | (Inr t, w) \<Rightarrow>
                         (let state = state\<lparr>rs_Target := t, rs_HasTarget := \<not> target_IsZero t\<rparr>
                          in ((state, None), load_warmup s explicit state w))))))"

definition resolveTargetAndCredentials ::
  "'w device_service \<Rightarrow> 'w pairing_service \<Rightarrow> target option \<Rightarrow> 'w \<Rightarrow> (target \<times> credentials) res \<times> 'w" where
  "resolveTargetAndCredentials devices pairing explicit w =
     (case Resolve devices explicit w of
        (Inl err, w) \<Rightarrow> (Inl err, w)
      | (Inr t, w) \<Rightarrow>
          (case pairing_Credentials pairing w of
             (Inl err, w) \<Rightarrow>
               if errors_is err ErrCredentialsNotFound then (Inl ErrPairingRequired, w)
               else (Inl err, w)
           | (Inr creds, w) \<Rightarrow> (Inr (t, creds), w)))"

definition remote_Send :: "'w remote_service \<Rightarrow> send_input \<Rightarrow> 'w \<Rightarrow> send_result res \<times> 'w" where
  "remote_Send s inp w =
     (case (rm_sender s, rm_devices s, rm_pairing s) of
        (Some sender, Some devices, Some pairing) \<Rightarrow>
          (case resolveTargetAndCredentials devices pairing (si_Target inp) w of
             (Inl err, w) \<Rightarrow> (Inl err, w)
           | (Inr (t, creds), w) \<Rightarrow> sn_Send sender t creds (si_Action inp) w)
      | _ \<Rightarrow> (Inl ErrRemoteNotReady, w))"

definition remote_Launch :: "'w remote_service \<Rightarrow> launch_input \<Rightarrow> 'w \<Rightarrow> goerr option \<times> 'w" where
  "remote_Launch s inp w =
     (case (rm_launcher s, rm_devices s, rm_pairing s) of
        (Some launcher, Some devices, Some pairing) \<Rightarrow>
          (case resolveTargetAndCredentials devices pairing (li_Target inp) w of
             (Inl err, w) \<Rightarrow> (Some err, w)
           | (Inr (t, creds), w) \<Rightarrow> launcher t creds (li_Link inp) w)
      | _ \<Rightarrow> (Some ErrLaunchNotSupported, w))"

section \<open>The controller\<close>

text \<open>
  The requests of package \<open>ports\<close>. The context's timeouts do not change what the controller
  does with the results.
\<close>

record load_request =
  lr_Target :: "target option"

record select_target_request =
  str_Target :: target

record 'w ctl_pair_request =
  pr_Target :: "target option"
  pr_Code :: code
  pr_CodeProvider :: "'w code_provider option"

record send_request =
  sq_Target :: "target option"
  sq_Action :: action

record launch_request =
  lq_Target :: "target option"
  lq_Link :: string

record 'w controller =
  ct_devices :: "'w device_service"
  ct_pairing :: "'w pairing_service"
  ct_remote :: "'w remote_service"

definition new_controller ::
  "'w device_service \<Rightarrow> 'w pairing_service \<Rightarrow> 'w remote_service \<Rightarrow> 'w controller" where
  "new_controller d p r = \<lparr>ct_devices = d, ct_pairing = p, ct_remote = r\<rparr>"

definition ctl_Load ::
  "'w controller \<Rightarrow> load_request \<Rightarrow> 'w \<Rightarrow> (remote_state \<times> goerr option) \<times> 'w" where
  "ctl_Load c req w = remote_Load (ct_remote c) (lr_Target req) w"

definition ctl_Discover :: "'w controller \<Rightarrow> 'w \<Rightarrow> device list res \<times> 'w" where
  "ctl_Discover c w = device_Discover (ct_devices c) w"

definition ctl_SelectTarget :: "'w controller \<Rightarrow> select_target_request \<Rightarrow> 'w \<Rightarrow> goerr option \<times> 'w" where
  "ctl_SelectTarget c req w = SaveDefault (ct_devices c) (str_Target req) w"

definition ctl_Pair ::
  "unicode \<Rightarrow> 'w controller \<Rightarrow> 'w ctl_pair_request \<Rightarrow> 'w \<Rightarrow> (pairing_state \<times> goerr option) \<times> 'w" where
  "ctl_Pair u c req w =
     (case Resolve (ct_devices c) (pr_Target req) w of
        (Inl err, w) \<Rightarrow> ((zero_pairing_state, Some err), w)
      | (Inr t, w) \<Rightarrow>
          (case pairing_Pair u (ct_pairing c) t (pr_Code req) (pr_CodeProvider req) w of
             (Inl err, w) \<Rightarrow> ((zero_pairing_state, Some err), w)
           | (Inr state, w) \<Rightarrow>
               (case SaveDefault (ct_devices c) t w of
                  (Some err, w) \<Rightarrow> ((state, Some (wrap_err ''save default target: %w'' err)), w)
                | (None, w) \<Rightarrow> ((state, None), w))))"

definition ctl_Send :: "'w controller \<Rightarrow> send_request \<Rightarrow> 'w \<Rightarrow> send_result res \<times> 'w" where
  "ctl_Send c req w =
     remote_Send (ct_remote c) \<lparr>si_Target = sq_Target req, si_Action = sq_Action req\<rparr> w"

definition ctl_Launch :: "'w controller \<Rightarrow> launch_request \<Rightarrow> 'w \<Rightarrow> goerr option \<times> 'w" where
  "ctl_Launch c req w =
     remote_Launch (ct_remote c) \<lparr>li_Target = lq_Target req, li_Link = lq_Link req\<rparr> w"

section \<open>Lemmas\<close>

lemma load_pairing_Available:
  assumes "load_pairing s w = (Inr ps, w')" "ps_Available ps"
  shows "\<not> creds_IsZero (ps_Credentials ps)"
  using assms
  by (auto simp: load_pairing_def pairing_State_def pairing_Credentials_def zero_pairing_state_def
      split: option.splits prod.splits sum.splits if_splits)

lemma pairing_Credentials_nonzero:
  "pairing_Credentials s w = (Inr c, w') \<Longrightarrow> \<not> creds_IsZero c"
  by (auto simp: pairing_Credentials_def split: option.splits prod.splits sum.splits if_splits)

lemma remote_Load_warmup:
  "fst (remote_Load (s\<lparr>rm_sender := sn\<rparr>) explicit w) = fst (remote_Load s explicit w)"
  by (simp add: remote_Load_def load_pairing_def Let_def split: option.split prod.split sum.split)

section \<open>The contract of the service's stores\<close>

text \<open>
  A remote service on a target store that keeps its contract: whatever reaches the sender or
  the launcher is a usable target with credentials that name two files.
\<close>

locale remote_stores = saved_target_store store storable readable
  for store :: "'w target_store" and storable :: "target \<Rightarrow> bool" and readable :: "'w \<Rightarrow> bool" +
  fixes devices :: "'w device_service"
  assumes devices_store: "ds_targetStore devices = Some store"
begin

lemma resolveTargetAndCredentials_ok:
  assumes "resolveTargetAndCredentials devices pairing explicit w = (Inr (t, c), w')"
  shows "usable (ds_defaultPort devices) t \<and> \<not> creds_IsZero c"
  using assms devices_store
  by (auto simp: resolveTargetAndCredentials_def split: prod.splits sum.splits if_splits
      dest: Resolve_usable pairing_Credentials_nonzero)

lemma Load_usable:
  assumes "rm_devices s = Some devices" "remote_Load s explicit w = ((st, None), w')"
  shows "rs_HasTarget st" "usable (ds_defaultPort devices) (rs_Target st)"
proof -
  have "rs_HasTarget st \<and> usable (ds_defaultPort devices) (rs_Target st)"
    using assms devices_store
    by (auto simp: remote_Load_def Let_def split: prod.splits sum.splits
        dest: Resolve_usable) (auto simp: usable_def target_IsZero_def dest: Resolve_usable)
  then show "rs_HasTarget st" "usable (ds_defaultPort devices) (rs_Target st)" by auto
qed

end

section \<open>Properties\<close>

text \<open>
  The state that \<open>Load\<close> reports, and its error, do not depend on the sender: a warm-up that
  fails, or changes the world in any way, is not seen in them.
\<close>

theorem Load_ignores_warmup:
  "fst (remote_Load (s\<lparr>rm_sender := sn\<rparr>) explicit w) =
   fst (remote_Load (s\<lparr>rm_sender := None\<rparr>) explicit w)"
  by (simp only: remote_Load_warmup)

text \<open>
  The states of \<open>Load\<close> are consistent. A saved target is only reported when none was given;
  a state that says it is paired carries credentials that name both files; a state with an
  error never has a target; and a missing pairing or saved target alone is no error, so an
  error of \<open>Load\<close> is one of the stores or of resolving the target.
\<close>

theorem Load_state_consistent:
  assumes "remote_Load s explicit w = ((st, err), w')"
  shows "(rs_SavedTarget st \<longrightarrow> explicit = None) \<and>
    (ps_Available (rs_Pairing st) \<longrightarrow> \<not> creds_IsZero (ps_Credentials (rs_Pairing st))) \<and>
    (err \<noteq> None \<longrightarrow> \<not> rs_HasTarget st) \<and>
    (rs_HasTarget st \<longrightarrow> \<not> target_IsZero (rs_Target st)) \<and>
    (rm_devices s = None \<longrightarrow> rs_HasTarget st = False)"
proof (cases "load_pairing s w")
  case (Pair r w1)
  show ?thesis
  proof (cases r)
    case (Inl e)
    with Pair assms show ?thesis
      by (auto simp: remote_Load_def zero_remote_state_def zero_pairing_state_def)
  next
    case (Inr ps)
    with Pair have ps: "ps_Available ps \<longrightarrow> \<not> creds_IsZero (ps_Credentials ps)"
      using load_pairing_Available by metis
    have saved: "explicit = None" if "load_saved d explicit w1 = (Inr True, w2)" for d w2
      using that by (auto simp: load_saved_def split: option.splits)
    from assms ps Inr Pair saved show ?thesis
      by (auto simp: remote_Load_def Let_def zero_remote_state_def zero_pairing_state_def
          split: option.splits prod.splits sum.splits)
  qed
qed

theorem Load_state_consistent_witness:
  "rs_HasTarget (fst (fst (remote_Load
     \<lparr>rm_devices = None, rm_pairing = None, rm_sender = None, rm_launcher = None\<rparr> None ()))) = False"
proof -
  let ?s = "\<lparr>rm_devices = None, rm_pairing = None, rm_sender = None, rm_launcher = None\<rparr> :: unit remote_service"
  obtain st err w' where "remote_Load ?s None () = ((st, err), w')" by (metis prod.collapse)
  with Load_state_consistent [of ?s None "()" st err w'] show ?thesis by simp
qed

text \<open>
  What \<open>Send\<close> does, case by case: with every service there, an
  unresolved target is the error; missing credentials are turned into \<open>ErrPairingRequired\<close>; in
  all these cases the sender is not called. Otherwise it is called exactly once, on a usable
  target with credentials that name both files, and its result is the result.
\<close>

theorem Send_spec:
  assumes "\<And>w t w'. ts_Load store w = (Inr t, w') \<Longrightarrow> \<not> target_IsZero t"
    and "ds_targetStore d = Some store"
    and "s = \<lparr>rm_devices = Some d, rm_pairing = Some p, rm_sender = Some sn, rm_launcher = la\<rparr>"
  shows "case Resolve d (si_Target inp) w of
      (Inl err, w1) \<Rightarrow> remote_Send s inp w = (Inl err, w1)
    | (Inr t, w1) \<Rightarrow> usable (ds_defaultPort d) t \<and>
        (case pairing_Credentials p w1 of
           (Inl err, w2) \<Rightarrow> remote_Send s inp w =
             (Inl (if errors_is err ErrCredentialsNotFound then ErrPairingRequired else err), w2)
         | (Inr c, w2) \<Rightarrow> \<not> creds_IsZero c \<and> remote_Send s inp w = sn_Send sn t c (si_Action inp) w2)"
proof -
  have us: "usable (ds_defaultPort d) t" if "Resolve d (si_Target inp) w = (Inr t, w1)" for t w1
    using that assms(1,2)
    by (auto simp: Resolve_def usable_normalize dest: resolve_discovered_usable
        split: if_splits prod.splits sum.splits)
  have cr: "\<not> creds_IsZero c" if "pairing_Credentials p w1 = (Inr c, w2)" for c w1 w2
    using that by (rule pairing_Credentials_nonzero)
  show ?thesis
    using us cr
    by (auto simp: assms(3) remote_Send_def resolveTargetAndCredentials_def split: prod.splits sum.splits)
qed

theorem Send_spec_witness:
  "fst (remote_Send
     \<lparr>rm_devices = Some \<lparr>ds_discoverer = None, ds_targetStore = Some \<lparr>ts_Load = (\<lambda>w. (Inl ErrNoSavedTarget, w)),
          ts_Save = (\<lambda>t w. (None, w)), ts_Clear = (\<lambda>w. (None, w))\<rparr>, ds_defaultPort = 6466\<rparr>,
      rm_pairing = Some \<lparr>pv_pairer = None, pv_store = None, pv_clientName = [], pv_serviceName = []\<rparr>,
      rm_sender = Some \<lparr>sn_Send = (\<lambda>t c a w. (Inl ErrUnknownAction, w)), sn_Warmup = None, sn_Launch = None\<rparr>,
      rm_launcher = None\<rparr>
     \<lparr>si_Target = Some \<lparr>t_Host = ''tv'', t_Port = 0, t_DeviceID = [], t_Label = []\<rparr>, si_Action = Home\<rparr> ())
   = Inl ErrPairingRequired"
proof -
  let ?store = "\<lparr>ts_Load = (\<lambda>w. (Inl ErrNoSavedTarget, w)),
          ts_Save = (\<lambda>t w. (None, w)), ts_Clear = (\<lambda>w. (None, w))\<rparr> :: unit target_store"
  let ?d = "\<lparr>ds_discoverer = None, ds_targetStore = Some ?store, ds_defaultPort = 6466\<rparr>"
  let ?p = "\<lparr>pv_pairer = None, pv_store = None, pv_clientName = [], pv_serviceName = []\<rparr> :: unit pairing_service"
  let ?t = "\<lparr>t_Host = ''tv'', t_Port = 0, t_DeviceID = [], t_Label = []\<rparr>"
  have r: "Resolve ?d (Some ?t) () = (Inr (normalizeTarget ?t 6466), ())"
    by (simp add: Resolve_def target_IsZero_def)
  have c: "pairing_Credentials ?p () = (Inl ErrCredentialsNotFound, ())"
    by (simp add: pairing_Credentials_def)
  show ?thesis
    using Send_spec [of ?store ?d _ ?p _ None "\<lparr>si_Target = Some ?t, si_Action = Home\<rparr>" "()", OF _ _ refl]
    by (simp add: r c)
qed

end
