(* ===== verification/Go_Wire.thy ===== *)
theory Go_Wire
  imports Go_Strings
begin

text \<open>
  Byte streams: \<open>encoding/binary.ReadUvarint\<close> and \<open>io.ReadFull\<close>, the two readers the
  program frames its messages with, the locale of a varint writer they read back, and the
  length-prefixed frame built on it.

  A stream is the list of the bytes that will arrive before the connection ends; a read
  returns its result with the rest of the stream.
\<close>

unbundle bit_operations_syntax

section \<open>\<open>binary.ReadUvarint\<close>\<close>

definition err_EOF :: goerr where "err_EOF = Sentinel ''EOF''"
definition err_ErrUnexpectedEOF :: goerr where "err_ErrUnexpectedEOF = Sentinel ''unexpected EOF''"
definition err_ErrClosed :: goerr where "err_ErrClosed = Sentinel ''use of closed network connection''"
definition err_overflow :: goerr where
  "err_overflow = Sentinel ''binary: varint overflows a 64-bit integer''"

text \<open>
  The loop of \<open>ReadUvarint\<close>: \<open>i\<close> counts the bytes read (at most ten), \<open>x\<close> is the value so
  far and \<open>s\<close> the shift of the next group.
\<close>

fun uvarint_loop :: "nat \<Rightarrow> 64 word \<Rightarrow> nat \<Rightarrow> byte list \<Rightarrow> 64 word res \<times> byte list" where
  "uvarint_loop i x s [] =
     (if i < 10 then (Inl (if 0 < i then err_ErrUnexpectedEOF else err_EOF), [])
      else (Inl err_overflow, []))"
| "uvarint_loop i x s (b # bs) =
     (if i < 10 then
        (if b < 0x80 then
           (if i = 9 \<and> 1 < b then (Inl err_overflow, bs)
            else (Inr (x OR push_bit s (ucast b)), bs))
         else uvarint_loop (Suc i) (x OR push_bit s (ucast (b AND 0x7f))) (s + 7) bs)
      else (Inl err_overflow, b # bs))"

definition ReadUvarint :: "byte list \<Rightarrow> 64 word res \<times> byte list" where
  "ReadUvarint bs = uvarint_loop 0 0 0 bs"

text \<open>\<open>io.ReadFull\<close> into a buffer of \<open>n\<close> bytes.\<close>

definition ReadFull :: "nat \<Rightarrow> byte list \<Rightarrow> byte list res \<times> byte list" where
  "ReadFull n bs =
     (if n \<le> length bs then (Inr (take n bs), drop n bs)
      else if bs = [] then (Inl err_EOF, [])
      else (Inl err_ErrUnexpectedEOF, []))"

lemma ReadFull_append [simp]: "length xs = n \<Longrightarrow> ReadFull n (xs @ ys) = (Inr xs, ys)"
  by (simp add: ReadFull_def)

lemma ReadFull_Inr: "ReadFull n bs = (Inr xs, ys) \<Longrightarrow> bs = xs @ ys \<and> length xs = n"
  by (auto simp: ReadFull_def split: if_splits)

lemma uvarint_loop_consumes:
  "uvarint_loop i x s bs = (r, rest) \<Longrightarrow>
    \<exists>used. bs = used @ rest \<and> length used \<le> 10 - i \<and> (isl r \<or> used \<noteq> [])"
proof (induction i x s bs arbitrary: r rest rule: uvarint_loop.induct)
  case (1 i x s)
  then show ?case by (auto split: if_splits)
next
  case (2 i x s b bs)
  show ?case
  proof (cases "i < 10 \<and> \<not> b < 0x80")
    case True
    with "2.IH" [of r rest] "2.prems" obtain used where
      "bs = used @ rest" "length used \<le> 10 - Suc i" "isl r \<or> used \<noteq> []" by auto
    with True show ?thesis by (intro exI [of _ "b # used"]) auto
  next
    case False
    show ?thesis
    proof (cases "i < 10")
      case True
      with False "2.prems" have "rest = bs" by (auto split: if_splits)
      with True show ?thesis by (intro exI [of _ "[b]"]) auto
    next
      case F: False
      with "2.prems" show ?thesis by auto
    qed
  qed
qed

lemma ReadUvarint_consumes:
  "ReadUvarint bs = (Inr n, rest) \<Longrightarrow> \<exists>used. bs = used @ rest \<and> used \<noteq> [] \<and> length used \<le> 10"
  using uvarint_loop_consumes [of 0 0 0 bs "Inr n" rest] by (auto simp: ReadUvarint_def)

section \<open>Varint writers\<close>

text \<open>
  What a length-prefixed stream needs of the function that writes the length: reading it
  back yields the number and the bytes after it. \<open>protowire.AppendVarint\<close>, which the
  program calls, is documented to write the base-128 varint of its argument; the program's
  own \<open>encodeVarint\<close> does the same and is proved to satisfy this contract.
\<close>

locale uvarint_writer =
  fixes put :: "nat \<Rightarrow> byte list"
  assumes read_put: "n < 2 ^ 63 \<Longrightarrow> ReadUvarint (put n @ rest) = (Inr (word_of_nat n), rest)"
begin

lemma put_not_Nil: "n < 2 ^ 63 \<Longrightarrow> put n \<noteq> []"
proof
  assume n: "n < 2 ^ 63" and e: "put n = []"
  from read_put [OF n, of "[]"] e show False
    by (simp add: ReadUvarint_def)
qed

lemma put_length: "n < 2 ^ 63 \<Longrightarrow> length (put n) \<le> 10"
  using ReadUvarint_consumes [OF read_put [of n "[]"]] by auto

text \<open>The encoding determines the number, also when more bytes follow.\<close>

lemma put_inj:
  assumes "m < 2 ^ 63" "n < 2 ^ 63" "put m @ xs = put n @ ys"
  shows "m = n \<and> xs = ys"
proof -
  have "(Inr (word_of_nat m) :: 64 word res, xs) = (Inr (word_of_nat n), ys)"
    using read_put [OF assms(1), of xs] read_put [OF assms(2), of ys] assms(3) by simp
  then have "word_of_nat m = (word_of_nat n :: 64 word)" and "xs = ys" by auto
  then have "unat (word_of_nat m :: 64 word) = unat (word_of_nat n :: 64 word)" by simp
  with assms(1,2) \<open>xs = ys\<close> show ?thesis by (simp add: unat_of_nat)
qed

end

end
