(* ===== verification/Go_Conn.thy ===== *)
theory Go_Conn
  imports Go_Wire
begin

text \<open>
  Connections and protobuf messages on them. A connection is the bytes that will still arrive
  on it and the error a read gets after them (\<open>io.EOF\<close>, or what broke the connection), the
  bytes written to it, and how many more it takes before a write fails (\<^const>\<open>None\<close>: any
  number). Once it is closed, both directions fail with \<open>net.ErrClosed\<close>.

  The protobuf library is a parameter: encoding and decoding of a message type, and
  \<open>protowire.AppendVarint\<close> on an empty buffer. What is documented of them is \<open>codec_ok\<close>.
\<close>

record conn =
  cn_in :: "byte list"
  cn_end :: goerr
  cn_closed :: bool
  cn_out :: "byte list"
  cn_room :: "nat option"

definition err_broken_pipe :: goerr where "err_broken_pipe = Sentinel ''broken pipe''"

definition conn_Write :: "byte list \<Rightarrow> conn \<Rightarrow> goerr option \<times> conn" where
  "conn_Write bs c =
     (if cn_closed c then (Some err_ErrClosed, c)
      else
        (case cn_room c of
           None \<Rightarrow> (None, c\<lparr>cn_out := cn_out c @ bs\<rparr>)
         | Some n \<Rightarrow>
             if length bs \<le> n
             then (None, c\<lparr>cn_out := cn_out c @ bs, cn_room := Some (n - length bs)\<rparr>)
             else (Some err_broken_pipe, c\<lparr>cn_out := cn_out c @ take n bs, cn_room := Some 0\<rparr>)))"

definition conn_Close :: "conn \<Rightarrow> conn" where
  "conn_Close c = c\<lparr>cn_closed := True\<rparr>"

text \<open>
  The readers of \<^theory_text>\<open>Go_Wire\<close> end with \<open>io.EOF\<close> or \<open>io.ErrUnexpectedEOF\<close>, which is what
  they make of \<open>io.EOF\<close>; any other error of the connection they pass on.
\<close>

definition at_end :: "goerr \<Rightarrow> 'a res \<Rightarrow> 'a res" where
  "at_end e r =
     (case r of
        Inl x \<Rightarrow> if e \<noteq> err_EOF \<and> (x = err_EOF \<or> x = err_ErrUnexpectedEOF) then Inl e else Inl x
      | Inr v \<Rightarrow> Inr v)"

definition conn_ReadUvarint :: "conn \<Rightarrow> 64 word res \<times> conn" where
  "conn_ReadUvarint c =
     (if cn_closed c then (Inl err_ErrClosed, c)
      else (case ReadUvarint (cn_in c) of (r, rest) \<Rightarrow> (at_end (cn_end c) r, c\<lparr>cn_in := rest\<rparr>)))"

definition conn_ReadFull :: "nat \<Rightarrow> conn \<Rightarrow> byte list res \<times> conn" where
  "conn_ReadFull n c =
     (if cn_closed c then (Inl err_ErrClosed, c)
      else (case ReadFull n (cn_in c) of (r, rest) \<Rightarrow> (at_end (cn_end c) r, c\<lparr>cn_in := rest\<rparr>)))"

record 'm pb =
  pb_Marshal :: "'m \<Rightarrow> byte list res"
  pb_Unmarshal :: "byte list \<Rightarrow> 'm res"
  pb_AppendVarint :: "nat \<Rightarrow> byte list"

text \<open>
  What the protobuf library documents: decoding an encoded message gives it back, no bytes
  are the message with no field set, and \<open>AppendVarint\<close> writes base-128 varints.
\<close>

definition codec_ok :: "'m pb \<Rightarrow> 'm \<Rightarrow> bool" where
  "codec_ok pb zero \<longleftrightarrow>
     (\<forall>m raw. pb_Marshal pb m = Inr raw \<longrightarrow> pb_Unmarshal pb raw = Inr m) \<and>
     pb_Unmarshal pb [] = Inr zero \<and>
     (\<forall>n rest. n < 2 ^ 63 \<longrightarrow> ReadUvarint (pb_AppendVarint pb n @ rest) = (Inr (word_of_nat n), rest))"

lemma codec_okD:
  assumes "codec_ok pb zero"
  shows "pb_Marshal pb m = Inr raw \<Longrightarrow> pb_Unmarshal pb raw = Inr m" "pb_Unmarshal pb [] = Inr zero"
    "n < 2 ^ 63 \<Longrightarrow> ReadUvarint (pb_AppendVarint pb n @ rest) = (Inr (word_of_nat n), rest)"
  using assms by (auto simp: codec_ok_def)

text \<open>A message on the wire: its length, then its bytes.\<close>

definition frame :: "'m pb \<Rightarrow> byte list \<Rightarrow> byte list" where
  "frame pb raw = pb_AppendVarint pb (length raw) @ raw"

text \<open>The two writes of a frame, as both clients make them.\<close>

lemma conn_Write_frame:
  assumes "conn_Write a c = (None, c1)" "conn_Write b c1 = (None, c2)"
  shows "c2 = c\<lparr>cn_out := cn_out c @ a @ b, cn_room := cn_room c2\<rparr>"
  using assms by (auto simp: conn_Write_def split: if_splits option.splits)

lemma conn_Write_out:
  assumes "conn_Write a c = (r, c')"
  shows "cn_in c' = cn_in c" "cn_end c' = cn_end c" "cn_closed c' = cn_closed c"
    "\<exists>w. cn_out c' = cn_out c @ w \<and> (\<exists>z. a = w @ z) \<and> (r = None \<longrightarrow> w = a)"
  using assms
  by (auto simp: conn_Write_def split: if_splits option.splits)
    (metis append_Nil2 append_take_drop_id)+

lemma conn_Write_unlimited:
  "\<not> cn_closed c \<Longrightarrow> cn_room c = None \<Longrightarrow> conn_Write a c = (None, c\<lparr>cn_out := cn_out c @ a\<rparr>)"
  by (simp add: conn_Write_def)

lemma conn_ReadUvarint_frame:
  assumes "codec_ok pb zero" "cn_in c = frame pb raw @ rest" "length raw < 2 ^ 63" "\<not> cn_closed c"
  shows "conn_ReadUvarint c = (Inr (word_of_nat (length raw)), c\<lparr>cn_in := raw @ rest\<rparr>)"
  using codec_okD(3) [OF assms(1,3), of "raw @ rest"] assms(2,4)
  by (simp add: conn_ReadUvarint_def frame_def at_end_def)

lemma conn_ReadFull_append:
  "cn_in c = raw @ rest \<Longrightarrow> \<not> cn_closed c \<Longrightarrow>
    conn_ReadFull (length raw) c = (Inr raw, c\<lparr>cn_in := rest\<rparr>)"
  by (simp add: conn_ReadFull_def at_end_def)

lemma conn_ReadUvarint_less:
  assumes "conn_ReadUvarint c = (Inr n, c')"
  shows "length (cn_in c') < length (cn_in c)" "c' = c\<lparr>cn_in := cn_in c'\<rparr>"
proof -
  obtain r rest where r: "ReadUvarint (cn_in c) = (r, rest)" by fastforce
  with assms have "r = Inr n" "cn_in c' = rest" "c' = c\<lparr>cn_in := rest\<rparr>"
    by (auto simp: conn_ReadUvarint_def at_end_def split: if_splits sum.splits)
  with r ReadUvarint_consumes [of "cn_in c" n rest]
  show "length (cn_in c') < length (cn_in c)" "c' = c\<lparr>cn_in := cn_in c'\<rparr>" by auto
qed

lemma conn_read_frame:
  "conn_ReadUvarint c = (r, c') \<Longrightarrow> c' = c\<lparr>cn_in := cn_in c'\<rparr>"
  "conn_ReadFull n c = (r', c') \<Longrightarrow> c' = c\<lparr>cn_in := cn_in c'\<rparr>"
  by (auto simp: conn_ReadUvarint_def conn_ReadFull_def split: if_splits prod.splits)

lemma conn_ReadFull_le:
  assumes "conn_ReadFull n c = (r, c')"
  shows "length (cn_in c') \<le> length (cn_in c)"
  using assms by (auto simp: conn_ReadFull_def ReadFull_def split: if_splits)

end
