(* ===== verification/Cli.thy ===== *)
theory Cli
  imports Remote_Core Go_Conn
begin

text \<open>
  Package \<open>adapters/in/cli\<close>: the four commands. The flags are parsed by the library \<open>cobra\<close>,
  which calls the \<open>RunE\<close> function of a command with their values; each of these is modelled
  whole, with what it prints as a list of formats with arguments. Timeouts only bound how long
  the controller may take.
\<close>

type_synonym printed = "(string \<times> farg list) list"

section \<open>Helpers\<close>

definition explicitTarget :: "string \<Rightarrow> int \<Rightarrow> target option" where
  "explicitTarget host port =
     (let host = TrimSpace host in
      if host = [] then None
      else Some \<lparr>t_Host = host, t_Port = port, t_DeviceID = [], t_Label = host\<rparr>)"

text \<open>\<open>ReadString('\\n')\<close> on the standard input is an argument; its text may come with an error.\<close>

type_synonym 'w line_reader = "'w \<Rightarrow> (string \<times> goerr option) \<times> 'w"

definition readCode :: "unicode \<Rightarrow> 'w line_reader \<Rightarrow> string \<Rightarrow> 'w \<Rightarrow> code res \<times> 'w" where
  "readCode u ReadString raw w =
     (if TrimSpace raw \<noteq> [] then (ParseCode u raw, w)
      else
        (case ReadString w of
           ((txt, err), w) \<Rightarrow>
             (case err of
                None \<Rightarrow> (ParseCode u txt, w)
              | Some e \<Rightarrow> if \<not> errors_is e err_EOF then (Inl e, w) else (ParseCode u txt, w))))"

section \<open>Commands\<close>

definition join_line :: "string \<Rightarrow> string list \<Rightarrow> printed" where
  "join_line fmt xs = (if 0 < length xs then [(fmt, [FS (JoinStr '', '' xs)])] else [])"

definition device_lines :: "device \<Rightarrow> printed" where
  "device_lines dev =
     (''instance=%q host=%s port=%d'', [FS (dev_Instance dev), FS (dev_HostName dev), FI (dev_Port dev)]) #
     join_line ''  ipv4: %s'' (dev_IPv4 dev) @ join_line ''  ipv6: %s'' (dev_IPv6 dev) @
     join_line ''  txt:  %s'' (dev_Text dev)"

definition cmd_discover ::
  "(device list \<Rightarrow> string res) \<Rightarrow> 'w controller \<Rightarrow> bool \<Rightarrow> 'w \<Rightarrow> (printed \<times> goerr option) \<times> 'w" where
  "cmd_discover Encode ctrl asJSON w =
     (case ctl_Discover ctrl w of
        (Inl err, w) \<Rightarrow> (([], Some err), w)
      | (Inr devices, w) \<Rightarrow>
          if asJSON then
            (case Encode devices of
               Inl err \<Rightarrow> (([], Some err), w)
             | Inr json \<Rightarrow> (([(json, [])], None), w))
          else if length devices = 0 then (([(''No devices found.'', [])], None), w)
          else ((concat (map device_lines devices), None), w))"

definition pairing_start :: printed where
  "pairing_start = [(''Starting pairing. Check the TV for the pairing code prompt.'', [])]"

definition cmd_pair ::
  "unicode \<Rightarrow> 'w line_reader \<Rightarrow> 'w controller \<Rightarrow> string \<Rightarrow> int \<Rightarrow> string \<Rightarrow> 'w \<Rightarrow>
    (printed \<times> goerr option) \<times> 'w" where
  "cmd_pair u ReadString ctrl host port c w =
     (let req = \<lparr>pr_Target = explicitTarget host port, pr_Code = [], pr_CodeProvider = None\<rparr>;
          run = (\<lambda>req w. case ctl_Pair u ctrl req w of
                   ((_, Some err), w) \<Rightarrow> ((pairing_start, Some err), w)
                 | ((state, None), w) \<Rightarrow>
                     ((pairing_start @ [(''Pairing complete. Credentials: cert=%s key=%s source=%s'',
                         [FS (cr_CertPath (ps_Credentials state)), FS (cr_KeyPath (ps_Credentials state)),
                          FS (cr_Source (ps_Credentials state))])], None), w))
      in if TrimSpace c \<noteq> [] then
           (case readCode u ReadString c w of
              (Inl err, w) \<Rightarrow> ((pairing_start, Some err), w)
            | (Inr parsed, w) \<Rightarrow> run (req\<lparr>pr_Code := parsed\<rparr>) w)
         else run (req\<lparr>pr_CodeProvider := Some (readCode u ReadString [])\<rparr>) w)"

definition sent_lines :: "send_result \<Rightarrow> printed" where
  "sent_lines result =
     [(''Sent %q successfully'', [FS (sr_Action result)]),
      (''Features: supported=0x%X active=0x%X'',
        [FI (sint (sr_SupportedFeatures result)), FI (sint (sr_ActiveFeatures result))])] @
     (case sr_Powered result of
        None \<Rightarrow> []
      | Some b \<Rightarrow> [(''Power state: %t'', [FS (if b then ''true'' else ''false'')])])"

definition send_command :: "'w controller \<Rightarrow> string \<Rightarrow> int \<Rightarrow> action \<Rightarrow> 'w \<Rightarrow> (printed \<times> goerr option) \<times> 'w" where
  "send_command ctrl host port act w =
     (case ctl_Send ctrl \<lparr>sq_Target = explicitTarget host port, sq_Action = act\<rparr> w of
        (Inl err, w) \<Rightarrow> (([], Some err), w)
      | (Inr result, w) \<Rightarrow> ((sent_lines result, None), w))"

definition cmd_key :: "unicode \<Rightarrow> 'w controller \<Rightarrow> string \<Rightarrow> int \<Rightarrow> string \<Rightarrow> 'w \<Rightarrow> (printed \<times> goerr option) \<times> 'w" where
  "cmd_key u ctrl host port arg w =
     (case Parse u arg of
        Inl err \<Rightarrow> (([], Some err), w)
      | Inr act \<Rightarrow> send_command ctrl host port act w)"

definition cmd_power :: "'w controller \<Rightarrow> string \<Rightarrow> int \<Rightarrow> 'w \<Rightarrow> (printed \<times> goerr option) \<times> 'w" where
  "cmd_power ctrl host port w = send_command ctrl host port Power w"

section \<open>Lemmas\<close>

lemma readCode_valid: "readCode u ReadString raw w = (Inr c, w') \<Longrightarrow> valid_code c"
  by (auto simp: readCode_def valid_code_def dest!: ParseCode_Inr split: prod.splits option.splits if_splits)

end
