(* ===== verification/Go_Files.thy ===== *)
theory Go_Files
  imports Go_Strings
begin

text \<open>
  The file system as the program sees it through package \<open>os\<close>, and the lexical path functions
  of \<open>path/filepath\<close> (Unix) that it builds its file names with.
\<close>

section \<open>Paths\<close>

text \<open>
  \<open>filepath.Clean\<close>: the elements between the slashes, without the empty ones and the dots;
  \<open>".."\<close> removes the element before it, and at a root is dropped. The elements are kept in
  reverse order while the path is read.
\<close>

definition clean_step :: "bool \<Rightarrow> string list \<Rightarrow> string \<Rightarrow> string list" where
  "clean_step rooted acc e =
     (if e = [] \<or> e = ''.'' then acc
      else if e = ''..'' then
        (case acc of
           [] \<Rightarrow> if rooted then [] else [''..'']
         | d # ds \<Rightarrow> if d = ''..'' then ''..'' # acc else ds)
      else e # acc)"

definition rooted :: "string \<Rightarrow> bool" where
  "rooted p = (p \<noteq> [] \<and> hd p = CHR ''/'')"

definition elements :: "string \<Rightarrow> string list" where
  "elements p = rev (foldl (clean_step (rooted p)) [] (split_char (CHR ''/'') p))"

definition Clean :: "string \<Rightarrow> string" where
  "Clean p =
     (let body = JoinStr ''/'' (elements p) in
      if rooted p then CHR ''/'' # body else if body = [] then ''.'' else body)"

text \<open>\<open>filepath.Join\<close>: the non-empty elements, joined and cleaned.\<close>

definition path_Join :: "string list \<Rightarrow> string" where
  "path_Join elems =
     (case filter (\<lambda>e. e \<noteq> []) elems of [] \<Rightarrow> [] | es \<Rightarrow> Clean (JoinStr ''/'' es))"

text \<open>\<open>filepath.Dir\<close>: everything up to the last slash, cleaned.\<close>

definition path_Dir :: "string \<Rightarrow> string" where
  "path_Dir p = Clean (rev (dropWhile (\<lambda>c. c \<noteq> CHR ''/'') (rev p)))"

definition path_Base :: "string \<Rightarrow> string" where
  "path_Base p = rev (takeWhile (\<lambda>c. c \<noteq> CHR ''/'') (rev p))"

text \<open>A file or directory name: one element of a path.\<close>

definition simple_name :: "string \<Rightarrow> bool" where
  "simple_name e \<longleftrightarrow> e \<noteq> [] \<and> e \<noteq> ''.'' \<and> e \<noteq> ''..'' \<and> CHR ''/'' \<notin> set e"

lemma split_char_append:
  "split_char c (a @ c # b) = split_char c a @ split_char c b"
  by (induction a) (auto split: list.splits)

lemma split_char_simple: "c \<notin> set e \<Longrightarrow> split_char c e = [e]"
  by (induction e) auto

lemma JoinStr_snoc: "es \<noteq> [] \<Longrightarrow> JoinStr sep (es @ [e]) = JoinStr sep es @ sep @ e"
  by (induction es rule: induct_list012) auto

lemma split_char_JoinStr:
  assumes "es \<noteq> []" "\<forall>e \<in> set es. c \<notin> set e"
  shows "split_char c (JoinStr [c] es) = es"
  using assms
proof (induction es rule: rev_induct)
  case (snoc e es)
  then show ?case
    by (cases "es = []") (auto simp: JoinStr_snoc split_char_append split_char_simple)
qed simp

text \<open>The elements of a cleaned path, last first: names, above any \<open>".."\<close> of a relative path.\<close>

fun clean_list :: "bool \<Rightarrow> string list \<Rightarrow> bool" where
  "clean_list r [] = True"
| "clean_list r (d # ds) =
     (d \<noteq> [] \<and> d \<noteq> ''.'' \<and> CHR ''/'' \<notin> set d \<and>
      (d = ''..'' \<longrightarrow> \<not> r \<and> list_all (\<lambda>e. e = ''..'') ds) \<and> clean_list r ds)"

lemma clean_list_step:
  "clean_list r acc \<Longrightarrow> CHR ''/'' \<notin> set e \<Longrightarrow> clean_list r (clean_step r acc e)"
  by (cases acc) (auto simp: clean_step_def)

lemma clean_list_fold:
  "clean_list r acc \<Longrightarrow> (\<And>e. e \<in> set es \<Longrightarrow> CHR ''/'' \<notin> set e) \<Longrightarrow>
    clean_list r (foldl (clean_step r) acc es)"
  by (induction es arbitrary: acc) (auto simp: clean_list_step)

lemma clean_list_elements: "clean_list (rooted p) (rev (elements p))"
  by (simp add: elements_def clean_list_fold split_char_no_sep)

lemma clean_list_foldl: "clean_list r ds \<Longrightarrow> foldl (clean_step r) [] (rev ds) = ds"
proof (induction ds)
  case (Cons d ds)
  then show ?case by (cases ds) (auto simp: clean_step_def)
qed simp

lemma clean_list_no_slash: "clean_list r ds \<Longrightarrow> \<forall>e \<in> set ds. CHR ''/'' \<notin> set e \<and> e \<noteq> []"
  by (induction ds) auto

lemma JoinStr_clean_rooted:
  assumes "clean_list r (rev es)"
  shows "rooted (JoinStr ''/'' es) = False" "JoinStr ''/'' es = [] \<longleftrightarrow> es = []"
proof -
  have "\<not> rooted (JoinStr ''/'' es) \<and> (JoinStr ''/'' es = [] \<longleftrightarrow> es = [])"
  proof (cases es)
    case (Cons e es')
    then have "CHR ''/'' \<notin> set e \<and> e \<noteq> []" using clean_list_no_slash [OF assms] by simp
    with Cons show ?thesis by (cases e; cases es') (auto simp: rooted_def)
  qed (simp add: rooted_def)
  then show "rooted (JoinStr ''/'' es) = False" "JoinStr ''/'' es = [] \<longleftrightarrow> es = []" by auto
qed

definition render :: "bool \<Rightarrow> string list \<Rightarrow> string" where
  "render r es = (if r then ''/'' else []) @ JoinStr ''/'' es"

lemma elements_render:
  assumes "clean_list r (rev es)"
  shows "elements (render r es) = es" "rooted (render r es) = r"
proof -
  have f: "foldl (clean_step r) [] es = rev es" using clean_list_foldl [OF assms] by simp
  have sp: "split_char (CHR ''/'') (JoinStr ''/'' es) = (if es = [] then [[]] else es)"
    using clean_list_no_slash [OF assms] split_char_JoinStr [of es "CHR ''/''"] by auto
  have nr: "\<not> rooted (JoinStr ''/'' es)" using JoinStr_clean_rooted [OF assms] by auto
  show r: "rooted (render r es) = r" using nr by (auto simp: render_def rooted_def)
  show "elements (render r es) = es"
    using f sp unfolding elements_def r
    by (cases r) (auto simp: render_def clean_step_def)
qed

lemma Clean_render: "Clean p = (if rooted p \<or> elements p \<noteq> [] then render (rooted p) (elements p) else ''.'')"
  using JoinStr_clean_rooted(2) [OF clean_list_elements, of p]
  by (auto simp: Clean_def render_def Let_def)

lemma elements_Clean: "elements (Clean p) = elements p \<and> rooted (Clean p) = rooted p"
proof (cases "rooted p \<or> elements p \<noteq> []")
  case True
  then have "Clean p = render (rooted p) (elements p)" by (simp add: Clean_render)
  then show ?thesis by (simp add: elements_render [OF clean_list_elements])
next
  case False
  then have "Clean p = ''.''" by (simp add: Clean_render)
  with False show ?thesis by (simp add: elements_def [of "''.''"] clean_step_def rooted_def)
qed

lemma elements_Join:
  assumes "simple_name e"
  shows "elements (path_Join [base, e]) = elements base @ [e]"
    and "path_Join [base, e] \<noteq> []"
proof -
  have e: "split_char (CHR ''/'') e = [e]" "e \<noteq> []" "e \<noteq> ''.''" "e \<noteq> ''..''" "\<not> rooted e"
    using assms by (auto simp: simple_name_def split_char_simple rooted_def neq_Nil_conv)
  have ne: "Clean p \<noteq> []" for p by (auto simp: Clean_def Let_def)
  show "path_Join [base, e] \<noteq> []" using e ne by (auto simp: path_Join_def)
  show "elements (path_Join [base, e]) = elements base @ [e]"
  proof (cases "base = []")
    case True
    with e show ?thesis
      by (simp add: path_Join_def elements_Clean) (simp add: elements_def clean_step_def)
  next
    case False
    then have "rooted (base @ ''/'' @ e) = rooted base" by (cases base) (auto simp: rooted_def)
    with False e show ?thesis
      by (simp add: path_Join_def elements_Clean)
        (simp add: elements_def split_char_append clean_step_def)
  qed
qed

lemma rooted_append: "a \<noteq> [] \<Longrightarrow> rooted (a @ b) = rooted a"
  by (simp add: rooted_def)

lemma elements_slash: "elements (a @ ''/'') = elements a"
  by (cases "a = []") (simp_all add: elements_def rooted_append split_char_append clean_step_def)

lemma path_Join_snoc:
  assumes "simple_name e"
  shows "\<exists>pre. path_Join [base, e] = pre @ e \<and> elements pre = elements base \<and> (pre = [] \<or> last pre = CHR ''/'')"
proof -
  let ?p = "path_Join [base, e]"
  have es: "elements ?p = elements base @ [e]" using assms by (rule elements_Join)
  obtain q where q: "?p = Clean q"
    using assms by (cases "base = []") (auto simp: path_Join_def simple_name_def)
  then have el: "elements q = elements base @ [e]" using es elements_Clean by metis
  then have p: "?p = render (rooted q) (elements base @ [e])" by (simp add: q Clean_render)
  have cl: "clean_list (rooted q) (rev (elements base))"
    using clean_list_elements [of q] el by simp
  show ?thesis
  proof (cases "elements base = []")
    case True
    then show ?thesis using p
      by (intro exI [of _ "if rooted q then ''/'' else []"])
        (auto simp: render_def elements_def rooted_def clean_step_def)
  next
    case False
    with p have "?p = (render (rooted q) (elements base) @ ''/'') @ e"
      by (simp add: render_def JoinStr_snoc)
    moreover have "elements (render (rooted q) (elements base) @ ''/'') = elements base"
      by (simp only: elements_slash elements_render(1) [OF cl])
    ultimately show ?thesis by fastforce
  qed
qed

text \<open>The directory of a file has one element less.\<close>

lemma elements_Dir_Join:
  assumes "simple_name e"
  shows "elements (path_Dir (path_Join [base, e])) = elements base"
proof -
  obtain pre where p: "path_Join [base, e] = pre @ e" "elements pre = elements base"
    "pre = [] \<or> last pre = CHR ''/''" using path_Join_snoc [OF assms] by blast
  have "dropWhile (\<lambda>c. c \<noteq> CHR ''/'') (rev e @ rev pre) = rev pre"
  proof -
    have "\<forall>c \<in> set (rev e). c \<noteq> CHR ''/''" using assms by (auto simp: simple_name_def)
    then have "dropWhile (\<lambda>c. c \<noteq> CHR ''/'') (rev e @ rev pre) = dropWhile (\<lambda>c. c \<noteq> CHR ''/'') (rev pre)"
      by (intro dropWhile_append2) auto
    also have "\<dots> = rev pre" using p(3) by (cases pre rule: rev_cases) auto
    finally show ?thesis .
  qed
  then show ?thesis using p elements_Clean by (simp add: path_Dir_def)
qed

text \<open>Files of different names, or in different directories, have different paths.\<close>

lemma path_Join_inj:
  assumes "simple_name e" "simple_name e'"
  shows "path_Join [base, e] = path_Join [base', e'] \<Longrightarrow> elements base = elements base' \<and> e = e'"
  using elements_Join(1) [OF assms(1), of base] elements_Join(1) [OF assms(2), of base'] by auto

section \<open>Files\<close>

text \<open>
  A file system maps paths (cleaned ones) to files with their contents and permission bits, and
  to directories with theirs. What the model cannot know, such as a missing permission, a full
  disk or a failing device, is what \<open>fs_fault\<close> answers for an operation on a path (the text of
  the error number, which is never "does not exist"); a write that
  fails after the file was opened leaves the first \<open>fs_short\<close> bytes. The record is extensible:
  the world the program runs in has more fields.
\<close>

datatype fs_op = OpStat | OpRead | OpCreate | OpWrite | OpMkdir | OpRemove | OpChmod

record fs =
  fs_configDir :: "string res"
  fs_files :: "string \<Rightarrow> (string \<times> nat) option"
  fs_dirs :: "string \<Rightarrow> nat option"
  fs_fault :: "fs_op \<Rightarrow> string \<Rightarrow> string option"
  fs_short :: "string \<Rightarrow> nat"

definition ErrNotExist :: goerr where "ErrNotExist = Sentinel ''file does not exist''"
definition EISDIR :: goerr where "EISDIR = Sentinel ''is a directory''"
definition ENOTDIR :: goerr where "ENOTDIR = Sentinel ''not a directory''"

definition path_err :: "string \<Rightarrow> string \<Rightarrow> goerr \<Rightarrow> goerr" where
  "path_err op p e = Errorf ''%s %s: %w'' [FS op, FS p] (Some e)"

definition os_Stat :: "'a fs_scheme \<Rightarrow> string \<Rightarrow> nat res" where
  "os_Stat w p =
     (case fs_fault w OpStat p of
        Some e \<Rightarrow> Inl (path_err ''stat'' p (new_err e))
      | None \<Rightarrow>
          (case fs_files w p of
             Some (_, mode) \<Rightarrow> Inr mode
           | None \<Rightarrow>
               (case fs_dirs w p of
                  Some mode \<Rightarrow> Inr mode
                | None \<Rightarrow> Inl (path_err ''stat'' p ErrNotExist))))"

definition os_ReadFile :: "'a fs_scheme \<Rightarrow> string \<Rightarrow> string res" where
  "os_ReadFile w p =
     (case fs_fault w OpRead p of
        Some e \<Rightarrow> Inl (path_err ''open'' p (new_err e))
      | None \<Rightarrow>
          (case fs_files w p of
             Some (data, _) \<Rightarrow> Inr data
           | None \<Rightarrow> Inl (path_err ''open'' p (if fs_dirs w p = None then ErrNotExist else EISDIR))))"

definition file_mode :: "'a fs_scheme \<Rightarrow> string \<Rightarrow> nat \<Rightarrow> nat" where
  "file_mode w p perm = (case fs_files w p of Some (_, mode) \<Rightarrow> mode | None \<Rightarrow> perm)"

definition os_WriteFile ::
  "string \<Rightarrow> string \<Rightarrow> nat \<Rightarrow> 'a fs_scheme \<Rightarrow> goerr option \<times> 'a fs_scheme" where
  "os_WriteFile p data perm w =
     (case fs_fault w OpCreate p of
        Some e \<Rightarrow> (Some (path_err ''open'' p (new_err e)), w)
      | None \<Rightarrow>
          if fs_dirs w p \<noteq> None then (Some (path_err ''open'' p EISDIR), w)
          else if fs_dirs w (path_Dir p) = None then (Some (path_err ''open'' p ErrNotExist), w)
          else
            (case fs_fault w OpWrite p of
               Some e \<Rightarrow>
                 (Some (path_err ''write'' p (new_err e)),
                  w\<lparr>fs_files := (fs_files w)(p \<mapsto> (take (fs_short w p) data, file_mode w p perm))\<rparr>)
             | None \<Rightarrow> (None, w\<lparr>fs_files := (fs_files w)(p \<mapsto> (data, file_mode w p perm))\<rparr>)))"

text \<open>The directory itself and those above it.\<close>

definition with_ancestors :: "string \<Rightarrow> string list" where
  "with_ancestors p =
     p # map (\<lambda>k. render (rooted p) (take k (elements p))) [0..<length (elements p)]"

lemma with_ancestors_length:
  assumes "q \<in> set (with_ancestors p)"
  shows "length (elements q) \<le> length (elements p)"
proof -
  have cl: "clean_list r (drop n ds)" if "clean_list r ds" for r n ds
    using that by (induction ds arbitrary: n) (auto simp: drop_Cons split: nat.split)
  have "clean_list (rooted p) (rev (take k (elements p)))" for k
    using cl [OF clean_list_elements] by (simp add: rev_take)
  then have "elements (render (rooted p) (take k (elements p))) = take k (elements p)" for k
    by (rule elements_render)
  with assms show ?thesis by (auto simp: with_ancestors_def)
qed

definition os_MkdirAll :: "string \<Rightarrow> nat \<Rightarrow> 'a fs_scheme \<Rightarrow> goerr option \<times> 'a fs_scheme" where
  "os_MkdirAll p perm w =
     (case fs_fault w OpMkdir p of
        Some e \<Rightarrow> (Some (path_err ''mkdir'' p (new_err e)), w)
      | None \<Rightarrow>
          if fs_dirs w p \<noteq> None then (None, w)
          else if list_ex (\<lambda>q. fs_files w q \<noteq> None) (with_ancestors p)
          then (Some (path_err ''mkdir'' p ENOTDIR), w)
          else (None, w\<lparr>fs_dirs := (\<lambda>q. if fs_dirs w q = None \<and> q \<in> set (with_ancestors p)
                                        then Some perm else fs_dirs w q)\<rparr>))"

definition os_Remove :: "string \<Rightarrow> 'a fs_scheme \<Rightarrow> goerr option \<times> 'a fs_scheme" where
  "os_Remove p w =
     (case fs_fault w OpRemove p of
        Some e \<Rightarrow> (Some (path_err ''remove'' p (new_err e)), w)
      | None \<Rightarrow>
          if fs_files w p \<noteq> None then (None, w\<lparr>fs_files := (fs_files w)(p := None)\<rparr>)
          else if fs_dirs w p \<noteq> None then (None, w\<lparr>fs_dirs := (fs_dirs w)(p := None)\<rparr>)
          else (Some (path_err ''remove'' p ErrNotExist), w))"

definition os_Chmod :: "string \<Rightarrow> nat \<Rightarrow> 'a fs_scheme \<Rightarrow> goerr option \<times> 'a fs_scheme" where
  "os_Chmod p mode w =
     (case fs_fault w OpChmod p of
        Some e \<Rightarrow> (Some (path_err ''chmod'' p (new_err e)), w)
      | None \<Rightarrow>
          (case fs_files w p of
             Some (data, _) \<Rightarrow> (None, w\<lparr>fs_files := (fs_files w)(p \<mapsto> (data, mode))\<rparr>)
           | None \<Rightarrow>
               (case fs_dirs w p of
                  Some _ \<Rightarrow> (None, w\<lparr>fs_dirs := (fs_dirs w)(p \<mapsto> mode)\<rparr>)
                | None \<Rightarrow> (Some (path_err ''chmod'' p ErrNotExist), w))))"

text \<open>
  The helper \<open>fileExists\<close>, which the storage adapter and package \<open>atvremote\<close> both define.
\<close>

definition fileExists :: "'a fs_scheme \<Rightarrow> string \<Rightarrow> bool res" where
  "fileExists w p =
     (case os_Stat w p of
        Inr _ \<Rightarrow> Inr True
      | Inl err \<Rightarrow> if errors_is err ErrNotExist then Inr False else Inl err)"

section \<open>What the operations leave alone\<close>

lemma ErrNotExist_not_Errorf [simp]: "Errorf f args e \<noteq> ErrNotExist" "errors_is ErrNotExist ErrNotExist"
  by (simp_all add: ErrNotExist_def)

lemma path_err_ErrNotExist [simp]:
  "errors_is (path_err op p e) ErrNotExist = errors_is e ErrNotExist"
  by (simp add: path_err_def ErrNotExist_def)

text \<open>What operations on the paths of a set keep: the environment, and every other file.\<close>

definition only_files :: "string set \<Rightarrow> 'a fs_scheme \<Rightarrow> 'a fs_scheme \<Rightarrow> bool" where
  "only_files S w w' \<longleftrightarrow>
     fs_configDir w' = fs_configDir w \<and> fs_fault w' = fs_fault w \<and> fs_short w' = fs_short w \<and>
     fs.more w' = fs.more w \<and> (\<forall>q. q \<notin> S \<longrightarrow> fs_files w' q = fs_files w q) \<and>
     (\<forall>q. fs_dirs w q \<noteq> None \<longrightarrow> q \<notin> S \<longrightarrow> fs_dirs w' q \<noteq> None)"

lemma only_files_refl [simp, intro]: "only_files S w w"
  by (simp add: only_files_def)

lemma only_files_trans [trans]: "only_files S w w' \<Longrightarrow> only_files S w' w'' \<Longrightarrow> only_files S w w''"
  by (simp add: only_files_def)

lemma only_filesD:
  assumes "only_files S w w'"
  shows "fs_configDir w' = fs_configDir w" "fs_fault w' = fs_fault w" "fs_short w' = fs_short w"
    "q \<notin> S \<Longrightarrow> fs_files w' q = fs_files w q" "fs_dirs w q \<noteq> None \<Longrightarrow> q \<notin> S \<Longrightarrow> fs_dirs w' q \<noteq> None"
  using assms by (auto simp: only_files_def)

lemma os_WriteFile_frame:
  assumes "os_WriteFile p data perm w = (r, w')"
  shows "p \<in> S \<Longrightarrow> only_files S w w'" "fs_dirs w' = fs_dirs w"
  using assms by (auto simp: os_WriteFile_def only_files_def split: option.splits if_splits)

lemma os_WriteFile_ok:
  assumes "os_WriteFile p data perm w = (None, w')"
  shows "fs_files w' p = Some (data, file_mode w p perm)" "fs_dirs w' p = None"
  using assms by (auto simp: os_WriteFile_def split: option.splits if_splits)

lemma os_WriteFile_fail:
  assumes "os_WriteFile p data perm w = (Some e, w')" "fs_fault w OpWrite p = None"
  shows "w' = w"
  using assms by (auto simp: os_WriteFile_def split: option.splits if_splits)

lemma os_MkdirAll_frame:
  assumes "os_MkdirAll p perm w = (r, w')"
  shows "only_files S w w'" "fs_files w' = fs_files w" "r = None \<Longrightarrow> fs_dirs w' p \<noteq> None"
  using assms
  by (auto simp: os_MkdirAll_def only_files_def with_ancestors_def split: option.splits if_splits)

text \<open>Making a directory makes no deeper path a directory.\<close>

lemma os_MkdirAll_deeper:
  assumes "os_MkdirAll p perm w = (r, w')" "length (elements p) < length (elements q)"
  shows "fs_dirs w' q = fs_dirs w q"
  using assms with_ancestors_length [of q p]
  by (auto simp: os_MkdirAll_def split: option.splits if_splits)

lemma os_Remove_frame: "os_Remove p w = (r, w') \<Longrightarrow> p \<in> S \<Longrightarrow> only_files S w w'"
  by (auto simp: os_Remove_def only_files_def split: option.splits if_splits)

lemma os_Chmod_frame: "os_Chmod p m w = (r, w') \<Longrightarrow> p \<in> S \<Longrightarrow> only_files S w w'"
  by (auto simp: os_Chmod_def only_files_def split: option.splits if_splits)

lemma os_ReadFile_cong:
  "fs_files w' p = fs_files w p \<Longrightarrow> fs_fault w' = fs_fault w \<Longrightarrow> fs_files w p \<noteq> None \<Longrightarrow>
    os_ReadFile w' p = os_ReadFile w p"
  by (auto simp: os_ReadFile_def split: option.splits)

lemma os_ReadFile_written:
  "fs_files w p = Some (data, mode) \<Longrightarrow> fs_fault w OpRead p = None \<Longrightarrow> os_ReadFile w p = Inr data"
  by (simp add: os_ReadFile_def)

text \<open>Where a look at the file succeeded once, it succeeds after the file was written.\<close>

lemma fileExists_file:
  "fs_fault w OpStat p = None \<Longrightarrow> fs_files w p = Some f \<Longrightarrow> fileExists w p = Inr True"
  by (cases f) (simp add: fileExists_def os_Stat_def)

lemma fileExists_Inr:
  assumes "fileExists w p = Inr b"
  shows "fs_fault w OpStat p = None" "b \<longleftrightarrow> fs_files w p \<noteq> None \<or> fs_dirs w p \<noteq> None"
  using assms by (auto simp: fileExists_def os_Stat_def split: option.splits if_splits)

lemma fileExists_cong:
  "fs_files w' p = fs_files w p \<Longrightarrow> fs_dirs w' p = fs_dirs w p \<Longrightarrow> fs_fault w' = fs_fault w \<Longrightarrow>
    fileExists w' p = fileExists w p"
  unfolding fileExists_def os_Stat_def by metis

end
