(* ===== verification/Xdg_Store.thy ===== *)
theory Xdg_Store
  imports Go_Files Remote_Core
begin

text \<open>
  Package \<open>adapters/out/xdg\<close>: the stores of the saved target and of the client credentials,
  files below the user's configuration directory, with the directories of two former names of
  the program that are migrated when they are found. \<open>encoding/json\<close> is a parameter: the
  encoding and the decoding of a target.
\<close>

record target_json =
  tj_MarshalIndent :: "target \<Rightarrow> string res"
  tj_Unmarshal :: "string \<Rightarrow> target res"

section \<open>Paths\<close>

definition appDirName :: string where "appDirName = ''shrmt''"
definition targetFile :: string where "targetFile = ''target.json''"
definition certFile :: string where "certFile = ''androidtv-client-cert.pem''"
definition keyFile :: string where "keyFile = ''androidtv-client-key.pem''"
definition legacyConfigDirNames :: "string list" where
  "legacyConfigDirNames = [''shremote'', ''shield-poc'']"

lemmas xdg_names = appDirName_def targetFile_def certFile_def keyFile_def legacyConfigDirNames_def

definition configPath :: "'a fs_scheme \<Rightarrow> string \<Rightarrow> string res" where
  "configPath w appName =
     (case fs_configDir w of
        Inl err \<Rightarrow> Inl (wrap_err ''resolve user config dir: %w'' err)
      | Inr configDir \<Rightarrow> Inr (path_Join [configDir, appName]))"

definition credentialsForApp :: "'a fs_scheme \<Rightarrow> string \<Rightarrow> credentials res" where
  "credentialsForApp w appName =
     (case configPath w appName of
        Inl err \<Rightarrow> Inl err
      | Inr base \<Rightarrow> Inr \<lparr>cr_CertPath = path_Join [base, certFile],
                       cr_KeyPath = path_Join [base, keyFile], cr_Source = appName\<rparr>)"

definition targetPath :: "'a fs_scheme \<Rightarrow> string res" where
  "targetPath w =
     (case configPath w appDirName of
        Inl err \<Rightarrow> Inl err
      | Inr base \<Rightarrow> Inr (path_Join [base, targetFile]))"

fun legacy_paths :: "'a fs_scheme \<Rightarrow> string list \<Rightarrow> string list \<Rightarrow> string list res" where
  "legacy_paths w [] paths = Inr paths"
| "legacy_paths w (legacyDirName # names) paths =
     (case configPath w legacyDirName of
        Inl err \<Rightarrow> Inl err
      | Inr base \<Rightarrow> legacy_paths w names (paths @ [path_Join [base, targetFile]]))"

definition targetPaths :: "'a fs_scheme \<Rightarrow> string list res" where
  "targetPaths w =
     (case targetPath w of
        Inl err \<Rightarrow> Inl err
      | Inr primary \<Rightarrow> legacy_paths w legacyConfigDirNames [primary])"

section \<open>Credentials\<close>

definition copyFile :: "string \<Rightarrow> string \<Rightarrow> 'a fs_scheme \<Rightarrow> goerr option \<times> 'a fs_scheme" where
  "copyFile src dst w =
     (case os_ReadFile w src of
        Inl err \<Rightarrow> (Some err, w)
      | Inr data \<Rightarrow>
          (case os_Stat w src of
             Inl err \<Rightarrow> (Some err, w)
           | Inr mode \<Rightarrow> os_WriteFile dst data mode w))"

definition migrateCredentials ::
  "credentials \<Rightarrow> credentials \<Rightarrow> 'a fs_scheme \<Rightarrow> goerr option \<times> 'a fs_scheme" where
  "migrateCredentials src dst w =
     (case os_MkdirAll (path_Dir (cr_CertPath dst)) 493 w of
        (Some err, w) \<Rightarrow> (Some (wrap_err ''create config dir: %w'' err), w)
      | (None, w) \<Rightarrow>
          (case copyFile (cr_CertPath src) (cr_CertPath dst) w of
             (Some err, w) \<Rightarrow> (Some (wrap_err ''copy cert: %w'' err), w)
           | (None, w) \<Rightarrow>
               (case copyFile (cr_KeyPath src) (cr_KeyPath dst) w of
                  (Some err, w) \<Rightarrow> (Some (wrap_err ''copy key: %w'' err), w)
                | (None, w) \<Rightarrow> (None, w))))"

definition creds_Exists :: "credentials \<Rightarrow> 'a fs_scheme \<Rightarrow> bool res" where
  "creds_Exists creds w =
     (case fileExists w (cr_CertPath creds) of
        Inl err \<Rightarrow> Inl err
      | Inr certOK \<Rightarrow>
          (case fileExists w (cr_KeyPath creds) of
             Inl err \<Rightarrow> Inl err
           | Inr keyOK \<Rightarrow>
               if certOK \<noteq> keyOK
               then Inl (Errorf ''credential files out of sync: cert=%s key=%s''
                      [FS (cr_CertPath creds), FS (cr_KeyPath creds)] None)
               else Inr (certOK \<and> keyOK)))"

fun load_legacy_creds ::
  "credentials \<Rightarrow> string list \<Rightarrow> 'a fs_scheme \<Rightarrow> credentials res \<times> 'a fs_scheme" where
  "load_legacy_creds primary [] w = (Inl ErrCredentialsNotFound, w)"
| "load_legacy_creds primary (legacyDirName # names) w =
     (case credentialsForApp w legacyDirName of
        Inl err \<Rightarrow> (Inl err, w)
      | Inr legacy \<Rightarrow>
          (case creds_Exists legacy w of
             Inl err \<Rightarrow> (Inl err, w)
           | Inr ok \<Rightarrow>
               if ok then
                 (case migrateCredentials legacy primary w of
                    (None, w) \<Rightarrow> (Inr primary, w)
                  | (Some _, w) \<Rightarrow> (Inr legacy, w))
               else load_legacy_creds primary names w))"

definition creds_Default :: "'a fs_scheme \<Rightarrow> credentials res" where
  "creds_Default w = credentialsForApp w appDirName"

definition creds_Load :: "'a fs_scheme \<Rightarrow> credentials res \<times> 'a fs_scheme" where
  "creds_Load w =
     (case creds_Default w of
        Inl err \<Rightarrow> (Inl err, w)
      | Inr primary \<Rightarrow>
          (case creds_Exists primary w of
             Inl err \<Rightarrow> (Inl err, w)
           | Inr ok \<Rightarrow>
               if ok then (Inr primary, w)
               else load_legacy_creds primary legacyConfigDirNames w))"

definition xdg_CredentialStore :: "'a fs_scheme credential_store" where
  "xdg_CredentialStore =
     \<lparr>cs_Default = (\<lambda>w. (creds_Default w, w)), cs_Load = creds_Load,
      cs_Exists = (\<lambda>creds w. (creds_Exists creds w, w))\<rparr>"

section \<open>Targets\<close>

definition loadTarget :: "target_json \<Rightarrow> 'a fs_scheme \<Rightarrow> string \<Rightarrow> target res" where
  "loadTarget js w path =
     (case os_ReadFile w path of
        Inl err \<Rightarrow> Inl (if errors_is err ErrNotExist then ErrNoSavedTarget
                      else wrap_err ''read target: %w'' err)
      | Inr raw \<Rightarrow>
          (case tj_Unmarshal js raw of
             Inl err \<Rightarrow> Inl (wrap_err ''decode target: %w'' err)
           | Inr t \<Rightarrow> if target_IsZero t then Inl ErrNoSavedTarget else Inr t))"

definition target_Save :: "target_json \<Rightarrow> target \<Rightarrow> 'a fs_scheme \<Rightarrow> goerr option \<times> 'a fs_scheme" where
  "target_Save js t w =
     (case targetPath w of
        Inl err \<Rightarrow> (Some err, w)
      | Inr path \<Rightarrow>
          (case os_MkdirAll (path_Dir path) 493 w of
             (Some err, w) \<Rightarrow> (Some (wrap_err ''create config dir: %w'' err), w)
           | (None, w) \<Rightarrow>
               (case tj_MarshalIndent js t of
                  Inl err \<Rightarrow> (Some (wrap_err ''encode target: %w'' err), w)
                | Inr raw \<Rightarrow>
                    (case os_WriteFile path raw 384 w of
                       (Some err, w) \<Rightarrow> (Some (wrap_err ''write target: %w'' err), w)
                     | (None, w) \<Rightarrow> (None, w)))))"

text \<open>The loop of \<open>Load\<close>; its flag says that the path is not the first, a legacy one.\<close>

fun load_paths ::
  "target_json \<Rightarrow> bool \<Rightarrow> string list \<Rightarrow> 'a fs_scheme \<Rightarrow> target res \<times> 'a fs_scheme" where
  "load_paths js legacy [] w = (Inl ErrNoSavedTarget, w)"
| "load_paths js legacy (path # paths) w =
     (case loadTarget js w path of
        Inl err \<Rightarrow>
          if errors_is err ErrNoSavedTarget then load_paths js True paths w else (Inl err, w)
      | Inr t \<Rightarrow> (Inr t, if legacy then snd (target_Save js t w) else w))"

definition target_Load :: "target_json \<Rightarrow> 'a fs_scheme \<Rightarrow> target res \<times> 'a fs_scheme" where
  "target_Load js w =
     (case targetPaths w of
        Inl err \<Rightarrow> (Inl err, w)
      | Inr paths \<Rightarrow> load_paths js False paths w)"

definition target_Clear :: "'a fs_scheme \<Rightarrow> goerr option \<times> 'a fs_scheme" where
  "target_Clear w =
     (case targetPath w of
        Inl err \<Rightarrow> (Some err, w)
      | Inr path \<Rightarrow>
          (case os_Remove path w of
             (Some err, w) \<Rightarrow>
               if \<not> errors_is err ErrNotExist then (Some (wrap_err ''clear target: %w'' err), w)
               else (None, w)
           | (None, w) \<Rightarrow> (None, w)))"

definition xdg_TargetStore :: "target_json \<Rightarrow> 'a fs_scheme target_store" where
  "xdg_TargetStore js =
     \<lparr>ts_Load = target_Load js, ts_Save = target_Save js, ts_Clear = target_Clear\<rparr>"

section \<open>Lemmas on paths\<close>

lemma xdg_simple [simp]:
  "simple_name appDirName" "simple_name targetFile" "simple_name certFile" "simple_name keyFile"
  "n \<in> set legacyConfigDirNames \<Longrightarrow> simple_name n"
  by (auto simp: simple_name_def xdg_names)

text \<open>The two levels of a path in a directory of the program determine it.\<close>

lemma app_path_inj:
  assumes "simple_name a" "simple_name b" "simple_name f" "simple_name g"
  shows "path_Join [path_Join [d, a], f] = path_Join [path_Join [d, b], g] \<longleftrightarrow> a = b \<and> f = g"
  using elements_Join(1) [OF assms(1), of d] elements_Join(1) [OF assms(2), of d]
    path_Join_inj [OF assms(3,4), of "path_Join [d, a]" "path_Join [d, b]"] by auto

text \<open>Paths depend on the configuration directory alone.\<close>

lemma paths_cong:
  assumes "fs_configDir w' = fs_configDir w"
  shows "configPath w' = configPath w" "credentialsForApp w' = credentialsForApp w"
    "targetPath w' = targetPath w" "targetPaths w' = targetPaths w"
proof -
  show c: "configPath w' = configPath w" by (simp add: configPath_def [abs_def] assms)
  show "credentialsForApp w' = credentialsForApp w" by (simp add: credentialsForApp_def [abs_def] c)
  show t: "targetPath w' = targetPath w" by (simp add: targetPath_def c)
  have "legacy_paths w' ns ps = legacy_paths w ns ps" for ns ps
    by (induction ns arbitrary: ps) (simp_all add: c split: sum.split)
  then show "targetPaths w' = targetPaths w" by (simp add: targetPaths_def t split: sum.split)
qed

lemma targetPaths_eq:
  "targetPaths w =
     (case fs_configDir w of
        Inl err \<Rightarrow> Inl (wrap_err ''resolve user config dir: %w'' err)
      | Inr d \<Rightarrow> Inr (map (\<lambda>n. path_Join [path_Join [d, n], targetFile]) (appDirName # legacyConfigDirNames)))"
  by (simp add: targetPaths_def targetPath_def configPath_def legacyConfigDirNames_def split: sum.split)

lemma targetPath_targetPaths:
  "targetPaths w = Inr paths \<Longrightarrow> targetPath w = Inr (hd paths)"
  by (auto simp: targetPaths_eq targetPath_def configPath_def split: sum.splits)

lemma credentialsForApp_eq:
  "credentialsForApp w n = Inr c \<longleftrightarrow>
     (\<exists>d. fs_configDir w = Inr d \<and> c = \<lparr>cr_CertPath = path_Join [path_Join [d, n], certFile],
        cr_KeyPath = path_Join [path_Join [d, n], keyFile], cr_Source = n\<rparr>)"
  by (auto simp: credentialsForApp_def configPath_def split: sum.splits)

lemma cert_key_differ: "path_Join [path_Join [d, n], certFile] \<noteq> path_Join [path_Join [d, n], keyFile]"
  using path_Join_inj [of certFile keyFile] by (auto simp: certFile_def keyFile_def simple_name_def)

section \<open>Lemmas on the target store\<close>

definition target_storable :: "target_json \<Rightarrow> target \<Rightarrow> bool" where
  "target_storable js t =
     (case tj_MarshalIndent js t of Inl _ \<Rightarrow> False | Inr raw \<Rightarrow> tj_Unmarshal js raw = Inr t)"

definition target_readable :: "'a fs_scheme \<Rightarrow> bool" where
  "target_readable w =
     (case targetPath w of Inl _ \<Rightarrow> True | Inr path \<Rightarrow> fs_fault w OpRead path = None)"

lemma target_Save_ok:
  assumes "target_Save js t w = (None, w')"
  obtains path raw mode where "targetPath w = Inr path" "tj_MarshalIndent js t = Inr raw"
    "fs_files w' path = Some (raw, mode)"
  using assms
  by (auto simp: target_Save_def dest!: os_WriteFile_ok(1) split: sum.splits prod.splits option.splits)

lemma target_Save_frame:
  assumes "target_Save js t w = (r, w')" "targetPath w = Inr path"
  shows "only_files {path} w w'"
proof -
  obtain r1 w1 where m: "os_MkdirAll (path_Dir path) 493 w = (r1, w1)" by fastforce
  then have 1: "only_files {path} w w1" by (rule os_MkdirAll_frame)
  have 2: "only_files {path} w1 w2" if "os_WriteFile path raw 384 w1 = (r2, w2)" for raw r2 w2
    using that by (rule os_WriteFile_frame) simp
  show ?thesis
    using assms m 1 only_files_trans [OF 1 2]
    by (auto simp: target_Save_def split: option.splits sum.splits prod.splits)
qed

lemma target_Save_fail:
  assumes "target_Save js t w = (Some e, w')" "targetPath w = Inr path" "fs_fault w OpWrite path = None"
  shows "fs_files w' = fs_files w"
    and "length (elements path) \<le> length (elements q) \<Longrightarrow> fs_dirs w' q = fs_dirs w q"
proof -
  obtain r1 w1 where m: "os_MkdirAll (path_Dir path) 493 w = (r1, w1)" by fastforce
  then have 1: "fs_files w1 = fs_files w" "fs_fault w1 = fs_fault w"
    using os_MkdirAll_frame(1) [OF m, of "{}"] by (auto dest: os_MkdirAll_frame(2) only_filesD)
  have 2: "w2 = w1" if "os_WriteFile path raw 384 w1 = (Some e2, w2)" for raw e2 w2
    using os_WriteFile_fail [OF that] assms(3) 1 by simp
  have "fs_files w' = fs_files w \<and> fs_dirs w' = fs_dirs w1 \<or> w' = w"
    using assms(1) m assms(2) 1
    by (auto simp: target_Save_def split: option.splits sum.splits prod.splits dest!: 2)
  moreover from assms(2) obtain base where "path = path_Join [base, targetFile]"
    by (auto simp: targetPath_def split: sum.splits)
  then have "length (elements (path_Dir path)) < length (elements path)"
    by (simp add: elements_Dir_Join elements_Join)
  ultimately show "fs_files w' = fs_files w"
    and "length (elements path) \<le> length (elements q) \<Longrightarrow> fs_dirs w' q = fs_dirs w q"
    using os_MkdirAll_deeper [OF m, of q] by auto
qed

lemma load_paths_nonzero: "load_paths js l paths w = (Inr t, w') \<Longrightarrow> \<not> target_IsZero t"
  by (induction paths arbitrary: l)
    (auto simp: loadTarget_def split: sum.splits if_splits)

lemma loadTarget_same:
  assumes "fs_files w' p = fs_files w p" "fs_dirs w' p = fs_dirs w p" "fs_fault w' = fs_fault w"
  shows "loadTarget js w' p = loadTarget js w p"
  unfolding loadTarget_def os_ReadFile_def assms ..

lemma target_save_reads:
  assumes "target_storable js t" "\<not> target_IsZero t" "target_Save js t w = (None, w')"
    and "target_readable w'"
  shows "\<exists>path. targetPath w' = Inr path \<and> loadTarget js w' path = Inr t"
proof -
  from assms(3) obtain path raw mode where sv: "targetPath w = Inr path"
      "tj_MarshalIndent js t = Inr raw" "fs_files w' path = Some (raw, mode)"
    by (rule target_Save_ok)
  then have "fs_configDir w' = fs_configDir w"
    using target_Save_frame [OF assms(3)] by (auto dest: only_filesD)
  with sv(1) have p: "targetPath w' = Inr path" by (metis paths_cong(3))
  with sv assms(1,2,4) have "loadTarget js w' path = Inr t"
    by (simp add: loadTarget_def os_ReadFile_written target_readable_def target_storable_def)
  with p show ?thesis by blast
qed

lemma target_Load_primary:
  "targetPath w = Inr path \<Longrightarrow> loadTarget js w path = Inr t \<Longrightarrow> target_Load js w = (Inr t, w)"
  by (auto simp: target_Load_def targetPaths_eq targetPath_def configPath_def split: sum.splits)

lemma target_load_save:
  assumes "target_storable js t" "\<not> target_IsZero t" "target_Save js t w = (None, w')"
    and "target_readable w'"
  shows "target_Load js w' = (Inr t, w')"
  using target_save_reads [OF assms] target_Load_primary by blast

lemma load_after_failed_save:
  assumes "target_Save js t w = (Some e, w')" "targetPath w = Inr path" "fs_fault w OpWrite path = None"
  shows "fst (target_Load js w') = fst (target_Load js w)"
proof -
  from assms(2) obtain d where d: "fs_configDir w = Inr d"
    by (auto simp: targetPath_def configPath_def split: sum.splits)
  let ?p = "\<lambda>n. path_Join [path_Join [d, n], targetFile]"
  have path: "path = ?p appDirName" using assms(2) d by (simp add: targetPath_def configPath_def)
  have paths: "targetPaths w = Inr (map ?p (appDirName # legacyConfigDirNames))"
    by (simp add: targetPaths_eq d)
  have f: "only_files {path} w w'" using assms(1,2) by (rule target_Save_frame)
  have fc: "targetPaths w' = targetPaths w" "fs_fault w' = fs_fault w"
    using paths_cong [OF only_filesD(1) [OF f]] only_filesD(2) [OF f] by auto
  have files: "fs_files w' = fs_files w" using assms by (rule target_Save_fail(1))
  have "loadTarget js w' (?p n) = loadTarget js w (?p n)" if "simple_name n" for n
  proof -
    have "length (elements path) = length (elements (?p n))"
      using that by (simp add: path elements_Join)
    then have "fs_dirs w' (?p n) = fs_dirs w (?p n)"
      using target_Save_fail(2) [OF assms, of "?p n"] by simp
    with files fc(2) show ?thesis by (intro loadTarget_same) simp_all
  qed
  then have "fst (load_paths js l (map ?p ns) w') = fst (load_paths js l (map ?p ns) w)"
    if "list_all simple_name ns" for l ns
    using that by (induction ns arbitrary: l) (auto split: sum.split)
  then show ?thesis
    using fc(1) paths by (simp add: target_Load_def list_all_iff del: load_paths.simps list.map)
qed

interpretation xdg_targets: saved_target_store "xdg_TargetStore js" "target_storable js" target_readable
  for js
proof unfold_locales
  fix t and w w' :: "'a fs_scheme"
  assume "target_storable js t" "\<not> target_IsZero t" "ts_Save (xdg_TargetStore js) t w = (None, w')"
    "target_readable w'"
  then show "ts_Load (xdg_TargetStore js) w' = (Inr t, w')"
    by (simp add: xdg_TargetStore_def target_load_save)
next
  fix t and w w' :: "'a fs_scheme"
  assume "ts_Load (xdg_TargetStore js) w = (Inr t, w')"
  then show "\<not> target_IsZero t"
    by (auto simp: xdg_TargetStore_def target_Load_def dest: load_paths_nonzero split: sum.splits)
qed

section \<open>Lemmas on the credential store\<close>

lemma copyFile_frame: "copyFile src dst w = (r, w') \<Longrightarrow> dst \<in> S \<Longrightarrow> only_files S w w'"
  by (auto simp: copyFile_def split: sum.splits dest: os_WriteFile_frame)

lemma copyFile_ok:
  "copyFile src dst w = (None, w') \<Longrightarrow> fs_files w' dst \<noteq> None \<and> fs_dirs w' = fs_dirs w"
  by (auto simp: copyFile_def split: sum.splits dest: os_WriteFile_ok os_WriteFile_frame(2))

lemma migrateCredentials_frame:
  assumes "migrateCredentials src dst w = (r, w')"
  shows "only_files {cr_CertPath dst, cr_KeyPath dst} w w'" (is "only_files ?S _ _")
proof -
  obtain r1 w1 where m: "os_MkdirAll (path_Dir (cr_CertPath dst)) 493 w = (r1, w1)" by fastforce
  obtain r2 w2 where c: "copyFile (cr_CertPath src) (cr_CertPath dst) w1 = (r2, w2)" by fastforce
  obtain r3 w3 where k: "copyFile (cr_KeyPath src) (cr_KeyPath dst) w2 = (r3, w3)" by fastforce
  have 1: "only_files ?S w w1" using m by (rule os_MkdirAll_frame)
  also have 2: "only_files ?S w1 w2" using c by (rule copyFile_frame) simp
  finally have 12: "only_files ?S w w2" .
  have "only_files ?S w2 w3" using k by (rule copyFile_frame) simp
  with 12 have 3: "only_files ?S w w3" by (rule only_files_trans)
  from assms m c k 1 12 3 show ?thesis
    by (auto simp: migrateCredentials_def split: option.splits prod.splits)
qed

lemma migrateCredentials_ok:
  assumes "migrateCredentials src dst w = (None, w')" "cr_CertPath dst \<noteq> cr_KeyPath dst"
  shows "fs_files w' (cr_CertPath dst) \<noteq> None" "fs_files w' (cr_KeyPath dst) \<noteq> None"
proof -
  from assms(1) obtain w1 w2 where
    c: "copyFile (cr_CertPath src) (cr_CertPath dst) w1 = (None, w2)" and
    k: "copyFile (cr_KeyPath src) (cr_KeyPath dst) w2 = (None, w')"
    by (auto simp: migrateCredentials_def split: option.splits prod.splits)
  show "fs_files w' (cr_KeyPath dst) \<noteq> None" using copyFile_ok [OF k] by simp
  have "only_files {cr_KeyPath dst} w2 w'" using k by (rule copyFile_frame) simp
  then show "fs_files w' (cr_CertPath dst) \<noteq> None"
    using copyFile_ok [OF c] assms(2) by (metis only_filesD(4) singletonD)
qed

lemma creds_Exists_True:
  "creds_Exists c w = Inr True \<longleftrightarrow> fileExists w (cr_CertPath c) = Inr True \<and> fileExists w (cr_KeyPath c) = Inr True"
  by (auto simp: creds_Exists_def split: sum.splits)

lemma creds_Exists_False:
  "creds_Exists c w = Inr False \<longleftrightarrow> fileExists w (cr_CertPath c) = Inr False \<and> fileExists w (cr_KeyPath c) = Inr False"
  by (auto simp: creds_Exists_def split: sum.splits)

text \<open>A file that was there stays visible while only other files change.\<close>

lemma fileExists_only:
  assumes "only_files S w w'" "p \<notin> S" "fileExists w p = Inr True"
  shows "fileExists w' p = Inr True"
proof -
  from assms(3) have "fs_fault w OpStat p = None" "fs_files w p \<noteq> None \<or> fs_dirs w p \<noteq> None"
    by (auto dest: fileExists_Inr)
  with only_filesD(2) [OF assms(1)] only_filesD(4,5) [OF assms(1), of p] assms(2) show ?thesis
    by (auto simp: fileExists_def os_Stat_def split: option.splits)
qed

lemma migrated_exists:
  assumes "creds_Exists dst w = Inr False" "migrateCredentials src dst w = (None, w')"
    and "cr_CertPath dst \<noteq> cr_KeyPath dst"
  shows "creds_Exists dst w' = Inr True"
proof -
  have f: "fs_fault w' = fs_fault w"
    using migrateCredentials_frame [OF assms(2)] by (rule only_filesD)
  have "fileExists w (cr_CertPath dst) = Inr False" "fileExists w (cr_KeyPath dst) = Inr False"
    using assms(1) by (simp_all add: creds_Exists_False)
  then have "fs_fault w' OpStat (cr_CertPath dst) = None" "fs_fault w' OpStat (cr_KeyPath dst) = None"
    by (auto simp: f dest: fileExists_Inr(1))
  with migrateCredentials_ok [OF assms(2,3)] show ?thesis
    by (auto simp: creds_Exists_True fileExists_file)
qed

definition app_creds :: "string \<Rightarrow> string \<Rightarrow> credentials" where
  "app_creds d n = \<lparr>cr_CertPath = path_Join [path_Join [d, n], certFile],
     cr_KeyPath = path_Join [path_Join [d, n], keyFile], cr_Source = n\<rparr>"

lemma app_creds_props:
  "\<not> creds_IsZero (app_creds d n)" "cr_CertPath (app_creds d n) \<noteq> cr_KeyPath (app_creds d n)"
  by (simp_all add: creds_IsZero_def app_creds_def elements_Join cert_key_differ)

lemma app_creds_legacy:
  assumes "n \<in> set legacyConfigDirNames"
    and "p = cr_CertPath (app_creds d n) \<or> p = cr_KeyPath (app_creds d n)"
  shows "p \<notin> {cr_CertPath (app_creds d appDirName), cr_KeyPath (app_creds d appDirName)}"
proof -
  have "n \<noteq> appDirName" using assms(1) by (auto simp: xdg_names)
  with assms show ?thesis by (auto simp: app_creds_def app_path_inj)
qed

lemma load_legacy_creds_ok:
  assumes "load_legacy_creds (app_creds d appDirName) ns w = (Inr c, w')"
    and "fs_configDir w = Inr d" "set ns \<subseteq> set legacyConfigDirNames"
    and "creds_Exists (app_creds d appDirName) w = Inr False"
  shows "creds_Exists c w' = Inr True \<and> (\<exists>n. c = app_creds d n)"
  using assms
proof (induction ns)
  case (Cons n ns)
  let ?l = "app_creds d n" and ?p = "app_creds d appDirName"
  have l: "credentialsForApp w n = Inr ?l"
    using Cons.prems(2) by (simp add: credentialsForApp_eq app_creds_def)
  show ?case
  proof (cases "creds_Exists ?l w")
    case (Inl e)
    with l Cons.prems(1) show ?thesis by simp
  next
    case (Inr ok)
    show ?thesis
    proof (cases ok)
      case False
      with l Inr Cons show ?thesis by auto
    next
      case True
      obtain r w1 where m: "migrateCredentials ?l ?p w = (r, w1)" by fastforce
      have n: "n \<in> set legacyConfigDirNames" using Cons.prems(3) by simp
      have l1: "creds_Exists ?l w1 = Inr True"
        using Inr True fileExists_only [OF migrateCredentials_frame [OF m]]
          app_creds_legacy [OF n]
        by (simp add: creds_Exists_True)
      show ?thesis
      proof (cases r)
        case None
        with migrated_exists [OF Cons.prems(4)] m app_creds_props(2)
        have "creds_Exists ?p w1 = Inr True" by metis
        moreover from None l Inr True m Cons.prems(1) have "c = ?p" "w' = w1" by simp_all
        ultimately show ?thesis by blast
      next
        case (Some e)
        with l Inr True m Cons.prems(1) have "c = ?l" "w' = w1" by simp_all
        with l1 show ?thesis by blast
      qed
    qed
  qed
qed simp

lemma creds_Load_ok:
  assumes "creds_Load w = (Inr c, w')"
  shows "creds_Exists c w' = Inr True" "\<not> creds_IsZero c"
proof -
  from assms obtain d where d: "fs_configDir w = Inr d"
    by (auto simp: creds_Load_def creds_Default_def credentialsForApp_def configPath_def split: sum.splits)
  then have def: "creds_Default w = Inr (app_creds d appDirName)"
    by (simp add: creds_Default_def credentialsForApp_eq app_creds_def)
  have "creds_Exists c w' = Inr True \<and> (\<exists>n. c = app_creds d n)"
  proof (cases "creds_Exists (app_creds d appDirName) w")
    case (Inl e)
    with assms def show ?thesis by (simp add: creds_Load_def)
  next
    case (Inr ok)
    show ?thesis
    proof (cases ok)
      case True
      with Inr assms def show ?thesis by (auto simp: creds_Load_def)
    next
      case False
      with Inr assms def have "load_legacy_creds (app_creds d appDirName) legacyConfigDirNames w = (Inr c, w')"
        by (simp add: creds_Load_def)
      from load_legacy_creds_ok [OF this d] False Inr show ?thesis by simp
    qed
  qed
  then show "creds_Exists c w' = Inr True" "\<not> creds_IsZero c" by (auto simp: app_creds_props)
qed

interpretation xdg_creds: client_credential_store xdg_CredentialStore
  by unfold_locales (auto simp: xdg_CredentialStore_def creds_Load_ok)

section \<open>Properties\<close>

text \<open>A world for the witnesses: an empty directory \<open>/c\<close> to configure in.\<close>

definition empty_world :: fs where
  "empty_world = \<lparr>fs_configDir = Inr ''/c'', fs_files = (\<lambda>_. None),
     fs_dirs = (\<lambda>p. if p = ''/'' \<or> p = ''/c'' then Some 493 else None),
     fs_fault = (\<lambda>_ _. None), fs_short = (\<lambda>_. 0)\<rparr>"

text \<open>A codec for the witnesses: the host is all that is kept.\<close>

definition host_json :: target_json where
  "host_json = \<lparr>tj_MarshalIndent = (\<lambda>t. Inr (t_Host t)),
     tj_Unmarshal = (\<lambda>s. Inr \<lparr>t_Host = s, t_Port = 0, t_DeviceID = [], t_Label = []\<rparr>)\<rparr>"

text \<open>
  C11: Saving a target and loading it gives that target back, for every target that survives
  encoding and decoding; the load changes nothing, and the save changes no other file.
\<close>

theorem target_save_load:
  assumes "target_Save js t w = (None, w')" "target_storable js t" "\<not> target_IsZero t"
    and "target_readable w" "targetPath w = Inr path"
  shows "target_Load js w' = (Inr t, w') \<and> (\<forall>p. p \<noteq> path \<longrightarrow> fs_files w' p = fs_files w p)"
proof -
  have f: "only_files {path} w w'" using assms(1,5) by (rule target_Save_frame)
  have "target_readable w'"
    using assms(4,5) paths_cong(3) [OF only_filesD(1) [OF f]] only_filesD(2) [OF f]
    by (simp add: target_readable_def)
  moreover have "ts_Save (xdg_TargetStore js) t w = (None, w')"
    using assms(1) by (simp add: xdg_TargetStore_def)
  ultimately have "ts_Load (xdg_TargetStore js) w' = (Inr t, w')"
    using xdg_targets.load_save assms(2,3) by blast
  then show ?thesis using only_filesD(4) [OF f] by (simp add: xdg_TargetStore_def)
qed

theorem target_save_load_witness:
  "fst (target_Load host_json (snd (target_Save host_json
     \<lparr>t_Host = ''tv'', t_Port = 0, t_DeviceID = [], t_Label = []\<rparr> empty_world))) =
   Inr \<lparr>t_Host = ''tv'', t_Port = 0, t_DeviceID = [], t_Label = []\<rparr>"
proof -
  let ?t = "\<lparr>t_Host = ''tv'', t_Port = 0, t_DeviceID = [], t_Label = []\<rparr>"
  have p: "targetPath empty_world = Inr ''/c/shrmt/target.json''" by code_simp
  have s: "fst (target_Save host_json ?t empty_world) = None" by code_simp
  have "target_storable host_json ?t" "\<not> target_IsZero ?t" "target_readable empty_world"
    by (simp_all add: target_storable_def host_json_def target_IsZero_def target_readable_def p)
      (simp add: empty_world_def)
  with s p target_save_load [of host_json ?t empty_world] show ?thesis
    by (metis prod.collapse fst_conv)
qed

text \<open>
  C26: Loading the saved target is stable: if a load gave a target, the next load gives the
  same one, also when the first found it in a former directory and moved it. The save of that
  migration may fail, as long as it does not fail half-way through writing the file.
\<close>

theorem target_load_stable:
  assumes "target_Load js w = (Inr t, w')" "target_storable js t" "target_readable w"
    and "targetPath w = Inr path" "fs_fault w OpWrite path = None"
  shows "fst (target_Load js w') = Inr t"
proof -
  from assms(4) obtain d where d: "fs_configDir w = Inr d"
    by (auto simp: targetPath_def configPath_def split: sum.splits)
  let ?p = "\<lambda>n. path_Join [path_Join [d, n], targetFile]"
  have path: "path = ?p appDirName" using assms(4) d by (simp add: targetPath_def configPath_def)
  have paths: "targetPaths w = Inr (map ?p (appDirName # legacyConfigDirNames))"
    by (simp add: targetPaths_eq d)
  have nz: "\<not> target_IsZero t"
    using assms(1) paths load_paths_nonzero by (fastforce simp: target_Load_def simp del: load_paths.simps)
  show ?thesis
  proof (cases "w' = w")
    case True
    with assms(1) show ?thesis by simp
  next
    case False
    obtain r where sv: "target_Save js t w = (r, w')"
      using assms(1) False paths
      by (auto simp: target_Load_def legacyConfigDirNames_def prod_eq_iff split: sum.splits if_splits)
    have f: "only_files {path} w w'" using sv assms(4) by (rule target_Save_frame)
    have fc: "targetPaths w' = targetPaths w" "fs_fault w' = fs_fault w" "targetPath w' = targetPath w"
      using paths_cong [OF only_filesD(1) [OF f]] only_filesD(2) [OF f] by auto
    show ?thesis
    proof (cases r)
      case None
      with sv have "ts_Save (xdg_TargetStore js) t w = (None, w')" by (simp add: xdg_TargetStore_def)
      moreover have "target_readable w'" using assms(3,4) fc by (simp add: target_readable_def)
      ultimately have "ts_Load (xdg_TargetStore js) w' = (Inr t, w')"
        using xdg_targets.load_save assms(2) nz by blast
      then show ?thesis by (simp add: xdg_TargetStore_def)
    next
      case (Some e)
      have "fst (target_Load js w') = fst (target_Load js w)"
        using load_after_failed_save [OF _ assms(4,5)] sv Some by blast
      with assms(1) show ?thesis by simp
    qed
  qed
qed

theorem target_load_stable_witness:
  "fst (target_Load host_json (snd (target_Load host_json
     (empty_world\<lparr>fs_files := [''/c/shield-poc/target.json'' \<mapsto> (''tv'', 384)]\<rparr>)))) =
   Inr \<lparr>t_Host = ''tv'', t_Port = 0, t_DeviceID = [], t_Label = []\<rparr>"
proof -
  let ?t = "\<lparr>t_Host = ''tv'', t_Port = 0, t_DeviceID = [], t_Label = []\<rparr>"
  let ?w = "empty_world\<lparr>fs_files := [''/c/shield-poc/target.json'' \<mapsto> (''tv'', 384)]\<rparr>"
  have p: "targetPath ?w = Inr ''/c/shrmt/target.json''" by code_simp
  have s: "fst (target_Load host_json ?w) = Inr ?t" by code_simp
  have "target_storable host_json ?t" "target_readable ?w"
    by (simp_all add: target_storable_def host_json_def target_readable_def p)
      (simp add: empty_world_def)
  with s p target_load_stable [of host_json ?w ?t "snd (target_Load host_json ?w)"] show ?thesis
    by (simp add: prod_eq_iff empty_world_def)
qed

text \<open>
  C27: \<open>Clear\<close> removes the target file of the program and nothing else, so what a load finds
  after it is what the former directories hold: a target left there, which an earlier load had
  copied, comes back, and only without one nothing is saved.
\<close>

theorem target_clear_load:
  assumes "target_Clear w = (None, w')" "targetPaths w = Inr (path # legacy)"
    and "fs_dirs w path = None" "target_readable w"
  shows "target_Load js w' = load_paths js True legacy w' \<and>
    (\<forall>p. p \<noteq> path \<longrightarrow> fs_files w' p = fs_files w p)"
proof -
  have p: "targetPath w = Inr path" using targetPath_targetPaths [OF assms(2)] by simp
  obtain r w1 where rm: "os_Remove path w = (r, w1)" by fastforce
  have w': "w' = w1" using assms(1) p rm by (auto simp: target_Clear_def split: option.splits if_splits)
  have f: "only_files {path} w w'" using os_Remove_frame [OF rm] w' by simp
  have gone: "fs_files w' path = None \<and> fs_dirs w' path = None"
    using assms(1,3) p
    by (cases "fs_files w path")
      (auto simp: target_Clear_def os_Remove_def path_err_def split: option.splits if_splits)
  have "fs_fault w' OpRead path = None" using assms(4) p only_filesD(2) [OF f] by (simp add: target_readable_def)
  with gone have "loadTarget js w' path = Inl ErrNoSavedTarget"
    by (simp add: loadTarget_def os_ReadFile_def path_err_def)
  moreover have "targetPaths w' = Inr (path # legacy)"
    using paths_cong(4) [OF only_filesD(1) [OF f]] assms(2) by simp
  ultimately show ?thesis using only_filesD(4) [OF f] by (simp add: target_Load_def)
qed

theorem target_clear_load_witness:
  "fst (target_Load host_json (snd (target_Clear
     (empty_world\<lparr>fs_files := [''/c/shremote/target.json'' \<mapsto> (''tv'', 384),
        ''/c/shrmt/target.json'' \<mapsto> (''tv'', 384)]\<rparr>)))) =
   Inr \<lparr>t_Host = ''tv'', t_Port = 0, t_DeviceID = [], t_Label = []\<rparr>"
proof -
  let ?w = "empty_world\<lparr>fs_files := [''/c/shremote/target.json'' \<mapsto> (''tv'', 384),
        ''/c/shrmt/target.json'' \<mapsto> (''tv'', 384)]\<rparr>"
  have p: "targetPaths ?w = Inr [''/c/shrmt/target.json'', ''/c/shremote/target.json'', ''/c/shield-poc/target.json'']"
    by code_simp
  have c: "fst (target_Clear ?w) = None" by code_simp
  have d: "fs_dirs ?w ''/c/shrmt/target.json'' = None" "target_readable ?w" by code_simp+
  have "target_Load host_json (snd (target_Clear ?w)) =
      load_paths host_json True [''/c/shremote/target.json'', ''/c/shield-poc/target.json''] (snd (target_Clear ?w))"
    using target_clear_load [of ?w "snd (target_Clear ?w)" "''/c/shrmt/target.json''"
        "[''/c/shremote/target.json'', ''/c/shield-poc/target.json'']" host_json] c p d
    by (simp add: prod_eq_iff)
  moreover have "fst (load_paths host_json True [''/c/shremote/target.json'', ''/c/shield-poc/target.json'']
      (snd (target_Clear ?w))) = Inr \<lparr>t_Host = ''tv'', t_Port = 0, t_DeviceID = [], t_Label = []\<rparr>"
    by code_simp
  ultimately show ?thesis by simp
qed

text \<open>
  Credentials that \<open>Load\<close> returns exist: both of their files are there after the load, so
  the pairing service's own look at them confirms them, whichever directory they came from.
\<close>

theorem creds_load_exist:
  assumes "pv_store s = Some xdg_CredentialStore" "pairing_Credentials s w = (r, w')"
  shows "(r, w') = creds_Load w \<and>
    (case r of Inl _ \<Rightarrow> True | Inr c \<Rightarrow> creds_Exists c w' = Inr True \<and> \<not> creds_IsZero c)"
proof -
  have eq: "(r, w') = creds_Load w"
    using xdg_creds.Credentials_Load [OF assms(1), of w] assms(2) by (simp add: xdg_CredentialStore_def)
  show ?thesis
  proof (cases r)
    case (Inr c)
    with eq creds_Load_ok [of w c w'] show ?thesis by simp
  qed (use eq in simp)
qed

theorem creds_load_exist_witness:
  "fst (pairing_Credentials \<lparr>pv_pairer = None, pv_store = Some xdg_CredentialStore,
     pv_clientName = [], pv_serviceName = []\<rparr> empty_world) = Inl ErrCredentialsNotFound"
proof -
  let ?s = "\<lparr>pv_pairer = None, pv_store = Some xdg_CredentialStore, pv_clientName = [], pv_serviceName = []\<rparr>"
  have "fst (creds_Load empty_world) = Inl ErrCredentialsNotFound" by code_simp
  with creds_load_exist [of ?s empty_world "fst (pairing_Credentials ?s empty_world)"
      "snd (pairing_Credentials ?s empty_world)"] show ?thesis
    by (metis fst_conv pairing_service.select_convs(2) prod.collapse)
qed




end
