(* ===== verification/Keys.thy ===== *)
theory Keys
  imports Actions
begin

text \<open>
  \<open>internal/atvremote/keys.go\<close>: the key code of every action name of the Android TV remote
  protocol. The key codes are constants of the protocol package; the ones the program names
  are the constructors of \<open>keycode\<close>, and \<open>KEYCODE_OTHER\<close> is every other number.
\<close>

datatype keycode =
    KEYCODE_UNKNOWN | KEYCODE_BACK | KEYCODE_DPAD_CENTER | KEYCODE_DPAD_DOWN
  | KEYCODE_MEDIA_FAST_FORWARD | KEYCODE_HOME | KEYCODE_DPAD_LEFT | KEYCODE_MENU
  | KEYCODE_MUTE | KEYCODE_MEDIA_PLAY_PAUSE | KEYCODE_POWER | KEYCODE_MEDIA_REWIND
  | KEYCODE_DPAD_RIGHT | KEYCODE_SLEEP | KEYCODE_SOFT_SLEEP | KEYCODE_DPAD_UP
  | KEYCODE_VOLUME_DOWN | KEYCODE_VOLUME_UP | KEYCODE_WAKEUP
  | KEYCODE_TV_POWER | KEYCODE_STB_POWER | KEYCODE_AVR_POWER | KEYCODE_ALL_APPS
  | KEYCODE_SYSTEM_NAVIGATION_UP | KEYCODE_OTHER int

definition keyActions :: "(string \<times> keycode) list" where
  "keyActions =
    [(''back'', KEYCODE_BACK), (''center'', KEYCODE_DPAD_CENTER), (''down'', KEYCODE_DPAD_DOWN),
     (''enter'', KEYCODE_DPAD_CENTER), (''fast-forward'', KEYCODE_MEDIA_FAST_FORWARD),
     (''ff'', KEYCODE_MEDIA_FAST_FORWARD), (''home'', KEYCODE_HOME), (''left'', KEYCODE_DPAD_LEFT),
     (''menu'', KEYCODE_MENU), (''mute'', KEYCODE_MUTE), (''ok'', KEYCODE_DPAD_CENTER),
     (''play-pause'', KEYCODE_MEDIA_PLAY_PAUSE), (''power'', KEYCODE_POWER),
     (''rew'', KEYCODE_MEDIA_REWIND), (''rewind'', KEYCODE_MEDIA_REWIND),
     (''right'', KEYCODE_DPAD_RIGHT), (''sleep'', KEYCODE_SLEEP),
     (''soft-sleep'', KEYCODE_SOFT_SLEEP), (''up'', KEYCODE_DPAD_UP),
     (''vol-down'', KEYCODE_VOLUME_DOWN), (''vol-up'', KEYCODE_VOLUME_UP),
     (''voldown'', KEYCODE_VOLUME_DOWN), (''volume-down'', KEYCODE_VOLUME_DOWN),
     (''volume-up'', KEYCODE_VOLUME_UP), (''volup'', KEYCODE_VOLUME_UP),
     (''wake'', KEYCODE_WAKEUP), (''wake-up'', KEYCODE_WAKEUP), (''wakeup'', KEYCODE_WAKEUP)]"

definition normalizeAction :: "unicode \<Rightarrow> string \<Rightarrow> string" where
  "normalizeAction u act =
     (let act = ToLower u (TrimSpace act);
          act = ReplaceAllChar (CHR ''_'') (CHR ''-'') act;
          act = ReplaceAllChar (CHR '' '') (CHR ''-'') act
      in act)"

definition canonicalAction :: "string \<Rightarrow> string" where
  "canonicalAction act =
     (if act = ''ok'' then ''enter''
      else if act = ''center'' then ''enter''
      else if act = ''ff'' then ''fast-forward''
      else if act = ''rew'' then ''rewind''
      else if act = ''voldown'' \<or> act = ''vol-down'' then ''volume-down''
      else if act = ''volup'' \<or> act = ''vol-up'' then ''volume-up''
      else if act = ''wake'' \<or> act = ''wake-up'' then ''wakeup''
      else act)"

text \<open>
  \<open>for action := range keyActions\<close> visits the keys in an order Go does not fix; that order is
  the argument \<open>ks\<close>.
\<close>

definition AvailableKeyActions :: "string list \<Rightarrow> string list" where
  "AvailableKeyActions ks = sort (unseen {} (map canonicalAction ks))"

definition ResolveKeyCode :: "unicode \<Rightarrow> string list \<Rightarrow> string \<Rightarrow> keycode res" where
  "ResolveKeyCode u ks act =
     (let normalized = normalizeAction u act in
      case map_of keyActions normalized of
        None \<Rightarrow> Inl (Errorf ''unknown action %q (supported: %s)''
                     [FS act, FS (JoinStr '', '' (AvailableKeyActions ks))] None)
      | Some keyCode \<Rightarrow> Inr keyCode)"

section \<open>Lemmas\<close>

lemma normalizeAction_eq: "normalizeAction = normalize"
  by (intro ext) (simp add: normalizeAction_def normalize_def)

text \<open>Every alias of \<open>core/action\<close> names the key of the action it stands for.\<close>

lemma aliases_keyActions:
  "list_all (\<lambda>(k, act). map_of keyActions k = map_of keyActions act \<and> map_of keyActions act \<noteq> None) aliases"
  by code_simp

lemma ResolveKeyCode_alias:
  assumes "map_of aliases k = Some act"
  shows "\<exists>c. map_of keyActions k = Some c \<and> map_of keyActions act = Some c"
proof -
  have "(k, act) \<in> set aliases" using assms by (rule map_of_SomeD)
  with aliases_keyActions show ?thesis by (fastforce simp: list_all_iff)
qed

lemma AvailableKeyActions_order:
  assumes "set ks = fst ` set keyActions"
  shows "AvailableKeyActions ks = sort (''soft-sleep'' # AllActions)"
proof -
  have "set (map canonicalAction ks) = canonicalAction ` fst ` set keyActions"
    using assms by simp
  also have "\<dots> = set (''soft-sleep'' # AllActions)"
    unfolding AllActions_def list.set(2) set_sort
    by (simp add: keyActions_def canonicalAction_def action_names set_eq_subset)
  finally have "sort (unseen {} (map canonicalAction ks)) =
      sort (unseen {} (''soft-sleep'' # AllActions))"
    by (rule unseen_cong_set)
  moreover have "distinct (''soft-sleep'' # AllActions)"
    unfolding AllActions_def distinct.simps set_sort distinct_sort
    by (simp add: action_names)
  ultimately show ?thesis
    by (simp add: AvailableKeyActions_def unseen_distinct)
qed

lemma ResolveKeyCode_action:
  assumes "act \<in> set AllActions"
  shows "\<exists>c. c \<noteq> KEYCODE_UNKNOWN \<and> map_of keyActions act = Some c \<and> ResolveKeyCode u ks act = Inr c"
proof -
  have a: "map_of aliases (normalize u act) = Some act"
    by (rule Parse_Inr_alias) (rule Parse_canonical [OF assms])
  then obtain c where c: "map_of keyActions (normalize u act) = Some c" "map_of keyActions act = Some c"
    using ResolveKeyCode_alias by blast
  moreover have "c \<noteq> KEYCODE_UNKNOWN"
    using map_of_SomeD [OF c(2)] by (auto simp: keyActions_def)
  ultimately show ?thesis by (simp add: ResolveKeyCode_def normalizeAction_eq)
qed

section \<open>Properties\<close>

text \<open>
  Whatever \<open>core/action\<close> parses, \<open>ResolveKeyCode\<close> resolves: the raw input and the
  parsed action both have the same key code, and it is not \<open>KEYCODE_UNKNOWN\<close>. So the two
  alias tables agree and a parsed action never fails for want of a key.
\<close>

theorem Parse_ResolveKeyCode:
  assumes "Parse u raw = Inr act"
  shows "\<exists>c. c \<noteq> KEYCODE_UNKNOWN \<and> ResolveKeyCode u ks raw = Inr c \<and>
    ResolveKeyCode u ks (action_String act) = Inr c"
proof -
  from assms have "map_of aliases (normalize u raw) = Some act" by (rule Parse_Inr_alias)
  then obtain c where "map_of keyActions (normalize u raw) = Some c" "map_of keyActions act = Some c"
    using ResolveKeyCode_alias by blast
  with ResolveKeyCode_action [OF Parse_Inr_set [OF assms], of u ks] show ?thesis
    by (auto simp: ResolveKeyCode_def normalizeAction_eq action_String_def)
qed

theorem Parse_ResolveKeyCode_witness:
  "Parse \<lparr>uni_lower = id, uni_upper = id\<rparr> ''ok'' = Inr Enter \<and>
   (\<exists>c. c \<noteq> KEYCODE_UNKNOWN \<and>
     ResolveKeyCode \<lparr>uni_lower = id, uni_upper = id\<rparr> (map fst keyActions) ''ok'' = Inr c \<and>
     ResolveKeyCode \<lparr>uni_lower = id, uni_upper = id\<rparr> (map fst keyActions) (action_String Enter) = Inr c)"
proof -
  have p: "Parse \<lparr>uni_lower = id, uni_upper = id\<rparr> ''ok'' = Inr Enter"
    by (rule Parse_alias) (simp add: aliases_def)
  show ?thesis using p Parse_ResolveKeyCode [OF p, of "map fst keyActions"] by simp
qed

text \<open>
  The list of supported actions does not depend on the order in which Go iterates over
  the key map: it is always the sorted list of the actions of \<open>core/action\<close> and
  \<open>soft-sleep\<close>.
\<close>

theorem AvailableKeyActions_deterministic:
  assumes "set ks = fst ` set keyActions"
  shows "AvailableKeyActions ks = sort (''soft-sleep'' # AllActions)"
  using assms by (rule AvailableKeyActions_order)

theorem AvailableKeyActions_deterministic_witness:
  "AvailableKeyActions (rev (map fst keyActions)) = sort (''soft-sleep'' # AllActions)"
  by (rule AvailableKeyActions_deterministic) simp

end
