(* ===== verification/NvProbe_Wire.thy ===== *)
theory NvProbe_Wire
  imports Go_Wire
begin

text \<open>
  The wire encoders of \<open>cmd/nvprobe\<close>: \<open>encodeVarint\<close>, \<open>fieldVarint\<close>,
  \<open>fieldBytes\<close>, \<open>fieldString\<close>, \<open>applyFrame\<close>, and the proof that \<open>encodeVarint\<close>
  satisfies the contract of a varint writer.
\<close>

unbundle bit_operations_syntax

section \<open>\<open>encodeVarint\<close>\<close>

text \<open>
  The loop runs on a value that is not negative (the code clamps it first), so it is a
  \<^typ>\<open>nat\<close> here; \<open>b|0x80\<close> marks every group but the last.
\<close>

function varint_loop :: "nat \<Rightarrow> byte list" where
  "varint_loop value =
     (let b = word_of_nat (take_bit 7 value); value' = drop_bit 7 value in
      if value' = 0 then [b] else (b OR 0x80) # varint_loop value')"
  by pat_completeness auto
termination
  by (relation "measure id") (auto simp: drop_bit_eq_div)

declare varint_loop.simps [simp del]

definition encodeVarint :: "int \<Rightarrow> byte list" where
  "encodeVarint value = varint_loop (nat (if value < 0 then 0 else value))"

definition put_varint :: "nat \<Rightarrow> byte list" where
  "put_varint n = encodeVarint (int n)"

lemma put_varint_eq: "put_varint n = varint_loop n"
  by (simp add: put_varint_def encodeVarint_def)

text \<open>The groups: seven bits each, the top bit set on all but the last.\<close>

lemma group_props:
  fixes n :: nat
  shows "ucast (word_of_nat (take_bit 7 n) :: byte) = (word_of_nat (take_bit 7 n) :: 64 word)"
    and "(word_of_nat (take_bit 7 n) :: byte) < 0x80"
    and "((word_of_nat (take_bit 7 n) :: byte) OR 0x80) AND 0x7f = word_of_nat (take_bit 7 n)"
    and "\<not> ((word_of_nat (take_bit 7 n) :: byte) OR 0x80) < 0x80"
proof -
  let ?b = "word_of_nat (take_bit 7 n) :: byte"
  have lt: "take_bit 7 n < (128 :: nat)"
    using take_bit_nat_less_exp [of 7 n] by simp
  then have ub: "unat ?b = take_bit 7 n"
    by (simp add: unat_of_nat)
  show "ucast ?b = (word_of_nat (take_bit 7 n) :: 64 word)"
    by (metis ub of_nat_unat)
  show lt80: "?b < 0x80"
    using lt ub by (simp add: word_less_nat_alt)
  have m: "(0x7f :: byte) = mask 7"
    by (simp add: mask_eq_exp_minus_1)
  show "(?b OR 0x80) AND 0x7f = ?b"
    by (simp add: m take_bit_eq_mask [symmetric] take_bit_of_nat)
  show "\<not> (?b OR 0x80) < 0x80"
    using le_word_or2 [of "0x80" ?b] by (simp add: or.commute not_less)
qed

lemma word_split_groups:
  "push_bit s (word_of_nat (take_bit 7 n)) OR push_bit (s + 7) (word_of_nat (drop_bit 7 n)) =
    (push_bit s (word_of_nat n) :: 64 word)"
proof -
  have "take_bit 7 n OR push_bit 7 (drop_bit 7 n) = n"
  proof (rule bit_eqI)
    fix k
    show "bit (take_bit 7 n OR push_bit 7 (drop_bit 7 n)) k = bit n k"
      by (cases "k < 7") (auto simp: bit_simps)
  qed
  then have "word_of_nat (take_bit 7 n) OR push_bit 7 (word_of_nat (drop_bit 7 n)) =
      (word_of_nat n :: 64 word)"
    by (metis of_nat_or_eq of_nat_push_bit)
  then have "push_bit s (word_of_nat (take_bit 7 n) OR push_bit 7 (word_of_nat (drop_bit 7 n))) =
      (push_bit s (word_of_nat n) :: 64 word)"
    by simp
  then show ?thesis by (simp add: push_bit_or ac_simps)
qed

lemma varint_loop_read:
  assumes "i < 10" "s = 7 * i" "n < 2 ^ (64 - s)"
  shows "uvarint_loop i x s (varint_loop n @ rest) = (Inr (x OR push_bit s (word_of_nat n)), rest)"
  using assms
proof (induction n arbitrary: i x s rule: varint_loop.induct)
  case (1 n)
  let ?b = "word_of_nat (take_bit 7 n) :: byte"
  show ?case
  proof (cases "drop_bit 7 n = 0")
    case True
    then have n: "take_bit 7 n = n"
      by (metis add_0 bits_ident mult_zero_left push_bit_of_0)
    have "\<not> 1 < ?b" if "i = 9"
    proof -
      have "n < 2" using 1 that by simp
      then have "n = 0 \<or> n = 1" by auto
      then show ?thesis by auto
    qed
    with True n 1 group_props(1,2) [of n] show ?thesis
      by (subst varint_loop.simps) (auto simp: Let_def)
  next
    case False
    have "i \<noteq> 9"
    proof
      assume "i = 9"
      with 1 have "n < 2" by simp
      with False show False by (simp add: drop_bit_eq_div)
    qed
    with 1 have s: "s \<le> 56" "Suc i < 10" by auto
    have "(2 :: nat) ^ (64 - s) = 2 ^ (57 - s) * 2 ^ 7"
      using s(1) by (subst power_add [symmetric]) simp
    with "1.prems"(3) have "n < 2 ^ (57 - s) * 2 ^ 7" by simp
    then have lt: "drop_bit 7 n < 2 ^ (64 - (s + 7))"
      by (simp add: drop_bit_eq_div less_mult_imp_div_less)
    have "uvarint_loop i x s (varint_loop n @ rest) =
        uvarint_loop (Suc i) (x OR push_bit s (word_of_nat (take_bit 7 n))) (s + 7)
          (varint_loop (drop_bit 7 n) @ rest)"
      using "1.prems"(1) False group_props [of n]
      by (subst varint_loop.simps) (simp add: Let_def)
    also have "\<dots> = (Inr ((x OR push_bit s (word_of_nat (take_bit 7 n)))
        OR push_bit (s + 7) (word_of_nat (drop_bit 7 n))), rest)"
      by (rule "1.IH" [OF refl refl False s(2) _ lt]) (simp add: "1.prems"(2))
    also have "\<dots> = (Inr (x OR push_bit s (word_of_nat n)), rest)"
      by (simp add: word_split_groups or.assoc)
    finally show ?thesis .
  qed
qed

text \<open>\<open>encodeVarint\<close> meets the contract of a varint writer.\<close>

interpretation nv: uvarint_writer put_varint
proof
  fix n :: nat and rest
  assume "n < 2 ^ 63"
  then have "n < 2 ^ 64" by simp
  then show "ReadUvarint (put_varint n @ rest) = (Inr (word_of_nat n), rest)"
    by (simp add: ReadUvarint_def put_varint_eq varint_loop_read)
qed

section \<open>Fields\<close>

text \<open>\<open>tag<<3\<close> is a 64-bit shift: what leaves the top is lost.\<close>

definition i64 :: "int \<Rightarrow> int" where
  "i64 x = signed_take_bit 63 x"

definition fieldVarint :: "int \<Rightarrow> int \<Rightarrow> byte list" where
  "fieldVarint tag value = encodeVarint (i64 (push_bit 3 tag)) @ encodeVarint value"

definition fieldBytes :: "int \<Rightarrow> byte list \<Rightarrow> byte list" where
  "fieldBytes tag payload =
     encodeVarint (i64 (push_bit 3 tag) OR 2) @ encodeVarint (int (length payload)) @ payload"

definition fieldString :: "int \<Rightarrow> string \<Rightarrow> byte list" where
  "fieldString tag value = fieldBytes tag (bytes_of value)"

text \<open>
  The wire format the fields are meant to be in: a key \<open>tag * 8 + type\<close>, then a varint
  (type 0) or a length and that many bytes (type 2). \<open>read_fields\<close> reads a whole message.
\<close>

datatype wire_value = WVarint nat | WBytes "byte list"

definition read_field :: "byte list \<Rightarrow> ((nat \<times> wire_value) \<times> byte list) option" where
  "read_field bs =
     (case ReadUvarint bs of (Inl _, _) \<Rightarrow> None
      | (Inr key, r) \<Rightarrow>
        (let tag = unat key div 8 in
         if unat key mod 8 = 0 then
           (case ReadUvarint r of (Inl _, _) \<Rightarrow> None
            | (Inr v, r') \<Rightarrow> Some ((tag, WVarint (unat v)), r'))
         else if unat key mod 8 = 2 then
           (case ReadUvarint r of (Inl _, _) \<Rightarrow> None
            | (Inr n, r') \<Rightarrow>
              if unat n \<le> length r' then Some ((tag, WBytes (take (unat n) r')), drop (unat n) r')
              else None)
         else None))"

function read_fields :: "byte list \<Rightarrow> (nat \<times> wire_value) list option" where
  "read_fields bs =
     (if bs = [] then Some []
      else case read_field bs of None \<Rightarrow> None
        | Some (f, r) \<Rightarrow>
            (if length r < length bs then map_option (Cons f) (read_fields r) else None))"
  by pat_completeness auto
termination
  by (relation "measure length") auto

declare read_fields.simps [simp del]

lemma nv_read:
  assumes "0 \<le> v" "v < 2 ^ 63"
  shows "ReadUvarint (encodeVarint v @ rest) = (Inr (word_of_nat (nat v)), rest)"
proof -
  have "encodeVarint v = put_varint (nat v)" using assms by (simp add: put_varint_def)
  with assms nv.read_put [of "nat v" rest] show ?thesis by simp
qed

lemma i64_small: "0 \<le> x \<Longrightarrow> x < 2 ^ 63 \<Longrightarrow> i64 x = x"
  unfolding i64_def by (rule signed_take_bit_int_eq_self) auto

lemma push3_bounds:
  assumes "0 \<le> t" "t < 2 ^ 60"
  shows "0 \<le> push_bit 3 (t :: int)" "push_bit 3 t < 2 ^ 63" "nat (push_bit 3 t) = 8 * nat t"
    "push_bit 3 t OR 2 = push_bit 3 t + 2" "push_bit 3 t + 2 < 2 ^ 63"
proof -
  show "0 \<le> push_bit 3 t" "push_bit 3 t < 2 ^ 63" "nat (push_bit 3 t) = 8 * nat t"
    "push_bit 3 t + 2 < 2 ^ 63"
    using assms by (auto simp: push_bit_eq_mult nat_mult_distrib)
  show "push_bit 3 t OR 2 = push_bit 3 t + 2"
    by (rule disjunctive_add [symmetric]) (auto simp: bit_simps)
qed

lemma unat_small: "n < 2 ^ 64 \<Longrightarrow> unat (word_of_nat n :: 64 word) = n"
  by (simp add: unat_of_nat)

lemma nv_read_ex:
  assumes "0 \<le> v" "v < 2 ^ 63"
  shows "\<exists>w. ReadUvarint (encodeVarint v @ rest) = (Inr w, rest) \<and> unat w = nat v"
proof -
  have "nat v < 2 ^ 64" using assms by auto
  then show ?thesis using nv_read [OF assms, of rest] unat_small [of "nat v"] by blast
qed

lemma read_field_fieldVarint:
  assumes "0 \<le> t" "t < 2 ^ 60" "0 \<le> v" "v < 2 ^ 63"
  shows "read_field (fieldVarint t v @ rest) = Some ((nat t, WVarint (nat v)), rest)"
proof -
  note p = push3_bounds [OF assms(1,2)]
  obtain k where k: "ReadUvarint (encodeVarint (push_bit 3 t) @ encodeVarint v @ rest) =
      (Inr k, encodeVarint v @ rest)" "unat k = 8 * nat t"
    using nv_read_ex [OF p(1,2)] p(3) by metis
  obtain w where w: "ReadUvarint (encodeVarint v @ rest) = (Inr w, rest)" "unat w = nat v"
    using nv_read_ex [OF assms(3,4)] by metis
  show ?thesis
    using i64_small [OF p(1,2)] by (simp add: read_field_def fieldVarint_def k w)
qed

lemma read_field_fieldBytes:
  assumes "0 \<le> t" "t < 2 ^ 60" "length bs < 2 ^ 63"
  shows "read_field (fieldBytes t bs @ rest) = Some ((nat t, WBytes bs), rest)"
proof -
  note p = push3_bounds [OF assms(1,2)]
  let ?l = "int (length bs)"
  have l: "0 \<le> ?l" "?l < 2 ^ 63"
    using assms(3) by simp_all
  have pos: "0 \<le> push_bit 3 t + 2" using p(1) by simp
  have key: "nat (push_bit 3 t + 2) = 8 * nat t + 2"
    using p(1,3) by (simp add: nat_add_distrib)
  obtain k where k: "ReadUvarint (encodeVarint (push_bit 3 t + 2) @ encodeVarint ?l @ bs @ rest) =
      (Inr k, encodeVarint ?l @ bs @ rest)" "unat k = 8 * nat t + 2"
    using nv_read_ex [OF pos p(5)] key by metis
  obtain w where w: "ReadUvarint (encodeVarint ?l @ bs @ rest) = (Inr w, bs @ rest)"
      "unat w = length bs"
    using nv_read_ex [OF l] by (metis nat_int)
  have "(8 * nat t + 2) div 8 = nat t" "(8 * nat t + 2) mod 8 = 2" by presburger+
  then show ?thesis
    using i64_small [OF p(1,2)] p(4) by (simp add: read_field_def fieldBytes_def k w)
qed

lemma read_fields_step:
  assumes "read_field (xs @ rest) = Some (f, rest)" "xs \<noteq> []"
  shows "read_fields (xs @ rest) = map_option (Cons f) (read_fields rest)"
  using assms by (subst read_fields.simps) simp

lemma encodeVarint_not_Nil [simp]: "encodeVarint v \<noteq> []"
  unfolding encodeVarint_def by (subst varint_loop.simps) (simp add: Let_def)

lemma read_fields_Nil [simp]: "read_fields [] = Some []"
  by (subst read_fields.simps) simp

lemma read_fields_fieldVarint:
  assumes "0 \<le> t" "t < 2 ^ 60" "0 \<le> v" "v < 2 ^ 63"
  shows "read_fields (fieldVarint t v @ rest) = map_option (Cons (nat t, WVarint (nat v))) (read_fields rest)"
  using read_fields_step [OF read_field_fieldVarint [OF assms]] by (simp add: fieldVarint_def)

lemma read_fields_fieldBytes:
  assumes "0 \<le> t" "t < 2 ^ 60" "length bs < 2 ^ 63"
  shows "read_fields (fieldBytes t bs @ rest) = map_option (Cons (nat t, WBytes bs)) (read_fields rest)"
  using read_fields_step [OF read_field_fieldBytes [OF assms]] by (simp add: fieldBytes_def)

section \<open>Frames: \<open>applyFrame\<close>\<close>

definition applyFrame :: "string \<Rightarrow> byte list \<Rightarrow> byte list" where
  "applyFrame style msg =
     (let n = length msg in
      if style = ''raw'' then msg
      else if style = ''varint'' then encodeVarint (int n) @ msg
      else if style = ''u32be'' then
        [word_of_nat (drop_bit 24 n), word_of_nat (drop_bit 16 n), word_of_nat (drop_bit 8 n), word_of_nat n] @ msg
      else if style = ''u32le'' then
        [word_of_nat n, word_of_nat (drop_bit 8 n), word_of_nat (drop_bit 16 n), word_of_nat (drop_bit 24 n)] @ msg
      else msg)"

text \<open>The receiver's side of each style: the message a frame carries and the bytes after it.\<close>

definition take_msg :: "nat \<Rightarrow> byte list \<Rightarrow> (byte list \<times> byte list) option" where
  "take_msg n bs = (if n \<le> length bs then Some (take n bs, drop n bs) else None)"

definition u32 :: "byte \<Rightarrow> byte \<Rightarrow> byte \<Rightarrow> byte \<Rightarrow> nat" where
  "u32 a b c d = unat a * 2 ^ 24 + unat b * 2 ^ 16 + unat c * 2 ^ 8 + unat d"

definition unframe :: "string \<Rightarrow> byte list \<Rightarrow> (byte list \<times> byte list) option" where
  "unframe style bs =
     (if style = ''varint'' then
        (case ReadUvarint bs of (Inl _, _) \<Rightarrow> None | (Inr n, r) \<Rightarrow> take_msg (unat n) r)
      else if style = ''u32be'' then
        (case bs of a # b # c # d # r \<Rightarrow> take_msg (u32 a b c d) r | _ \<Rightarrow> None)
      else if style = ''u32le'' then
        (case bs of a # b # c # d # r \<Rightarrow> take_msg (u32 d c b a) r | _ \<Rightarrow> None)
      else Some (bs, []))"

lemma base256:
  "(n :: nat) = a * 2 ^ 8 + r0 \<Longrightarrow> a = b * 2 ^ 8 + r1 \<Longrightarrow> b = c * 2 ^ 8 + r2 \<Longrightarrow>
    c * 2 ^ 24 + r2 * 2 ^ 16 + r1 * 2 ^ 8 + r0 = n"
  by simp

lemma u32_bytes:
  assumes "n < 2 ^ 32"
  shows "u32 (word_of_nat (drop_bit 24 n)) (word_of_nat (drop_bit 16 n)) (word_of_nat (drop_bit 8 n))
    (word_of_nat n) = n"
proof -
  have lt: "n div 2 ^ 24 < 256" using assms by (simp add: less_mult_imp_div_less)
  have d: "n div 2 ^ 16 = n div 2 ^ 8 div 2 ^ 8" "n div 2 ^ 24 = n div 2 ^ 8 div 2 ^ 8 div 2 ^ 8"
    by (simp_all flip: div_mult2_eq)
  have "n div 2 ^ 24 * 2 ^ 24 + n div 2 ^ 16 mod 2 ^ 8 * 2 ^ 16 + n div 2 ^ 8 mod 2 ^ 8 * 2 ^ 8
      + n mod 2 ^ 8 = n"
    unfolding d by (rule base256; rule div_mult_mod_eq [symmetric])
  with lt show ?thesis
    by (simp add: u32_def unat_of_nat drop_bit_eq_div)
qed

lemma take_msg_append [simp]: "take_msg (length xs) (xs @ ys) = Some (xs, ys)"
  by (simp add: take_msg_def)

end
