(* ===== verification/Remote_Client.thy ===== *)
theory Remote_Client
  imports Go_Conn Keys NvProbe_Wire
begin

text \<open>
  \<open>internal/atvremote/remote.go\<close>: the client of the Android TV remote protocol. Its reader
  goroutine \<open>run\<close> answers the device's messages and keeps the state that the sending side
  looks at. The message type is the protocol package's; the record holds the fields the
  program uses. Writes happen under a mutex, so the reader and the sender each write whole
  frames.
\<close>

section \<open>Data\<close>

definition featurePing :: "32 word" where "featurePing = push_bit 0 1"
definition featureKey :: "32 word" where "featureKey = push_bit 1 1"
definition featurePower :: "32 word" where "featurePower = push_bit 5 1"
definition featureVolume :: "32 word" where "featureVolume = push_bit 6 1"
definition featureApp :: "32 word" where "featureApp = push_bit 9 1"
definition protoCode1 :: "32 word" where "protoCode1 = 622"

definition defaultFeatures :: "32 word" where
  "defaultFeatures = featurePing OR featureKey OR featurePower OR featureVolume OR featureApp"

datatype direction = SHORT | START_LONG | END_LONG

record remote_device_info =
  di_Model :: string
  di_Vendor :: string
  di_Unknown1 :: "32 word"
  di_Unknown2 :: string
  di_PackageName :: string
  di_AppVersion :: string

record remote_message =
  m_RemoteConfigure :: "(32 word \<times> remote_device_info option) option"
  m_RemoteSetActive :: "32 word option"
  m_RemotePingRequest :: "32 word option"
  m_RemotePingResponse :: "32 word option"
  m_RemoteStart :: "bool option"
  m_RemoteError :: "bool option"
  m_RemoteKeyInject :: "(keycode \<times> direction) option"
  m_RemoteAppLinkLaunchRequest :: "string option"

definition zero_message :: remote_message where
  "zero_message = \<lparr>m_RemoteConfigure = None, m_RemoteSetActive = None, m_RemotePingRequest = None,
     m_RemotePingResponse = None, m_RemoteStart = None, m_RemoteError = None,
     m_RemoteKeyInject = None, m_RemoteAppLinkLaunchRequest = None\<rparr>"

record send_key_params =
  sp_Host :: string
  sp_Port :: int
  sp_CertPath :: string
  sp_KeyPath :: string
  sp_ReadyTimeout :: int
  sp_PostDelay :: int

record send_key_result =
  kr_Host :: string
  kr_Port :: int
  kr_Action :: string
  kr_SupportedFeatures :: "32 word"
  kr_ActiveFeatures :: "32 word"
  kr_Powered :: bool
  kr_HasPowerState :: bool

text \<open>
  The client. A closed \<open>readyCh\<close> or \<open>startCh\<close> is a flag; \<open>rc_stopped\<close> says that \<open>run\<close> has
  returned.
\<close>

record remote_client =
  rc_conn :: conn
  rc_activeFeatures :: "32 word"
  rc_supportedBits :: "32 word"
  rc_powered :: bool
  rc_hasPowerState :: bool
  rc_lastErr :: "goerr option"
  rc_ready :: bool
  rc_started :: bool
  rc_stopped :: bool

definition newRemoteClient :: "conn \<Rightarrow> remote_client" where
  "newRemoteClient c = \<lparr>rc_conn = c, rc_activeFeatures = defaultFeatures, rc_supportedBits = 0,
     rc_powered = False, rc_hasPowerState = False, rc_lastErr = None, rc_ready = False,
     rc_started = False, rc_stopped = False\<rparr>"

section \<open>Messages on the wire\<close>

definition rc_readMessage :: "remote_message pb \<Rightarrow> remote_client \<Rightarrow> remote_message res \<times> remote_client" where
  "rc_readMessage pb c =
     (case conn_ReadUvarint (rc_conn c) of
        (Inl err, cn) \<Rightarrow> (Inl err, c\<lparr>rc_conn := cn\<rparr>)
      | (Inr sz, cn) \<Rightarrow>
          if sz = 0 then (Inr zero_message, c\<lparr>rc_conn := cn\<rparr>)
          else if 4 * 1024 * 1024 < sz
          then (Inl (Errorf ''incoming message too large: %d'' [FI (uint sz)] None), c\<lparr>rc_conn := cn\<rparr>)
          else
            (case conn_ReadFull (unat sz) cn of
               (Inl err, cn) \<Rightarrow> (Inl err, c\<lparr>rc_conn := cn\<rparr>)
             | (Inr raw, cn) \<Rightarrow>
                 (case pb_Unmarshal pb raw of
                    Inl err \<Rightarrow> (Inl (wrap_err ''protobuf unmarshal: %w'' err), c\<lparr>rc_conn := cn\<rparr>)
                  | Inr msg \<Rightarrow> (Inr msg, c\<lparr>rc_conn := cn\<rparr>))))"

definition rc_writeMessage :: "remote_message pb \<Rightarrow> remote_message \<Rightarrow> remote_client \<Rightarrow> goerr option \<times> remote_client" where
  "rc_writeMessage pb msg c =
     (case pb_Marshal pb msg of
        Inl err \<Rightarrow> (Some (wrap_err ''protobuf marshal: %w'' err), c)
      | Inr raw \<Rightarrow>
          (case conn_Write (pb_AppendVarint pb (length raw)) (rc_conn c) of
             (Some err, cn) \<Rightarrow> (Some (wrap_err ''write prefix: %w'' err), c\<lparr>rc_conn := cn\<rparr>)
           | (None, cn) \<Rightarrow>
               (case conn_Write raw cn of
                  (Some err, cn) \<Rightarrow> (Some (wrap_err ''write payload: %w'' err), c\<lparr>rc_conn := cn\<rparr>)
                | (None, cn) \<Rightarrow> (None, c\<lparr>rc_conn := cn\<rparr>))))"

section \<open>The reader\<close>

definition setErr :: "goerr \<Rightarrow> remote_client \<Rightarrow> remote_client" where
  "setErr err c = (if rc_lastErr c = None then c\<lparr>rc_lastErr := Some err\<rparr> else c)"

definition getErr :: "remote_client \<Rightarrow> goerr option" where "getErr c = rc_lastErr c"
definition markReady :: "remote_client \<Rightarrow> remote_client" where "markReady c = c\<lparr>rc_ready := True\<rparr>"
definition markStarted :: "remote_client \<Rightarrow> remote_client" where
  "markStarted c = c\<lparr>rc_started := True\<rparr>"
definition getPowerState :: "remote_client \<Rightarrow> bool \<times> bool" where
  "getPowerState c = (rc_powered c, rc_hasPowerState c)"
definition getFeatures :: "remote_client \<Rightarrow> 32 word \<times> 32 word" where
  "getFeatures c = (rc_supportedBits c, rc_activeFeatures c)"

definition configure_reply :: remote_message where
  "configure_reply = zero_message\<lparr>m_RemoteConfigure := Some (protoCode1, Some
     \<lparr>di_Model = ''shrmt'', di_Vendor = ''shrmt'', di_Unknown1 = 1, di_Unknown2 = ''1'',
      di_PackageName = ''shrmt'', di_AppVersion = ''0.1.0''\<rparr>)\<rparr>"

definition handleIncoming ::
  "remote_message pb \<Rightarrow> remote_message \<Rightarrow> remote_client \<Rightarrow> goerr option \<times> remote_client" where
  "handleIncoming pb msg c =
     (case m_RemoteConfigure msg of
        Some (code1, _) \<Rightarrow>
          rc_writeMessage pb configure_reply (c\<lparr>rc_supportedBits := code1, rc_activeFeatures := protoCode1\<rparr>)
      | None \<Rightarrow>
     (case m_RemoteSetActive msg of
        Some _ \<Rightarrow>
          (case rc_writeMessage pb (zero_message\<lparr>m_RemoteSetActive := Some protoCode1\<rparr>) c of
             (None, c) \<Rightarrow> (None, markReady c)
           | (Some err, c) \<Rightarrow> (Some err, c))
      | None \<Rightarrow>
     (case m_RemotePingRequest msg of
        Some val1 \<Rightarrow> rc_writeMessage pb (zero_message\<lparr>m_RemotePingResponse := Some val1\<rparr>) c
      | None \<Rightarrow>
     (case m_RemoteStart msg of
        Some started \<Rightarrow>
          (None, markReady (markStarted (c\<lparr>rc_powered := started, rc_hasPowerState := True\<rparr>)))
      | None \<Rightarrow>
     (case m_RemoteError msg of
        Some v \<Rightarrow>
          if v then (Some (new_err ''received remote_error from device''), c) else (None, c)
      | None \<Rightarrow> (None, c))))))"

text \<open>One round of the loop of \<open>run\<close>; it does nothing once \<open>run\<close> has returned.\<close>

definition run_round :: "remote_message pb \<Rightarrow> remote_client \<Rightarrow> remote_client" where
  "run_round pb c =
     (if rc_stopped c then c
      else
        (case rc_readMessage pb c of
           (Inl err, c) \<Rightarrow>
             (if \<not> errors_is err err_EOF \<and> \<not> errors_is err err_ErrClosed then setErr err c else c)
               \<lparr>rc_stopped := True\<rparr>
         | (Inr msg, c) \<Rightarrow>
             (case handleIncoming pb msg c of
                (Some err, c) \<Rightarrow> (setErr err c)\<lparr>rc_stopped := True\<rparr>
              | (None, c) \<Rightarrow> c)))"

definition run_rounds :: "remote_message pb \<Rightarrow> nat \<Rightarrow> remote_client \<Rightarrow> remote_client" where
  "run_rounds pb n c = (run_round pb ^^ n) c"

section \<open>Sending\<close>

definition sendKey ::
  "remote_message pb \<Rightarrow> keycode \<Rightarrow> direction \<Rightarrow> remote_client \<Rightarrow> goerr option \<times> remote_client" where
  "sendKey pb key dir c = rc_writeMessage pb (zero_message\<lparr>m_RemoteKeyInject := Some (key, dir)\<rparr>) c"

definition sendAppLink :: "remote_message pb \<Rightarrow> string \<Rightarrow> remote_client \<Rightarrow> goerr option \<times> remote_client" where
  "sendAppLink pb link c =
     rc_writeMessage pb (zero_message\<lparr>m_RemoteAppLinkLaunchRequest := Some link\<rparr>) c"

definition rc_close :: "remote_client \<Rightarrow> remote_client" where
  "rc_close c = c\<lparr>rc_conn := conn_Close (rc_conn c)\<rparr>"

text \<open>
  \<open>waitReady\<close> and \<open>waitStarted\<close> decide by what the reader has done when the timeout runs out:
  \<open>n\<close> is the number of rounds it had time for.
\<close>

definition waitReady :: "remote_message pb \<Rightarrow> nat \<Rightarrow> remote_client \<Rightarrow> goerr option \<times> remote_client" where
  "waitReady pb n c =
     (let c = run_rounds pb n c in
      (if rc_ready c then None else Some (new_err ''timeout waiting for remote_start''), c))"

definition waitStarted :: "remote_message pb \<Rightarrow> nat \<Rightarrow> int \<Rightarrow> remote_client \<Rightarrow> bool \<times> remote_client" where
  "waitStarted pb n timeout c =
     (if timeout \<le> 0 then (False, c)
      else (let c = run_rounds pb n c in (rc_started c, c)))"

section \<open>Lemmas\<close>

text \<open>What a write changes: the connection's output only.\<close>

lemma rc_writeMessage_frame:
  assumes "rc_writeMessage pb m c = (r, c')"
  shows "c' = c\<lparr>rc_conn := rc_conn c'\<rparr>" "cn_in (rc_conn c') = cn_in (rc_conn c)"
    "cn_closed (rc_conn c') = cn_closed (rc_conn c)"
  using assms
  by (auto simp: rc_writeMessage_def conn_Write_out(1,3) split: sum.splits prod.splits option.splits)

lemma rc_writeMessage_ok:
  assumes "pb_Marshal pb m = Inr raw" "\<not> cn_closed (rc_conn c)" "cn_room (rc_conn c) = None"
  shows "rc_writeMessage pb m c =
    (None, c\<lparr>rc_conn := (rc_conn c)\<lparr>cn_out := cn_out (rc_conn c) @ frame pb raw\<rparr>\<rparr>)"
  using assms by (simp add: rc_writeMessage_def conn_Write_unlimited frame_def)

lemma rc_readMessage_frame:
  assumes "rc_readMessage pb c = (r, c')"
  shows "c' = c\<lparr>rc_conn := (rc_conn c)\<lparr>cn_in := cn_in (rc_conn c')\<rparr>\<rparr>"
proof -
  obtain r1 k1 where 1: "conn_ReadUvarint (rc_conn c) = (r1, k1)" by fastforce
  then have k1: "k1 = (rc_conn c)\<lparr>cn_in := cn_in k1\<rparr>" by (rule conn_read_frame)
  show ?thesis
  proof (cases r1)
    case (Inl e)
    with 1 assms k1 show ?thesis by (auto simp: rc_readMessage_def)
  next
    case (Inr sz)
    obtain r2 k2 where 2: "conn_ReadFull (unat sz) k1 = (r2, k2)" by fastforce
    then have "k2 = k1\<lparr>cn_in := cn_in k2\<rparr>" by (rule conn_read_frame)
    with k1 have k2: "k2 = (rc_conn c)\<lparr>cn_in := cn_in k2\<rparr>"
      by (metis conn.fold_congs(1) conn.surjective conn.update_convs(1))
    from 1 2 Inr assms k1 k2 show ?thesis
      by (auto simp: rc_readMessage_def split: if_splits sum.splits)
  qed
qed

lemma rc_readMessage_less:
  assumes "rc_readMessage pb c = (Inr m, c')"
  shows "length (cn_in (rc_conn c')) < length (cn_in (rc_conn c))"
  using assms
  by (auto simp: rc_readMessage_def split: sum.splits prod.splits if_splits
      dest!: conn_ReadUvarint_less(1) conn_ReadFull_le)

lemma rc_readMessage_written:
  assumes "codec_ok pb zero_message" "pb_Marshal pb m = Inr raw" "length raw \<le> 4 * 1024 * 1024"
    and "cn_in (rc_conn c) = frame pb raw @ rest" "\<not> cn_closed (rc_conn c)"
  shows "rc_readMessage pb c = (Inr m, c\<lparr>rc_conn := (rc_conn c)\<lparr>cn_in := rest\<rparr>\<rparr>)"
proof -
  have len: "length raw < 2 ^ 63" using assms(3) by simp
  then have u: "unat (word_of_nat (length raw) :: 64 word) = length raw" by (simp add: unat_of_nat)
  have z: "(word_of_nat (length raw) :: 64 word) = 0 \<longleftrightarrow> raw = []"
    using u by (metis length_0_conv unat_0 word_unat_eq_iff)
  have le: "\<not> (4 * 1024 * 1024 :: 64 word) < word_of_nat (length raw)"
    using assms(3) u by (simp add: word_less_nat_alt)
  note rd = conn_ReadUvarint_frame [OF assms(1,4) len assms(5)]
  show ?thesis
  proof (cases "raw = []")
    case True
    with codec_okD(1,2) [OF assms(1)] assms(2) have "m = zero_message" by fastforce
    with True rd show ?thesis by (simp add: rc_readMessage_def)
  next
    case False
    with rd z le u assms(2,5) codec_okD(1) [OF assms(1)] show ?thesis
      by (simp add: rc_readMessage_def conn_ReadFull_append)
  qed
qed

lemma handleIncoming_in:
  assumes "handleIncoming pb m c = (r, c')"
  shows "cn_in (rc_conn c') = cn_in (rc_conn c)" "rc_stopped c' = rc_stopped c" "rc_lastErr c' = rc_lastErr c"
    "cn_closed (rc_conn c') = cn_closed (rc_conn c)"
proof -
  have w: "cn_in (rc_conn d') = cn_in (rc_conn d) \<and> rc_stopped d' = rc_stopped d \<and> rc_lastErr d' = rc_lastErr d \<and>
      cn_closed (rc_conn d') = cn_closed (rc_conn d)"
    if "rc_writeMessage pb x d = (r', d')" for x d d' r'
    using rc_writeMessage_frame [OF that] by (metis remote_client.select_convs(6,9) remote_client.surjective
        remote_client.update_convs(1))
  have "cn_in (rc_conn c') = cn_in (rc_conn c) \<and> rc_stopped c' = rc_stopped c \<and> rc_lastErr c' = rc_lastErr c \<and>
      cn_closed (rc_conn c') = cn_closed (rc_conn c)"
    using assms
    by (auto simp: handleIncoming_def markReady_def markStarted_def dest!: w
        split: option.splits prod.splits if_splits)
  then show "cn_in (rc_conn c') = cn_in (rc_conn c)" "rc_stopped c' = rc_stopped c" "rc_lastErr c' = rc_lastErr c"
    "cn_closed (rc_conn c') = cn_closed (rc_conn c)" by auto
qed

text \<open>Every round reads something or stops, so \<open>run\<close> returns once the input is used up.\<close>

lemma run_round_progress:
  "rc_stopped (run_round pb c) \<or> length (cn_in (rc_conn (run_round pb c))) < length (cn_in (rc_conn c))"
  by (auto simp: run_round_def split: sum.splits prod.splits option.splits
      dest!: handleIncoming_in(1) rc_readMessage_less)

lemma run_round_stopped: "rc_stopped c \<Longrightarrow> run_round pb c = c"
  by (simp add: run_round_def)

lemma run_rounds_stopped: "rc_stopped c \<Longrightarrow> run_rounds pb n c = c"
  by (induction n) (simp_all add: run_rounds_def run_round_stopped)

lemma run_rounds_Suc: "run_rounds pb (Suc n) c = run_rounds pb n (run_round pb c)"
  by (simp add: run_rounds_def funpow_swap1)

lemma run_rounds_0 [simp]: "run_rounds pb 0 c = c"
  by (simp add: run_rounds_def)

lemma run_rounds_ends: "length (cn_in (rc_conn c)) < n \<Longrightarrow> rc_stopped (run_rounds pb n c)"
proof (induction n arbitrary: c)
  case (Suc n)
  show ?case
  proof (cases "rc_stopped (run_round pb c)")
    case True
    then show ?thesis by (simp add: run_rounds_Suc run_rounds_stopped)
  next
    case False
    with run_round_progress [of pb c] Suc show ?thesis by (simp add: run_rounds_Suc)
  qed
qed simp

section \<open>The client as a state machine\<close>

text \<open>
  What can happen to a client after it was made on a connection: the reader takes a round, or
  the session sends a key or an app link, or closes it, in any order.
\<close>

inductive reachable :: "remote_message pb \<Rightarrow> conn \<Rightarrow> remote_client \<Rightarrow> bool" for pb cn where
  reach_new: "reachable pb cn (newRemoteClient cn)"
| reach_round: "reachable pb cn c \<Longrightarrow> reachable pb cn (run_round pb c)"
| reach_key: "reachable pb cn c \<Longrightarrow> reachable pb cn (snd (sendKey pb k d c))"
| reach_link: "reachable pb cn c \<Longrightarrow> reachable pb cn (snd (sendAppLink pb link c))"
| reach_close: "reachable pb cn c \<Longrightarrow> reachable pb cn (rc_close c)"

text \<open>The invariant on the fields that the sessions read.\<close>

definition client_inv :: "remote_client \<Rightarrow> bool" where
  "client_inv c \<longleftrightarrow>
     (rc_started c \<longrightarrow> rc_ready c) \<and>
     (rc_hasPowerState c \<longleftrightarrow> rc_started c) \<and>
     (rc_powered c \<longrightarrow> rc_hasPowerState c) \<and>
     (rc_activeFeatures c = defaultFeatures \<and> rc_supportedBits c = 0 \<or> rc_activeFeatures c = protoCode1) \<and>
     (rc_lastErr c \<noteq> None \<longrightarrow> rc_stopped c)"

lemma client_inv_conn [simp]: "client_inv (c\<lparr>rc_conn := k\<rparr>) = client_inv c"
  by (simp add: client_inv_def)

lemma client_inv_write: "client_inv c \<Longrightarrow> client_inv (snd (rc_writeMessage pb m c))"
proof -
  assume "client_inv c"
  obtain r c' where w: "rc_writeMessage pb m c = (r, c')" by fastforce
  then have "c' = c\<lparr>rc_conn := rc_conn c'\<rparr>" by (rule rc_writeMessage_frame)
  with \<open>client_inv c\<close> w show ?thesis by (metis client_inv_conn snd_conv)
qed

lemma client_inv_handle:
  assumes "client_inv c" "handleIncoming pb m c = (r, c')" "rc_lastErr c = None"
  shows "client_inv c'"
proof -
  have w: "client_inv d'" if "rc_writeMessage pb x d = (r', d')" "client_inv d" for x d r' d'
    using client_inv_write [OF that(2), of pb x] that(1) by simp
  have 1: "client_inv (c\<lparr>rc_supportedBits := a, rc_activeFeatures := protoCode1\<rparr>)" for a
    using assms(1) by (auto simp add: client_inv_def)
  have 2: "client_inv (markReady d)" if "client_inv d" for d
    using that by (auto simp add: client_inv_def markReady_def)
  have 3: "client_inv (markReady (markStarted (c\<lparr>rc_powered := v, rc_hasPowerState := True\<rparr>)))" for v
    using assms(1) by (auto simp add: client_inv_def markReady_def markStarted_def)
  from assms w 1 2 3 show ?thesis
    by (auto simp: handleIncoming_def split: option.splits prod.splits if_splits)
qed

lemma client_inv_round:
  assumes "client_inv c"
  shows "client_inv (run_round pb c)"
proof (cases "rc_stopped c")
  case True
  with assms show ?thesis by (simp add: run_round_stopped)
next
  case False
  with assms have ne: "rc_lastErr c = None" by (auto simp: client_inv_def)
  obtain r c1 where rd: "rc_readMessage pb c = (r, c1)" by fastforce
  then have c1: "client_inv c1" "rc_lastErr c1 = None"
    using rc_readMessage_frame [OF rd] assms ne
    by (metis client_inv_conn, metis remote_client.select_convs(6) remote_client.surjective
        remote_client.update_convs(1))
  have stop: "client_inv ((setErr e d)\<lparr>rc_stopped := True\<rparr>)" "client_inv (d\<lparr>rc_stopped := True\<rparr>)"
    if "client_inv d" for d e
    using that by (auto simp: client_inv_def setErr_def)
  show ?thesis
  proof (cases r)
    case (Inl e)
    with rd False c1 stop show ?thesis by (simp add: run_round_def)
  next
    case (Inr m)
    obtain r2 c2 where h: "handleIncoming pb m c1 = (r2, c2)" by fastforce
    then have "client_inv c2" using client_inv_handle c1 by blast
    with Inr rd False h stop show ?thesis by (auto simp: run_round_def split: option.split)
  qed
qed

lemma client_inv_reachable: "reachable pb cn c \<Longrightarrow> client_inv c"
proof (induction rule: reachable.induct)
  case reach_new
  then show ?case by (simp add: client_inv_def newRemoteClient_def)
next
  case (reach_round c)
  then show ?case by (simp add: client_inv_round)
next
  case (reach_close c)
  then show ?case by (simp add: rc_close_def)
qed (simp_all add: sendKey_def sendAppLink_def client_inv_write)

text \<open>
  What a write of a message does to the connection: it succeeds exactly when the whole frame
  of the message was written; when it fails, a proper beginning of the frame was, and the
  connection was closed or takes no more.
\<close>

definition encodes :: "'m pb \<Rightarrow> byte list \<Rightarrow> bool" where
  "encodes pb raw \<longleftrightarrow> (\<exists>m. pb_Marshal pb m = Inr raw)"

definition wrote_frame :: "'m pb \<Rightarrow> 'm \<Rightarrow> conn \<Rightarrow> goerr option \<Rightarrow> conn \<Rightarrow> bool" where
  "wrote_frame pb m k r k' \<longleftrightarrow>
     (case pb_Marshal pb m of
        Inl _ \<Rightarrow> r \<noteq> None \<and> k' = k
      | Inr raw \<Rightarrow>
          if r = None then cn_out k' = cn_out k @ frame pb raw
          else (\<exists>w y. cn_out k' = cn_out k @ w \<and> frame pb raw = w @ y \<and> y \<noteq> []) \<and>
            (cn_closed k \<and> k' = k \<or> cn_room k' = Some 0))"

lemma conn_Write_fails:
  assumes "conn_Write a k = (Some e, k')" "\<not> cn_closed k"
  shows "\<exists>n < length a. k' = k\<lparr>cn_out := cn_out k @ take n a, cn_room := Some 0\<rparr>"
  using assms by (auto simp: conn_Write_def not_le split: option.splits if_splits)

lemma wrote_writeMessage:
  assumes "codec_ok pb zero" "\<And>raw. pb_Marshal pb m = Inr raw \<Longrightarrow> length raw < 2 ^ 63"
    and "rc_writeMessage pb m c = (r, c')"
  shows "wrote_frame pb m (rc_conn c) r (rc_conn c')"
proof (cases "pb_Marshal pb m")
  case (Inl e)
  with assms(3) show ?thesis by (auto simp: rc_writeMessage_def wrote_frame_def)
next
  case (Inr raw)
  let ?p = "pb_AppendVarint pb (length raw)"
  have ne: "?p \<noteq> []"
  proof
    assume "?p = []"
    with codec_okD(3) [OF assms(1) assms(2) [OF Inr], of "[]"] show False by (simp add: ReadUvarint_def)
  qed
  obtain r1 k1 where w1: "conn_Write ?p (rc_conn c) = (r1, k1)" by fastforce
  obtain r2 k2 where w2: "conn_Write raw k1 = (r2, k2)" by fastforce
  have part: "\<exists>w y. cn_out (rc_conn c) @ take n bs = cn_out (rc_conn c) @ w \<and> bs @ rest = w @ y \<and> y \<noteq> []"
    if "n < length bs" for n and bs rest :: "byte list"
    using that by (intro exI [of _ "take n bs"] exI [of _ "drop n bs @ rest"]) simp
  show ?thesis
  proof (cases r1)
    case (Some e)
    then have rc: "r \<noteq> None" "rc_conn c' = k1" using assms(3) Inr w1 by (auto simp: rc_writeMessage_def)
    show ?thesis
    proof (cases "cn_closed (rc_conn c)")
      case True
      with w1 rc Inr ne show ?thesis by (auto simp: wrote_frame_def conn_Write_def frame_def)
    next
      case False
      with Some w1 obtain n where "n < length ?p" "k1 = (rc_conn c)\<lparr>cn_out := cn_out (rc_conn c) @ take n ?p, cn_room := Some 0\<rparr>"
        using conn_Write_fails by blast
      with part [of n ?p raw] rc Inr show ?thesis by (auto simp: wrote_frame_def frame_def)
    qed
  next
    case None
    then have k1: "cn_out k1 = cn_out (rc_conn c) @ ?p" "\<not> cn_closed k1"
      using w1 by (auto simp: conn_Write_def split: option.splits if_splits)
    have rc: "(r = None) = (r2 = None)" "rc_conn c' = k2" using assms(3) Inr w1 w2 None
      by (auto simp: rc_writeMessage_def split: option.splits)
    show ?thesis
    proof (cases r2)
      case r2: None
      then have "cn_out k2 = cn_out k1 @ raw"
        using w2 k1 by (auto simp: conn_Write_def split: option.splits if_splits)
      with k1 rc r2 Inr show ?thesis by (simp add: wrote_frame_def frame_def)
    next
      case (Some e)
      with w2 k1 obtain n where "n < length raw" "k2 = k1\<lparr>cn_out := cn_out k1 @ take n raw, cn_room := Some 0\<rparr>"
        using conn_Write_fails by blast
      then have "\<exists>w y. cn_out k2 = cn_out (rc_conn c) @ w \<and> frame pb raw = w @ y \<and> y \<noteq> []" "cn_room k2 = Some 0"
        using k1 by (auto simp: frame_def intro!: exI [of _ "drop n raw"])
      moreover have "r \<noteq> None" using rc(1) Some by simp
      ultimately show ?thesis using rc(2) Inr by (cases r) (simp_all add: wrote_frame_def)
    qed
  qed
qed

text \<open>The output is whole frames, but for the last one where a write failed.\<close>

definition out_inv :: "'m pb \<Rightarrow> conn \<Rightarrow> bool" where
  "out_inv pb k \<longleftrightarrow>
     (\<exists>raws z. cn_out k = concat (map (frame pb) raws) @ z \<and> list_all (encodes pb) raws \<and>
        (z = [] \<or> cn_room k = Some 0 \<and> (\<exists>raw y. encodes pb raw \<and> frame pb raw = z @ y \<and> y \<noteq> [])))"

text \<open>A connection that takes no more bytes keeps its output.\<close>

lemma full_write:
  assumes "rc_writeMessage pb m c = (r, c')" "cn_room (rc_conn c) = Some 0" "codec_ok pb zero"
    and "\<And>raw. pb_Marshal pb m = Inr raw \<Longrightarrow> length raw < 2 ^ 63"
  shows "cn_out (rc_conn c') = cn_out (rc_conn c)" "cn_room (rc_conn c') = Some 0"
proof -
  have "pb_AppendVarint pb (length raw) \<noteq> []" if "pb_Marshal pb m = Inr raw" for raw
  proof
    assume "pb_AppendVarint pb (length raw) = []"
    with codec_okD(3) [OF assms(3) assms(4) [OF that], of "[]"] show False by (simp add: ReadUvarint_def)
  qed
  then have "rc_conn c' = rc_conn c \<or>
      cn_out (rc_conn c') = cn_out (rc_conn c) \<and> cn_room (rc_conn c') = Some 0"
    using assms(1,2) by (auto simp: rc_writeMessage_def conn_Write_def split: sum.splits prod.splits option.splits if_splits)
  with assms(2) show "cn_out (rc_conn c') = cn_out (rc_conn c)" "cn_room (rc_conn c') = Some 0" by auto
qed

lemma out_inv_writeMessage:
  assumes "out_inv pb (rc_conn c)" "codec_ok pb zero_message"
    and "\<And>raw. pb_Marshal pb m = Inr raw \<Longrightarrow> length raw < 2 ^ 63"
  shows "out_inv pb (rc_conn (snd (rc_writeMessage pb m c)))"
proof -
  obtain r c' where w: "rc_writeMessage pb m c = (r, c')" by fastforce
  from assms(1) obtain raws z where out: "cn_out (rc_conn c) = concat (map (frame pb) raws) @ z"
    and en: "list_all (encodes pb) raws"
    and z: "z = [] \<or> cn_room (rc_conn c) = Some 0 \<and> (\<exists>raw y. encodes pb raw \<and> frame pb raw = z @ y \<and> y \<noteq> [])"
    unfolding out_inv_def by blast
  have wr: "wrote_frame pb m (rc_conn c) r (rc_conn c')" by (rule wrote_writeMessage [OF assms(2,3) w])
  show ?thesis
  proof (cases "z = []")
    case False
    with z have room: "cn_room (rc_conn c) = Some 0" by simp
    from full_write [OF w room assms(2,3)] room assms(1) w show ?thesis by (simp add: out_inv_def)
  next
    case True
    show ?thesis
    proof (cases "pb_Marshal pb m")
      case (Inl e)
      with wr w assms(1) show ?thesis by (simp add: wrote_frame_def)
    next
      case (Inr raw)
      then have e: "encodes pb raw" by (auto simp: encodes_def)
      consider "r = None" "cn_out (rc_conn c') = concat (map (frame pb) (raws @ [raw])) @ []"
        | "rc_conn c' = rc_conn c"
        | x y where "cn_out (rc_conn c') = concat (map (frame pb) raws) @ x" "frame pb raw = x @ y" "y \<noteq> []"
            "cn_room (rc_conn c') = Some 0"
        using wr Inr out True by (auto simp: wrote_frame_def split: if_splits)
      then show ?thesis
      proof cases
        case 1
        with e en show ?thesis unfolding w snd_conv out_inv_def by (intro exI [of _ "raws @ [raw]"] exI [of _ "[]"]) simp
      next
        case 2
        with w assms(1) show ?thesis by simp
      next
        case 3
        with e en show ?thesis unfolding w snd_conv out_inv_def by blast
      qed
    qed
  qed
qed

text \<open>Messages that fit a frame when they are encoded.\<close>

definition small_messages :: "'m pb \<Rightarrow> bool" where
  "small_messages pb \<longleftrightarrow> (\<forall>m raw. pb_Marshal pb m = Inr raw \<longrightarrow> length raw < 2 ^ 63)"

lemma out_inv_handle:
  assumes "out_inv pb (rc_conn c)" "codec_ok pb zero_message" "small_messages pb"
  shows "out_inv pb (rc_conn (snd (handleIncoming pb m c)))"
proof -
  have w: "out_inv pb (rc_conn (snd (rc_writeMessage pb x d)))" if "rc_conn d = rc_conn c" for x d
    using out_inv_writeMessage [of pb d x] assms that by (simp add: small_messages_def)
  let ?a = "zero_message\<lparr>m_RemoteSetActive := Some protoCode1\<rparr>"
  obtain r d where d: "rc_writeMessage pb ?a c = (r, d)" by fastforce
  with w [of c ?a] have "out_inv pb (rc_conn d)" by simp
  with assms(1) d show ?thesis
    by (simp add: handleIncoming_def markReady_def markStarted_def w split: option.split)
qed

lemma out_inv_in [simp]: "out_inv pb (k\<lparr>cn_in := x\<rparr>) = out_inv pb k"
  by (simp add: out_inv_def)

lemma out_inv_round:
  assumes "out_inv pb (rc_conn c)" "codec_ok pb zero_message" "small_messages pb"
  shows "out_inv pb (rc_conn (run_round pb c))"
proof -
  obtain r c1 where rd: "rc_readMessage pb c = (r, c1)" by fastforce
  then have 1: "out_inv pb (rc_conn c1)"
    using rc_readMessage_frame [OF rd] assms(1)
    by (metis out_inv_in remote_client.select_convs(1) remote_client.surjective remote_client.update_convs(1))
  then have "out_inv pb (rc_conn (snd (handleIncoming pb m c1)))" for m
    by (rule out_inv_handle) (use assms in auto)
  with rd 1 assms(1) show ?thesis
    by (auto simp: run_round_def setErr_def split: option.split prod.split sum.split)
      (metis snd_conv)+
qed

lemma out_inv_reachable:
  assumes "reachable pb cn c" "cn_out cn = []" "codec_ok pb zero_message" "small_messages pb"
  shows "out_inv pb (rc_conn c)"
  using assms(1)
proof (induction rule: reachable.induct)
  case reach_new
  show ?case using assms(2)
    by (simp add: newRemoteClient_def out_inv_def) (rule exI [of _ "[]"], simp)
next
  case (reach_round c)
  then show ?case using out_inv_round assms by blast
next
  case (reach_close c)
  then show ?case by (simp add: rc_close_def conn_Close_def out_inv_def)
qed (use assms in \<open>simp_all add: sendKey_def sendAppLink_def out_inv_writeMessage small_messages_def\<close>)

section \<open>The protocol on messages\<close>

text \<open>The answer the client owes to a message, and what a message does to its state.\<close>

definition answer :: "remote_message \<Rightarrow> remote_message option" where
  "answer m =
     (if m_RemoteConfigure m \<noteq> None then Some configure_reply
      else if m_RemoteSetActive m \<noteq> None then Some (zero_message\<lparr>m_RemoteSetActive := Some protoCode1\<rparr>)
      else case m_RemotePingRequest m of
          Some v \<Rightarrow> Some (zero_message\<lparr>m_RemotePingResponse := Some v\<rparr>)
        | None \<Rightarrow> None)"

definition starts :: "remote_message \<Rightarrow> bool option" where
  "starts m = (if answer m = None then m_RemoteStart m else None)"

definition readies :: "remote_message \<Rightarrow> bool" where
  "readies m \<longleftrightarrow> m_RemoteConfigure m = None \<and> m_RemoteSetActive m \<noteq> None \<or> starts m \<noteq> None"

definition is_error :: "remote_message \<Rightarrow> bool" where
  "is_error m \<longleftrightarrow> answer m = None \<and> m_RemoteStart m = None \<and> m_RemoteError m = Some True"

definition answers :: "remote_message pb \<Rightarrow> remote_message \<Rightarrow> byte list list" where
  "answers pb m =
     (case answer m of None \<Rightarrow> [] | Some a \<Rightarrow>
        (case pb_Marshal pb a of Inl _ \<Rightarrow> [] | Inr raw \<Rightarrow> [frame pb raw]))"

definition answerable :: "remote_message pb \<Rightarrow> remote_message \<Rightarrow> bool" where
  "answerable pb m \<longleftrightarrow> (\<forall>a. answer m = Some a \<longrightarrow> (\<exists>raw. pb_Marshal pb a = Inr raw))"

text \<open>A live client: connected, with room to write, its reader running, no error so far.\<close>

definition live :: "remote_client \<Rightarrow> bool" where
  "live c \<longleftrightarrow> \<not> cn_closed (rc_conn c) \<and> cn_room (rc_conn c) = None \<and> \<not> rc_stopped c \<and> rc_lastErr c = None"

lemma handle_spec:
  assumes "live c" "answerable pb m" "\<not> is_error m" "handleIncoming pb m c = (r, c')"
  shows "r = None" "live c'" "cn_in (rc_conn c') = cn_in (rc_conn c)"
    "cn_out (rc_conn c') = cn_out (rc_conn c) @ concat (answers pb m)"
    "rc_ready c' \<longleftrightarrow> rc_ready c \<or> readies m"
    "getPowerState c' = (case starts m of None \<Rightarrow> getPowerState c | Some v \<Rightarrow> (v, True))"
proof -
  have "r = None \<and> live c' \<and> cn_in (rc_conn c') = cn_in (rc_conn c) \<and>
    cn_out (rc_conn c') = cn_out (rc_conn c) @ concat (answers pb m) \<and>
    (rc_ready c' \<longleftrightarrow> rc_ready c \<or> readies m) \<and>
    getPowerState c' = (case starts m of None \<Rightarrow> getPowerState c | Some v \<Rightarrow> (v, True))"
  proof (cases "answer m")
    case None
    then show ?thesis
      using assms
      by (auto simp: handleIncoming_def answer_def starts_def readies_def is_error_def answers_def
          live_def markReady_def markStarted_def getPowerState_def split: option.splits if_splits)
  next
    case (Some a)
    then obtain raw where raw: "pb_Marshal pb a = Inr raw" using assms(2) by (auto simp: answerable_def)
    then have w: "rc_writeMessage pb a d =
        (None, d\<lparr>rc_conn := (rc_conn d)\<lparr>cn_out := cn_out (rc_conn d) @ frame pb raw\<rparr>\<rparr>)"
      if "\<not> cn_closed (rc_conn d)" "cn_room (rc_conn d) = None" for d
      using that by (simp add: rc_writeMessage_ok)
    show ?thesis
      using assms(1,4) Some raw w
      by (auto simp: handleIncoming_def answer_def starts_def readies_def answers_def
          live_def markReady_def getPowerState_def split: option.splits if_splits)
  qed
  then show "r = None" "live c'" "cn_in (rc_conn c') = cn_in (rc_conn c)"
    "cn_out (rc_conn c') = cn_out (rc_conn c) @ concat (answers pb m)"
    "rc_ready c' \<longleftrightarrow> rc_ready c \<or> readies m"
    "getPowerState c' = (case starts m of None \<Rightarrow> getPowerState c | Some v \<Rightarrow> (v, True))"
    by auto
qed

text \<open>The stream of a list of messages.\<close>

fun encoded :: "'m pb \<Rightarrow> nat \<Rightarrow> 'm list \<Rightarrow> byte list option" where
  "encoded pb lim [] = Some []"
| "encoded pb lim (m # ms) =
     (case (pb_Marshal pb m, encoded pb lim ms) of
        (Inr raw, Some bs) \<Rightarrow> if length raw \<le> lim then Some (frame pb raw @ bs) else None
      | _ \<Rightarrow> None)"

definition last_start :: "remote_message list \<Rightarrow> bool \<times> bool \<Rightarrow> bool \<times> bool" where
  "last_start ms p = foldl (\<lambda>p m. case starts m of None \<Rightarrow> p | Some v \<Rightarrow> (v, True)) p ms"

lemma run_rounds_spec:
  assumes "codec_ok pb zero_message" "encoded pb (4 * 1024 * 1024) ms = Some bs"
    and "\<forall>m \<in> set ms. answerable pb m \<and> \<not> is_error m"
    and "live c" "cn_in (rc_conn c) = bs @ rest"
  shows "live (run_rounds pb (length ms) c) \<and> cn_in (rc_conn (run_rounds pb (length ms) c)) = rest \<and>
    cn_out (rc_conn (run_rounds pb (length ms) c)) =
      cn_out (rc_conn c) @ concat (concat (map (answers pb) ms)) \<and>
    (rc_ready (run_rounds pb (length ms) c) \<longleftrightarrow> rc_ready c \<or> (\<exists>m \<in> set ms. readies m)) \<and>
    getPowerState (run_rounds pb (length ms) c) = last_start ms (getPowerState c)"
  using assms(2-)
proof (induction ms arbitrary: c bs)
  case Nil
  then show ?case by (simp add: last_start_def)
next
  case (Cons m ms)
  from Cons.prems(1) obtain raw bs' where raw: "pb_Marshal pb m = Inr raw" "encoded pb (4 * 1024 * 1024) ms = Some bs'"
    "length raw \<le> 4 * 1024 * 1024" "bs = frame pb raw @ bs'"
    by (auto split: sum.splits option.splits if_splits)
  let ?c1 = "c\<lparr>rc_conn := (rc_conn c)\<lparr>cn_in := bs' @ rest\<rparr>\<rparr>"
  have live1: "live ?c1" using Cons.prems(3) by (simp add: live_def)
  have rd: "rc_readMessage pb c = (Inr m, ?c1)"
    using raw Cons.prems(3,4) by (intro rc_readMessage_written [OF assms(1)]) (auto simp: live_def)
  obtain r c2 where h: "handleIncoming pb m ?c1 = (r, c2)" by fastforce
  have am: "answerable pb m" "\<not> is_error m" using Cons.prems(2) by auto
  note sp = handle_spec [OF live1 am h]
  have round: "run_round pb c = c2"
    using rd h sp(1) Cons.prems(3) by (simp add: run_round_def live_def)
  have "cn_in (rc_conn c2) = bs' @ rest" using sp(3) by simp
  with Cons.IH [OF raw(2) _ sp(2)] Cons.prems(2)
  have ih: "live (run_rounds pb (length ms) c2) \<and> cn_in (rc_conn (run_rounds pb (length ms) c2)) = rest \<and>
    cn_out (rc_conn (run_rounds pb (length ms) c2)) =
      cn_out (rc_conn c2) @ concat (concat (map (answers pb) ms)) \<and>
    (rc_ready (run_rounds pb (length ms) c2) \<longleftrightarrow> rc_ready c2 \<or> (\<exists>m \<in> set ms. readies m)) \<and>
    getPowerState (run_rounds pb (length ms) c2) = last_start ms (getPowerState c2)" by simp
  have gp: "getPowerState ?c1 = getPowerState c" "rc_ready ?c1 = rc_ready c" by (simp_all add: getPowerState_def)
  have "getPowerState c2 = (case starts m of None \<Rightarrow> getPowerState c | Some v \<Rightarrow> (v, True))"
    using sp(6) unfolding gp(1) .
  then have ls: "last_start (m # ms) (getPowerState c) = last_start ms (getPowerState c2)"
    by (simp add: last_start_def)
  from ih sp(4,5) round gp(2) show ?case
    by (simp add: run_rounds_Suc ls)
qed

section \<open>Properties\<close>

text \<open>A codec of a few messages for the witnesses, with the program's own varint writer.\<close>

definition ping :: remote_message where "ping = zero_message\<lparr>m_RemotePingRequest := Some 7\<rparr>"
definition pong :: remote_message where "pong = zero_message\<lparr>m_RemotePingResponse := Some 7\<rparr>"
definition start :: remote_message where "start = zero_message\<lparr>m_RemoteStart := Some True\<rparr>"

definition few_pb :: "remote_message pb" where
  "few_pb =
     \<lparr>pb_Marshal = (\<lambda>m. if m = zero_message then Inr [] else if m = ping then Inr [1]
        else if m = pong then Inr [2] else if m = start then Inr [3] else Inl (new_err ''other'')),
      pb_Unmarshal = (\<lambda>bs. if bs = [] then Inr zero_message else if bs = [1] then Inr ping
        else if bs = [2] then Inr pong else if bs = [3] then Inr start else Inl (new_err ''other'')),
      pb_AppendVarint = put_varint\<rparr>"

lemma few_pb_ok: "codec_ok few_pb zero_message" "small_messages few_pb"
  by (auto simp: codec_ok_def small_messages_def few_pb_def nv.read_put split: if_splits)

text \<open>
  In every state of a client that reader rounds, sent keys, sent links and closing can lead
  to: it is ready once the device started it, it has a power state exactly then, its features
  are the default ones until a configuration arrived and the program's own from then on, and
  an error is only recorded by a reader that has returned.
\<close>

theorem client_state_invariant:
  assumes "reachable pb cn c"
  shows "(rc_started c \<longrightarrow> rc_ready c) \<and> (snd (getPowerState c) \<longleftrightarrow> rc_started c) \<and>
    (getFeatures c = (0, defaultFeatures) \<or> snd (getFeatures c) = protoCode1) \<and>
    (getErr c \<noteq> None \<longrightarrow> rc_stopped c)"
  using client_inv_reachable [OF assms]
  by (auto simp: client_inv_def getPowerState_def getFeatures_def getErr_def)

theorem client_state_invariant_witness:
  "rc_ready (run_round few_pb (newRemoteClient
     \<lparr>cn_in = [1, 3], cn_end = err_EOF, cn_closed = False, cn_out = [], cn_room = None\<rparr>))"
proof -
  let ?k = "\<lparr>cn_in = [1, 3], cn_end = err_EOF, cn_closed = False, cn_out = [], cn_room = None\<rparr>"
  have "reachable few_pb ?k (run_round few_pb (newRemoteClient ?k))"
    by (intro reach_round reach_new)
  from client_state_invariant [OF this]
  have "rc_started (run_round few_pb (newRemoteClient ?k)) \<longrightarrow> rc_ready (run_round few_pb (newRemoteClient ?k))"
    by simp
  moreover have "rc_started (run_round few_pb (newRemoteClient ?k))" by code_simp
  ultimately show ?thesis by simp
qed

text \<open>
  C18: The reader answers the protocol. When the device sends a list of messages, none of them
  an error, the client writes one answer to each message that asks for one, in their order
  (the configuration, the active mask, the value of the ping) and nothing else, and ends
  ready and with the power state that the messages say, having recorded no error.
\<close>

theorem reader_answers:
  assumes "codec_ok pb zero_message" "encoded pb (4 * 1024 * 1024) ms = Some bs"
    and "\<forall>m \<in> set ms. answerable pb m \<and> \<not> is_error m"
    and "cn_in cn = bs @ rest" "\<not> cn_closed cn" "cn_room cn = None"
    and "c = run_rounds pb (length ms) (newRemoteClient cn)"
  shows "cn_out (rc_conn c) = cn_out cn @ concat (concat (map (answers pb) ms)) \<and>
    cn_in (rc_conn c) = rest \<and> (rc_ready c \<longleftrightarrow> (\<exists>m \<in> set ms. readies m)) \<and>
    getPowerState c = last_start ms (False, False) \<and> getErr c = None"
proof -
  have "live (newRemoteClient cn)" using assms(5,6) by (simp add: live_def newRemoteClient_def)
  moreover have "cn_in (rc_conn (newRemoteClient cn)) = bs @ rest" using assms(4) by (simp add: newRemoteClient_def)
  ultimately show ?thesis
    using run_rounds_spec [OF assms(1-3)] unfolding assms(7)
    by (auto simp: live_def getErr_def newRemoteClient_def getPowerState_def)
qed

theorem reader_answers_witness:
  "cn_out (rc_conn (run_rounds few_pb 2 (newRemoteClient
     \<lparr>cn_in = [1, 1, 1, 3], cn_end = err_EOF, cn_closed = False, cn_out = [], cn_room = None\<rparr>))) = [1, 2]"
proof -
  let ?k = "\<lparr>cn_in = [1, 1, 1, 3], cn_end = err_EOF, cn_closed = False, cn_out = [], cn_room = None\<rparr>"
  have v: "put_varint (Suc 0) = [1]" by code_simp
  have "ping \<noteq> zero_message" "start \<noteq> zero_message" "start \<noteq> ping" "start \<noteq> pong"
    by (simp_all add: ping_def start_def pong_def zero_message_def)
  then have e: "encoded few_pb (4 * 1024 * 1024) [ping, start] = Some [1, 1, 1, 3]"
    by (simp add: few_pb_def frame_def v)
  have p: "pb_Marshal few_pb pong = Inr [2]" by code_simp
  have a: "answer ping = Some pong" "answer start = None" "\<not> is_error ping" "\<not> is_error start"
    by code_simp+
  have "answers few_pb ping = [[1, 2]]" "answers few_pb start = []" by code_simp+
  then show ?thesis
    using reader_answers [OF few_pb_ok(1) e _ _ _ _ refl, of ?k "[]"] a p
    by (simp add: answerable_def numeral_2_eq_2)
qed

text \<open>
  C7: However the reader's answers and the session's commands are interleaved, and wherever a
  write fails, the bytes sent to the device are whole frames of encoded messages, one after the
  other; only when the connection takes no more may a proper piece of one more frame follow.
  And each message that is written next, a key, a link or an answer of the reader, is reported
  as sent exactly when its whole frame was written: when the write fails, less than its frame
  was, on a connection that was closed or takes no more.
\<close>

theorem output_whole_frames:
  assumes "reachable pb cn c" "cn_out cn = []" "codec_ok pb zero_message" "small_messages pb"
  shows "(\<exists>raws z. cn_out (rc_conn c) = concat (map (frame pb) raws) @ z \<and>
      (\<forall>raw \<in> set raws. \<exists>m. pb_Marshal pb m = Inr raw) \<and>
      (z = [] \<or> cn_room (rc_conn c) = Some 0 \<and>
        (\<exists>raw y. (\<exists>m. pb_Marshal pb m = Inr raw) \<and> frame pb raw = z @ y \<and> y \<noteq> []))) \<and>
    (\<forall>m r c'. rc_writeMessage pb m c = (r, c') \<longrightarrow> wrote_frame pb m (rc_conn c) r (rc_conn c')) \<and>
    (\<forall>k d r c'. sendKey pb k d c = (r, c') \<longrightarrow>
      wrote_frame pb (zero_message\<lparr>m_RemoteKeyInject := Some (k, d)\<rparr>) (rc_conn c) r (rc_conn c')) \<and>
    (\<forall>l r c'. sendAppLink pb l c = (r, c') \<longrightarrow>
      wrote_frame pb (zero_message\<lparr>m_RemoteAppLinkLaunchRequest := Some l\<rparr>) (rc_conn c) r (rc_conn c'))"
proof -
  have w: "wrote_frame pb m (rc_conn c) r (rc_conn c')" if "rc_writeMessage pb m c = (r, c')" for m r c'
    using assms(4) wrote_writeMessage [OF assms(3) _ that] by (simp add: small_messages_def)
  have "\<exists>raws z. cn_out (rc_conn c) = concat (map (frame pb) raws) @ z \<and> list_all (encodes pb) raws \<and>
      (z = [] \<or> cn_room (rc_conn c) = Some 0 \<and> (\<exists>raw y. encodes pb raw \<and> frame pb raw = z @ y \<and> y \<noteq> []))"
    using out_inv_reachable [OF assms] unfolding out_inv_def .
  with w show ?thesis unfolding encodes_def list_all_iff by (simp add: sendKey_def sendAppLink_def)
qed

text \<open>A connection that takes one byte: the answer to a ping is cut off, and its write fails.\<close>

theorem output_whole_frames_witness:
  "\<exists>raws z. cn_out (rc_conn (run_round few_pb (newRemoteClient
     \<lparr>cn_in = [1, 1], cn_end = err_EOF, cn_closed = False, cn_out = [], cn_room = Some 1\<rparr>))) =
   concat (map (frame few_pb) raws) @ z \<and> (\<forall>raw \<in> set raws. \<exists>m. pb_Marshal few_pb m = Inr raw)"
proof -
  let ?k = "\<lparr>cn_in = [1, 1], cn_end = err_EOF, cn_closed = False, cn_out = [], cn_room = Some 1\<rparr>"
  have "reachable few_pb ?k (run_round few_pb (newRemoteClient ?k))" by (rule reach_round [OF reach_new])
  from output_whole_frames [OF this _ few_pb_ok] show ?thesis by auto
qed

text \<open>
  C33: The reader returns: each round reads at least one byte or ends the loop, so after as many
  rounds as there are bytes, and one more, \<open>run\<close> has returned, whatever the bytes are.
\<close>

theorem reader_terminates:
  "rc_stopped (run_rounds pb (Suc (length (cn_in cn))) (newRemoteClient cn))"
  by (rule run_rounds_ends) (simp add: newRemoteClient_def)

end
