(* ===== verification/Go_Net.thy ===== *)
theory Go_Net
  imports Go_Strings
begin

text \<open>
  Host and port strings: \<open>net.JoinHostPort\<close> and \<open>net.SplitHostPort\<close>, and the helpers
  \<open>endpoint\<close> and \<open>inferServerName\<close> of the program, which the Android TV client and the probes
  share. Whether a string is an IP address is what \<open>net.ParseIP\<close> decides; it is the argument
  \<open>isIP\<close> of the definitions that ask it.
\<close>

fun IndexByte :: "char \<Rightarrow> string \<Rightarrow> nat option" where
  "IndexByte c [] = None"
| "IndexByte c (x # xs) = (if x = c then Some 0 else map_option Suc (IndexByte c xs))"

definition LastIndexByte :: "char \<Rightarrow> string \<Rightarrow> nat option" where
  "LastIndexByte c s = map_option (\<lambda>i. length s - 1 - i) (IndexByte c (rev s))"

definition JoinHostPort :: "string \<Rightarrow> string \<Rightarrow> string" where
  "JoinHostPort host port =
     (if IndexByte (CHR '':'') host \<noteq> None then ''['' @ host @ '']:'' @ port
      else host @ '':'' @ port)"

definition addr_err :: "string \<Rightarrow> string \<Rightarrow> goerr" where
  "addr_err why addr = Errorf ''address %s: %s'' [FS addr, FS why] None"

text \<open>\<open>SplitHostPort\<close> from the index of the last colon on: the host and what follows it.\<close>

definition split_host :: "nat \<Rightarrow> string \<Rightarrow> (string \<times> nat \<times> nat) res" where
  "split_host i hp =
     (if hp \<noteq> [] \<and> hd hp = CHR ''['' then
        (case IndexByte (CHR '']'') hp of
           None \<Rightarrow> Inl (addr_err ''missing bracket in address'' hp)
         | Some e \<Rightarrow>
             if e + 1 = length hp then Inl (addr_err ''missing port in address'' hp)
             else if e + 1 = i then Inr (take (e - 1) (drop 1 hp), 1, e + 1)
             else if hp ! (e + 1) = CHR '':'' then Inl (addr_err ''too many colons in address'' hp)
             else Inl (addr_err ''missing port in address'' hp))
      else
        (let host = take i hp in
         if IndexByte (CHR '':'') host \<noteq> None then Inl (addr_err ''too many colons in address'' hp)
         else Inr (host, 0, 0)))"

definition SplitHostPort :: "string \<Rightarrow> (string \<times> string) res" where
  "SplitHostPort hp =
     (case LastIndexByte (CHR '':'') hp of
        None \<Rightarrow> Inl (addr_err ''missing port in address'' hp)
      | Some i \<Rightarrow>
          (case split_host i hp of
             Inl err \<Rightarrow> Inl err
           | Inr (host, j, k) \<Rightarrow>
               if IndexByte (CHR ''['') (drop j hp) \<noteq> None
               then Inl (addr_err ''unexpected opening bracket in address'' hp)
               else if IndexByte (CHR '']'') (drop k hp) \<noteq> None
               then Inl (addr_err ''unexpected closing bracket in address'' hp)
               else Inr (host, drop (i + 1) hp)))"

definition endpoint :: "string \<Rightarrow> int \<Rightarrow> string" where
  "endpoint host port = JoinHostPort host (Itoa port)"

text \<open>\<open>inferServerName\<close>: the name for the TLS handshake, empty for an IP address.\<close>

definition unbracket :: "string \<Rightarrow> string" where
  "unbracket host =
     (if HasPrefix host ''['' \<and> HasSuffix host '']''
      then TrimPrefix (TrimSuffix host '']'') ''['' else host)"

definition strip_zone :: "string \<Rightarrow> string" where
  "strip_zone host = (case IndexByte (CHR ''%'') host of Some i \<Rightarrow> take i host | None \<Rightarrow> host)"

definition inferServerName :: "(string \<Rightarrow> bool) \<Rightarrow> string \<Rightarrow> string" where
  "inferServerName isIP host =
     (let host = TrimSpace host in
      if host = [] then []
      else
        (let host = (case SplitHostPort host of Inr (parsedHost, _) \<Rightarrow> parsedHost | Inl _ \<Rightarrow> host);
             host = strip_zone (unbracket host)
         in if isIP host then [] else host))"

section \<open>Lemmas\<close>

lemma IndexByte_None: "IndexByte c s = None \<longleftrightarrow> c \<notin> set s"
  by (induction s) auto

lemma IndexByte_Some: "IndexByte c s = Some i \<Longrightarrow> i < length s \<and> s ! i = c \<and> c \<notin> set (take i s)"
  by (induction s arbitrary: i) (auto split: if_splits)

lemma IndexByte_append: "c \<notin> set a \<Longrightarrow> IndexByte c (a @ c # b) = Some (length a)"
  by (induction a) auto

lemma LastIndexByte_append: "c \<notin> set b \<Longrightarrow> LastIndexByte c (a @ c # b) = Some (length a)"
  by (simp add: LastIndexByte_def IndexByte_append)

lemma digits_chars: "c \<in> set (nat_digits n) \<Longrightarrow> is_digit_char c"
proof -
  assume "c \<in> set (nat_digits n)"
  moreover have "list_all is_digit_char (nat_digits n)"
    using digits_val_nat_digits [of n] digits_val_digits by blast
  ultimately show ?thesis by (auto simp: list_all_iff)
qed

lemma Itoa_chars: "c \<in> set (Itoa i) \<Longrightarrow> c = CHR ''-'' \<or> is_digit_char c"
  by (auto simp: Itoa_def split: if_splits dest: digits_chars)

lemma Itoa_no: "CHR '':'' \<notin> set (Itoa i)" "CHR ''['' \<notin> set (Itoa i)" "CHR '']'' \<notin> set (Itoa i)"
  using Itoa_chars [of "CHR '':''" i] Itoa_chars [of "CHR ''[''" i] Itoa_chars [of "CHR '']''" i]
  by (auto simp: is_digit_char_def)

text \<open>A host of any family and a port come back from the string they are joined to.\<close>

lemma SplitHostPort_Join:
  assumes "CHR ''['' \<notin> set host" "CHR '']'' \<notin> set host"
    and "CHR '':'' \<notin> set port" "CHR ''['' \<notin> set port" "CHR '']'' \<notin> set port"
  shows "SplitHostPort (JoinHostPort host port) = Inr (host, port)"
proof (cases "CHR '':'' \<in> set host")
  case True
  let ?hp = "''['' @ host @ '']:'' @ port"
  have hp: "JoinHostPort host port = ?hp" using True by (simp add: JoinHostPort_def IndexByte_None)
  have li: "LastIndexByte (CHR '':'') ?hp = Some (length host + 2)"
    using LastIndexByte_append [OF assms(3), of "''['' @ host @ '']''"] by simp
  have e: "IndexByte (CHR '']'') ?hp = Some (length host + 1)"
    using IndexByte_append [of "CHR '']''" "''['' @ host" "'':'' @ port"] assms(2) by simp
  have "split_host (length host + 2) ?hp = Inr (host, 1, length host + 2)"
    using e by (simp add: split_host_def)
  moreover have "IndexByte (CHR ''['') (drop 1 ?hp) = None" "IndexByte (CHR '']'') (drop (length host + 2) ?hp) = None"
    using assms by (auto simp: IndexByte_None)
  ultimately show ?thesis using li by (simp add: SplitHostPort_def hp)
next
  case False
  let ?hp = "host @ '':'' @ port"
  have hp: "JoinHostPort host port = ?hp" using False by (simp add: JoinHostPort_def IndexByte_None)
  have li: "LastIndexByte (CHR '':'') ?hp = Some (length host)"
    using LastIndexByte_append [OF assms(3), of host] by simp
  have hd: "hd ?hp \<noteq> CHR ''[''" using assms(1) by (cases host) auto
  have "split_host (length host) ?hp = Inr (host, 0, 0)"
    using hd False by (simp add: split_host_def IndexByte_None)
  moreover have "CHR ''['' \<notin> set ?hp" "CHR '']'' \<notin> set ?hp" using assms by auto
  ultimately show ?thesis using li by (simp add: SplitHostPort_def hp IndexByte_None)
qed

lemma endpoint_split:
  "CHR ''['' \<notin> set host \<Longrightarrow> CHR '']'' \<notin> set host \<Longrightarrow>
    SplitHostPort (endpoint host port) = Inr (host, Itoa port)"
  by (simp add: endpoint_def SplitHostPort_Join Itoa_no)

lemma strip_zone_no: "CHR ''%'' \<notin> set (strip_zone h)"
  by (auto simp: strip_zone_def IndexByte_None split: option.splits dest: IndexByte_Some)

end
