(* ===== verification/Session.thy ===== *)
theory Session
  imports Remote_Client Go_Net
begin

text \<open>
  \<open>internal/atvremote/session.go\<close>: sessions of the Android TV remote protocol. What the
  environment decides is in \<open>atv_env\<close>: the context's error whenever it is asked, how many
  rounds the reader takes while the session waits, and what loading the key pair and dialling
  give. Every consultation has a number, the time, which the functions thread through; the
  certificate of a key pair is opaque, so it is represented by a string.
\<close>

section \<open>The environment\<close>

type_synonym certificate = string

record atv_env =
  en_Err :: "nat \<Rightarrow> goerr option"
  en_Done :: "nat \<Rightarrow> goerr option"
  en_rounds :: "nat \<Rightarrow> nat"
  en_LoadX509KeyPair :: "nat \<Rightarrow> string \<Rightarrow> string \<Rightarrow> certificate res"
  en_Dial :: "nat \<Rightarrow> certificate \<Rightarrow> string \<Rightarrow> string \<Rightarrow> conn res"
  en_isIP :: "string \<Rightarrow> bool"
  en_url_scheme :: "string \<Rightarrow> string res"
  en_unicode :: unicode
  en_key_order :: "string list"
  en_keycode_String :: "keycode \<Rightarrow> string"

definition DefaultRemotePort :: int where "DefaultRemotePort = 6466"
definition sessionStartGracePeriod :: int where "sessionStartGracePeriod = 750 * 1000000"

record session =
  ss_params :: send_key_params
  ss_client :: "remote_client option"

definition normalizeSessionParams :: "send_key_params \<Rightarrow> send_key_params" where
  "normalizeSessionParams params =
     (let params = (if sp_Port params = 0 then params\<lparr>sp_Port := DefaultRemotePort\<rparr> else params);
          params = (if sp_ReadyTimeout params = 0 then params\<lparr>sp_ReadyTimeout := 5 * 1000000000\<rparr> else params);
          params = (if sp_PostDelay params = 0 then params\<lparr>sp_PostDelay := 300 * 1000000\<rparr> else params)
      in params)"

section \<open>App links\<close>

definition isASCIIAlpha :: "char \<Rightarrow> bool" where
  "isASCIIAlpha b = (65 \<le> code_of b \<and> code_of b \<le> 90 \<or> 97 \<le> code_of b \<and> code_of b \<le> 122)"

definition isASCIIAlphaNumericOrUnderscore :: "char \<Rightarrow> bool" where
  "isASCIIAlphaNumericOrUnderscore b =
     (isASCIIAlpha b \<or> 48 \<le> code_of b \<and> code_of b \<le> 57 \<or> b = CHR ''_'')"

definition package_part :: "string \<Rightarrow> bool" where
  "package_part part =
     (case part of [] \<Rightarrow> False
      | b # bs \<Rightarrow> isASCIIAlpha b \<and> list_all isASCIIAlphaNumericOrUnderscore bs)"

definition isAndroidPackageID :: "string \<Rightarrow> bool" where
  "isAndroidPackageID raw =
     (let parts = split_char (CHR ''.'') raw in
      if length parts < 2 then False else list_all package_part parts)"

definition normalizeAppLaunchTarget :: "(string \<Rightarrow> string res) \<Rightarrow> string \<Rightarrow> string" where
  "normalizeAppLaunchTarget url_scheme raw =
     (let raw = TrimSpace raw in
      if raw = [] then []
      else
        (case url_scheme raw of
           Inr scheme \<Rightarrow>
             if scheme \<noteq> [] then raw
             else if isAndroidPackageID raw then ''market://launch?id='' @ raw else raw
         | Inl _ \<Rightarrow> if isAndroidPackageID raw then ''market://launch?id='' @ raw else raw))"

section \<open>Operations\<close>

definition DialSession ::
  "atv_env \<Rightarrow> remote_message pb \<Rightarrow> send_key_params \<Rightarrow> nat \<Rightarrow> session res \<times> nat" where
  "DialSession env pb params n =
     (let params = normalizeSessionParams params in
      if sp_Host params = [] then (Inl (new_err ''host is required''), n)
      else
        (case en_LoadX509KeyPair env n (sp_CertPath params) (sp_KeyPath params) of
           Inl err \<Rightarrow> (Inl (wrap_err ''load cert/key: %w'' err), n + 1)
         | Inr cert \<Rightarrow>
             (case en_Dial env (n + 1) cert (inferServerName (en_isIP env) (sp_Host params))
                     (endpoint (sp_Host params) (sp_Port params)) of
                Inl err \<Rightarrow> (Inl (wrap_err ''connect remote endpoint: %w'' err), n + 2)
              | Inr cn \<Rightarrow>
                  (case waitReady pb (en_rounds env (n + 2)) (newRemoteClient cn) of
                     (Some err, client) \<Rightarrow> (Inl (wrap_err ''wait remote ready: %w'' err), n + 3)
                   | (None, client) \<Rightarrow>
                       (let client = snd (waitStarted pb (en_rounds env (n + 3)) sessionStartGracePeriod client) in
                        case getErr client of
                          Some err \<Rightarrow> (Inl err, n + 4)
                        | None \<Rightarrow> (Inr \<lparr>ss_params = params, ss_client = Some client\<rparr>, n + 4))))))"

definition Snapshot :: "session \<Rightarrow> string \<Rightarrow> send_key_result option" where
  "Snapshot s act =
     (case ss_client s of
        None \<Rightarrow> None
      | Some client \<Rightarrow>
          (let (supported, active) = getFeatures client; (powered, hasPower) = getPowerState client
           in Some \<lparr>kr_Host = sp_Host (ss_params s), kr_Port = sp_Port (ss_params s), kr_Action = act,
                 kr_SupportedFeatures = supported, kr_ActiveFeatures = active,
                 kr_Powered = powered, kr_HasPowerState = hasPower\<rparr>))"

definition PowerState :: "session \<Rightarrow> bool \<times> bool" where
  "PowerState s = (case ss_client s of None \<Rightarrow> (False, False) | Some client \<Rightarrow> getPowerState client)"

definition err_not_connected :: goerr where "err_not_connected = new_err ''session is not connected''"

text \<open>While the session waits, the reader takes its rounds.\<close>

definition sendKeyCodeWithDelay ::
  "atv_env \<Rightarrow> remote_message pb \<Rightarrow> session \<Rightarrow> keycode \<Rightarrow> direction \<Rightarrow> int \<Rightarrow> string \<Rightarrow> nat \<Rightarrow>
    send_key_result option res \<times> session \<times> nat" where
  "sendKeyCodeWithDelay env pb s keyCode dir postDelay resultAction n =
     (case ss_client s of
        None \<Rightarrow> (Inl err_not_connected, s, n)
      | Some client \<Rightarrow>
          (case en_Err env n of
             Some err \<Rightarrow> (Inl err, s, n + 1)
           | None \<Rightarrow>
               (case getErr client of
                  Some err \<Rightarrow> (Inl err, s, n + 1)
                | None \<Rightarrow>
                    (case sendKey pb keyCode dir client of
                       (Some err, client) \<Rightarrow>
                         (Inl (wrap_err ''send key: %w'' err), s\<lparr>ss_client := Some client\<rparr>, n + 1)
                     | (None, client) \<Rightarrow>
                         (let client = run_rounds pb (en_rounds env (n + 1)) client;
                              s = s\<lparr>ss_client := Some client\<rparr> in
                          case (if 0 < postDelay then en_Done env (n + 1) else None) of
                            Some err \<Rightarrow> (Inl err, s, n + 2)
                          | None \<Rightarrow>
                              (case getErr client of
                                 Some err \<Rightarrow> (Inl err, s, n + 2)
                               | None \<Rightarrow> (Inr (Snapshot s resultAction), s, n + 2)))))))"

definition SendKeyWithDelay ::
  "atv_env \<Rightarrow> remote_message pb \<Rightarrow> session \<Rightarrow> string \<Rightarrow> int \<Rightarrow> nat \<Rightarrow>
    send_key_result option res \<times> session \<times> nat" where
  "SendKeyWithDelay env pb s act postDelay n =
     (case ResolveKeyCode (en_unicode env) (en_key_order env) act of
        Inl err \<Rightarrow> (Inl err, s, n)
      | Inr keyCode \<Rightarrow>
          sendKeyCodeWithDelay env pb s keyCode SHORT postDelay (normalizeAction (en_unicode env) act) n)"

definition session_SendKey ::
  "atv_env \<Rightarrow> remote_message pb \<Rightarrow> session \<Rightarrow> string \<Rightarrow> nat \<Rightarrow> send_key_result option res \<times> session \<times> nat" where
  "session_SendKey env pb s act n = SendKeyWithDelay env pb s act 0 n"

definition SendKeyCodeWithDelay ::
  "atv_env \<Rightarrow> remote_message pb \<Rightarrow> session \<Rightarrow> keycode \<Rightarrow> direction \<Rightarrow> int \<Rightarrow> nat \<Rightarrow>
    send_key_result option res \<times> session \<times> nat" where
  "SendKeyCodeWithDelay env pb s keyCode dir postDelay n =
     sendKeyCodeWithDelay env pb s keyCode dir postDelay (en_keycode_String env keyCode) n"

definition SendKeyCode ::
  "atv_env \<Rightarrow> remote_message pb \<Rightarrow> session \<Rightarrow> keycode \<Rightarrow> direction \<Rightarrow> nat \<Rightarrow>
    send_key_result option res \<times> session \<times> nat" where
  "SendKeyCode env pb s keyCode dir n = SendKeyCodeWithDelay env pb s keyCode dir 0 n"

definition LaunchAppLink ::
  "atv_env \<Rightarrow> remote_message pb \<Rightarrow> session \<Rightarrow> string \<Rightarrow> nat \<Rightarrow> goerr option \<times> session \<times> nat" where
  "LaunchAppLink env pb s link n =
     (case ss_client s of
        None \<Rightarrow> (Some err_not_connected, s, n)
      | Some client \<Rightarrow>
          (case en_Err env n of
             Some err \<Rightarrow> (Some err, s, n + 1)
           | None \<Rightarrow>
               (let link = normalizeAppLaunchTarget (en_url_scheme env) link in
                if link = [] then (Some (new_err ''app link is required''), s, n + 1)
                else
                  (case getErr client of
                     Some err \<Rightarrow> (Some err, s, n + 1)
                   | None \<Rightarrow>
                       (case sendAppLink pb link client of
                          (Some err, client) \<Rightarrow>
                            (Some (wrap_err ''launch app link: %w'' err), s\<lparr>ss_client := Some client\<rparr>, n + 1)
                        | (None, client) \<Rightarrow>
                            (let client = run_rounds pb (en_rounds env (n + 1)) client in
                             (getErr client, s\<lparr>ss_client := Some client\<rparr>, n + 2)))))))"

definition session_Close :: "session \<Rightarrow> session" where
  "session_Close s = s\<lparr>ss_client := None\<rparr>"

text \<open>\<open>SendKey\<close> of \<open>remote.go\<close>: a session for one key.\<close>

definition atv_SendKey ::
  "atv_env \<Rightarrow> remote_message pb \<Rightarrow> send_key_params \<Rightarrow> string \<Rightarrow> nat \<Rightarrow> send_key_result option res \<times> nat" where
  "atv_SendKey env pb params act n =
     (case DialSession env pb params n of
        (Inl err, n) \<Rightarrow> (Inl err, n)
      | (Inr s, n) \<Rightarrow>
          (case SendKeyWithDelay env pb s act (sp_PostDelay (ss_params s)) n of
             (r, _, n) \<Rightarrow> (r, n)))"

section \<open>Lemmas\<close>

text \<open>
  A session in order: its client was made on a connection that was dialled with the session's
  own certificate and key to its host and port, the device has made it ready, and the program
  has not closed it since. Whether the device has closed it is only seen by the next command.
\<close>

definition dialled :: "atv_env \<Rightarrow> send_key_params \<Rightarrow> conn \<Rightarrow> bool" where
  "dialled env p cn \<longleftrightarrow> (\<exists>n cert. en_LoadX509KeyPair env n (sp_CertPath p) (sp_KeyPath p) = Inr cert \<and>
     en_Dial env (n + 1) cert (inferServerName (en_isIP env) (sp_Host p)) (endpoint (sp_Host p) (sp_Port p)) = Inr cn)"

definition client_of :: "remote_message pb \<Rightarrow> conn \<Rightarrow> remote_client \<Rightarrow> bool" where
  "client_of pb cn c \<longleftrightarrow> reachable pb cn c \<and> rc_ready c \<and> cn_closed (rc_conn c) = cn_closed cn"

definition session_ok :: "atv_env \<Rightarrow> remote_message pb \<Rightarrow> session \<Rightarrow> bool" where
  "session_ok env pb s \<longleftrightarrow>
     sp_Host (ss_params s) \<noteq> [] \<and> sp_Port (ss_params s) \<noteq> 0 \<and>
     (\<exists>c cn. ss_client s = Some c \<and> dialled env (ss_params s) cn \<and> client_of pb cn c)"

lemma reachable_rounds: "reachable pb cn c \<Longrightarrow> reachable pb cn (run_rounds pb n c)"
  by (induction n) (simp_all add: run_rounds_def reach_round)

lemma ready_write: "rc_ready (snd (rc_writeMessage pb m c)) = rc_ready c"
  by (cases "rc_writeMessage pb m c") (metis rc_writeMessage_frame(1) remote_client.select_convs(7)
      remote_client.surjective remote_client.update_convs(1) snd_conv)

lemma ready_handle:
  assumes "rc_ready c" "handleIncoming pb m c = (r, c')"
  shows "rc_ready c'"
proof -
  have w: "rc_ready d'" if "rc_writeMessage pb x d = (r', d')" "rc_ready d" for x d r' d'
    using that ready_write [of pb x d] by simp
  from assms show ?thesis
    by (auto simp: handleIncoming_def markReady_def markStarted_def dest!: w
        split: option.splits prod.splits if_splits)
qed

lemma ready_round: "rc_ready c \<Longrightarrow> rc_ready (run_round pb c)"
proof -
  assume c: "rc_ready c"
  obtain r c1 where rd: "rc_readMessage pb c = (r, c1)" by fastforce
  then have 1: "rc_ready c1"
    using rc_readMessage_frame [OF rd] c
    by (metis remote_client.select_convs(7) remote_client.surjective remote_client.update_convs(1))
  show ?thesis
    using c rd ready_handle [OF 1]
    by (auto simp: run_round_def setErr_def 1 split: sum.split prod.split option.split)
qed

lemma ready_rounds: "rc_ready c \<Longrightarrow> rc_ready (run_rounds pb n c)"
  by (induction n) (simp_all add: run_rounds_def ready_round)

lemma closed_round: "cn_closed (rc_conn (run_round pb c)) = cn_closed (rc_conn c)"
proof -
  obtain r c1 where rd: "rc_readMessage pb c = (r, c1)" by fastforce
  have 1: "cn_closed (rc_conn c1) = cn_closed (rc_conn c)"
    by (subst rc_readMessage_frame [OF rd]) simp
  show ?thesis
    using rd 1 by (auto simp: run_round_def setErr_def dest: handleIncoming_in(4)
        split: sum.split prod.split option.split)
qed

lemma closed_rounds [simp]: "cn_closed (rc_conn (run_rounds pb n c)) = cn_closed (rc_conn c)"
  by (induction n) (simp_all add: run_rounds_def closed_round)

lemma client_of_rounds: "client_of pb cn c \<Longrightarrow> client_of pb cn (run_rounds pb n c)"
  by (simp add: client_of_def reachable_rounds ready_rounds)

lemma client_of_command:
  assumes "client_of pb cn c"
  shows "sendKey pb k d c = (r, c') \<Longrightarrow> client_of pb cn c'" "sendAppLink pb l c = (r, c') \<Longrightarrow> client_of pb cn c'"
proof -
  have w: "rc_ready x' \<and> cn_closed (rc_conn x') = cn_closed (rc_conn c)" if "rc_writeMessage pb m c = (r', x')" for m r' x'
    using assms ready_write [of pb m c] rc_writeMessage_frame(3) [OF that] that by (simp add: client_of_def)
  show "client_of pb cn c'" if "sendKey pb k d c = (r, c')"
    using w [OF that [unfolded sendKey_def]] reach_key [of pb cn c k d] that assms by (simp add: client_of_def)
  show "client_of pb cn c'" if "sendAppLink pb l c = (r, c')"
    using w [OF that [unfolded sendAppLink_def]] reach_link [of pb cn c l] that assms by (simp add: client_of_def)
qed

lemma session_ok_client:
  assumes "session_ok env pb s" "ss_client s = Some c"
    and "\<And>cn. client_of pb cn c \<Longrightarrow> client_of pb cn c'"
  shows "session_ok env pb (s\<lparr>ss_client := Some c'\<rparr>)"
  using assms by (auto simp: session_ok_def)

lemma normalizeSessionParams_Host [simp]:
  "sp_Host (normalizeSessionParams p) = sp_Host p" "sp_Port (normalizeSessionParams p) \<noteq> 0"
  "sp_CertPath (normalizeSessionParams p) = sp_CertPath p" "sp_KeyPath (normalizeSessionParams p) = sp_KeyPath p"
  by (simp_all add: normalizeSessionParams_def Let_def DefaultRemotePort_def)

lemma normalizeSessionParams_Port:
  "sp_Port (normalizeSessionParams p) = (if sp_Port p = 0 then 6466 else sp_Port p)"
  by (simp add: normalizeSessionParams_def Let_def DefaultRemotePort_def)

lemma DialSession_ok:
  assumes "DialSession env pb params n = (Inr s, n')"
  shows "session_ok env pb s" "ss_params s = normalizeSessionParams params" "\<exists>c. ss_client s = Some c \<and> getErr c = None"
proof -
  from assms obtain cn cert where
    h: "sp_Host params \<noteq> []" and
    l: "en_LoadX509KeyPair env n (sp_CertPath params) (sp_KeyPath params) = Inr cert" and
    d: "en_Dial env (n + 1) cert (inferServerName (en_isIP env) (sp_Host params))
      (endpoint (sp_Host params) (sp_Port (normalizeSessionParams params))) = Inr cn" and
    rd: "rc_ready (run_rounds pb (en_rounds env (n + 2)) (newRemoteClient cn))" and
    s: "s = \<lparr>ss_params = normalizeSessionParams params, ss_client = Some
      (run_rounds pb (en_rounds env (n + 3)) (run_rounds pb (en_rounds env (n + 2)) (newRemoteClient cn)))\<rparr>" and
    e: "getErr (run_rounds pb (en_rounds env (n + 3)) (run_rounds pb (en_rounds env (n + 2)) (newRemoteClient cn))) = None"
    by (auto simp: DialSession_def Let_def waitReady_def waitStarted_def sessionStartGracePeriod_def
        split: if_splits sum.splits prod.splits option.splits)
  have "client_of pb cn (run_rounds pb (en_rounds env (n + 2)) (newRemoteClient cn))"
    using rd reachable_rounds [OF reach_new, of pb cn] by (simp add: client_of_def) (simp add: newRemoteClient_def)
  then have "client_of pb cn (run_rounds pb (en_rounds env (n + 3)) (run_rounds pb (en_rounds env (n + 2)) (newRemoteClient cn)))"
    by (rule client_of_rounds)
  moreover have "dialled env (normalizeSessionParams params) cn"
    unfolding dialled_def using l d by auto
  ultimately show "session_ok env pb s" using h s by (auto simp: session_ok_def)
  from s e show "ss_params s = normalizeSessionParams params" "\<exists>c. ss_client s = Some c \<and> getErr c = None" by auto
qed

lemma sendKeyCodeWithDelay_ok:
  assumes "session_ok env pb s" "sendKeyCodeWithDelay env pb s k d delay act n = (r, s', n')"
  shows "session_ok env pb s'" "ss_params s' = ss_params s"
proof -
  from assms(1) obtain c where c: "ss_client s = Some c" by (auto simp: session_ok_def)
  have w: "session_ok env pb (s\<lparr>ss_client := Some c1\<rparr>)" if "sendKey pb k d c = (r1, c1)" for r1 c1
    using client_of_command(1) [OF _ that] by (rule session_ok_client [OF assms(1) c])
  have w': "session_ok env pb (s\<lparr>ss_client := Some (run_rounds pb m c1)\<rparr>)" if "sendKey pb k d c = (r1, c1)" for r1 c1 m
    using session_ok_client [OF w [OF that], of c1 "run_rounds pb m c1"] client_of_rounds by fastforce
  have "session_ok env pb s' \<and> ss_params s' = ss_params s"
    using assms c w w'
    by (auto simp: sendKeyCodeWithDelay_def Let_def split: option.splits prod.splits if_splits)
  then show "session_ok env pb s'" "ss_params s' = ss_params s" by auto
qed

lemma LaunchAppLink_ok:
  assumes "session_ok env pb s" "LaunchAppLink env pb s link n = (r, s', n')"
  shows "session_ok env pb s'" "ss_params s' = ss_params s"
proof -
  from assms(1) obtain c where c: "ss_client s = Some c" by (auto simp: session_ok_def)
  have w: "session_ok env pb (s\<lparr>ss_client := Some c1\<rparr>)" if "sendAppLink pb l c = (r1, c1)" for l r1 c1
    using client_of_command(2) [OF _ that] by (rule session_ok_client [OF assms(1) c])
  have w': "session_ok env pb (s\<lparr>ss_client := Some (run_rounds pb m c1)\<rparr>)" if "sendAppLink pb l c = (r1, c1)" for l r1 c1 m
    using session_ok_client [OF w [OF that], of c1 "run_rounds pb m c1"] client_of_rounds by fastforce
  have "session_ok env pb s' \<and> ss_params s' = ss_params s"
    using assms c w w'
    by (auto simp: LaunchAppLink_def Let_def split: option.splits prod.splits if_splits)
  then show "session_ok env pb s'" "ss_params s' = ss_params s" by auto
qed

text \<open>A command that succeeds leaves a client that has recorded no error.\<close>

lemma sendKeyCodeWithDelay_no_error:
  "sendKeyCodeWithDelay env pb s k d delay act n = (Inr r, s', n') \<Longrightarrow>
    \<exists>c. ss_client s' = Some c \<and> getErr c = None"
  by (auto simp: sendKeyCodeWithDelay_def Let_def split: option.splits prod.splits if_splits)

lemma LaunchAppLink_no_error:
  "LaunchAppLink env pb s link n = (None, s', n') \<Longrightarrow> \<exists>c. ss_client s' = Some c \<and> getErr c = None"
  by (auto simp: LaunchAppLink_def Let_def split: option.splits prod.splits if_splits)

text \<open>Package names and what they are turned into.\<close>

lemma package_chars:
  assumes "isAndroidPackageID raw" "c \<in> set raw"
  shows "isASCIIAlphaNumericOrUnderscore c \<or> c = CHR ''.''"
proof -
  have "c \<in> set (JoinStr ''.'' ps) \<Longrightarrow> c = CHR ''.'' \<or> (\<exists>p \<in> set ps. c \<in> set p)" for ps
    by (induction ps rule: induct_list012) auto
  from this [of "split_char (CHR ''.'') raw"] assms(2)
  have "c = CHR ''.'' \<or> (\<exists>p \<in> set (split_char (CHR ''.'') raw). c \<in> set p)" by simp
  moreover have "isASCIIAlphaNumericOrUnderscore c"
    if "p \<in> set (split_char (CHR ''.'') raw)" "c \<in> set p" for p
  proof -
    from that(1) assms(1) have "package_part p"
      by (auto simp: isAndroidPackageID_def Let_def list_all_iff split: if_splits)
    with that(2) show ?thesis
      by (auto simp: package_part_def list_all_iff isASCIIAlphaNumericOrUnderscore_def split: list.splits)
  qed
  ultimately show ?thesis by blast
qed

lemma package_no_colon: "isAndroidPackageID raw \<Longrightarrow> CHR '':'' \<notin> set raw"
  using package_chars [of raw "CHR '':''"]
  by (auto simp: isASCIIAlphaNumericOrUnderscore_def isASCIIAlpha_def)

lemma package_trimmed:
  assumes "isAndroidPackageID raw"
  shows "TrimSpace (''market://launch?id='' @ raw) = ''market://launch?id='' @ raw"
proof (rule TrimSpace_same)
  have ne: "\<not> edge_char c" if "c \<in> set raw" for c
    using package_chars [OF assms that]
    by (auto simp: isASCIIAlphaNumericOrUnderscore_def isASCIIAlpha_def edge_char_def)
  have "raw \<noteq> []" using assms by (auto simp: isAndroidPackageID_def)
  with ne [OF last_in_set] show "''market://launch?id='' @ raw = [] \<or>
      \<not> edge_char (hd (''market://launch?id='' @ raw)) \<and> \<not> edge_char (last (''market://launch?id='' @ raw))"
    by (simp add: edge_char_def)
qed

section \<open>Properties\<close>

text \<open>
  What is launched depends on the text alone: a package name becomes a market link, and
  anything else is sent as it is without surrounding white space. Whether \<open>url.Parse\<close> accepts
  the text makes no difference, as long as it finds a scheme only before a colon. Normalising
  twice is normalising once.
\<close>

theorem normalizeAppLaunchTarget_spec:
  assumes "\<And>s scheme. parse s = Inr scheme \<Longrightarrow> scheme \<noteq> [] \<Longrightarrow> CHR '':'' \<in> set s"
  shows "normalizeAppLaunchTarget parse raw =
      (let r = TrimSpace raw in if isAndroidPackageID r then ''market://launch?id='' @ r else r) \<and>
    normalizeAppLaunchTarget parse (normalizeAppLaunchTarget parse raw) = normalizeAppLaunchTarget parse raw"
proof -
  have eq: "normalizeAppLaunchTarget parse x =
      (let r = TrimSpace x in if isAndroidPackageID r then ''market://launch?id='' @ r else r)" for x
  proof -
    have "\<not> isAndroidPackageID []" by (simp add: isAndroidPackageID_def)
    moreover have "parse (TrimSpace x) = Inr scheme \<Longrightarrow> scheme \<noteq> [] \<Longrightarrow> \<not> isAndroidPackageID (TrimSpace x)" for scheme
      using assms package_no_colon by blast
    ultimately show ?thesis
      by (auto simp: normalizeAppLaunchTarget_def Let_def split: sum.splits)
  qed
  obtain M where M: "M = ''market://launch?id=''" by simp
  have no: "\<not> isAndroidPackageID (M @ x)" for x
    using package_no_colon [of "M @ x"] by (auto simp: M)
  have tr: "isAndroidPackageID x \<Longrightarrow> TrimSpace (M @ x) = M @ x" for x
    using package_trimmed unfolding M .
  show ?thesis
    unfolding eq Let_def M [symmetric] by (cases "isAndroidPackageID (TrimSpace raw)") (simp_all add: no tr)
qed

theorem normalizeAppLaunchTarget_spec_witness:
  "normalizeAppLaunchTarget (\<lambda>s. Inl (new_err ''no URL'')) ''tv.app'' = ''market://launch?id=tv.app''"
proof -
  have "list_all (\<lambda>c. \<not> edge_char c) ''tv.app''" by (simp add: edge_char_def)
  then have "TrimSpace ''tv.app'' = ''tv.app''" by (rule TrimSpace_all)
  moreover have "isAndroidPackageID ''tv.app''" by code_simp
  ultimately show ?thesis
    using normalizeAppLaunchTarget_spec [of "\<lambda>s. Inl (new_err ''no URL'')" "''tv.app''"]
    by (simp add: Let_def)
qed

text \<open>
  A session that \<open>DialSession\<close> returns is usable: it has a host, a port and a client that
  the device has made ready and that has recorded no error; and every key and link sent on it
  leaves it so, whether the call succeeds or fails.
\<close>

theorem DialSession_usable:
  assumes "DialSession env pb params n = (Inr s, n')"
  shows "session_ok env pb s \<and> (\<exists>c. ss_client s = Some c \<and> getErr c = None) \<and>
    session_ok env pb (fst (snd (SendKeyWithDelay env pb s act delay m))) \<and>
    session_ok env pb (fst (snd (LaunchAppLink env pb s link m)))"
proof -
  note ok = DialSession_ok [OF assms]
  obtain r s1 n1 where l: "LaunchAppLink env pb s link m = (r, s1, n1)" by (metis prod_cases3)
  have "session_ok env pb (fst (snd (sendKeyCodeWithDelay env pb s k d delay a m)))" for k d a
    using sendKeyCodeWithDelay_ok(1) [OF ok(1)] by (metis prod_cases3 fst_conv snd_conv)
  with ok l LaunchAppLink_ok(1) [OF ok(1) l] show ?thesis
    by (auto simp: SendKeyWithDelay_def split: sum.split)
qed

definition test_env :: atv_env where
  "test_env = \<lparr>en_Err = (\<lambda>_. None), en_Done = (\<lambda>_. None), en_rounds = (\<lambda>_. 1),
     en_LoadX509KeyPair = (\<lambda>_ _ _. Inr []),
     en_Dial = (\<lambda>_ _ _ _. Inr \<lparr>cn_in = [1, 3, 1, 1], cn_end = err_EOF, cn_closed = False, cn_out = [], cn_room = None\<rparr>),
     en_isIP = (\<lambda>_. True), en_url_scheme = (\<lambda>_. Inr []),
     en_unicode = \<lparr>uni_lower = id, uni_upper = id\<rparr>, en_key_order = [], en_keycode_String = (\<lambda>_. [])\<rparr>"

definition test_params :: send_key_params where
  "test_params = \<lparr>sp_Host = ''tv'', sp_Port = 0, sp_CertPath = ''c'', sp_KeyPath = ''k'',
     sp_ReadyTimeout = 0, sp_PostDelay = 0\<rparr>"

theorem DialSession_usable_witness:
  "\<exists>s. fst (DialSession test_env few_pb test_params 0) = Inr s \<and> session_ok test_env few_pb s"
proof -
  have r1: "rc_ready (run_rounds few_pb 1 (newRemoteClient
      \<lparr>cn_in = [1, 3, 1, 1], cn_end = err_EOF, cn_closed = False, cn_out = [], cn_room = None\<rparr>))"
    by code_simp
  have r2: "getErr (run_rounds few_pb 1 (run_rounds few_pb 1 (newRemoteClient
      \<lparr>cn_in = [1, 3, 1, 1], cn_end = err_EOF, cn_closed = False, cn_out = [], cn_room = None\<rparr>))) = None"
    by code_simp
  have "\<not> isl (fst (DialSession test_env few_pb test_params 0))"
    using r1 r2
    by (simp add: DialSession_def test_env_def test_params_def normalizeSessionParams_def Let_def
        waitReady_def waitStarted_def sessionStartGracePeriod_def)
  then obtain s n where s: "DialSession test_env few_pb test_params 0 = (Inr s, n)"
    by (metis prod.collapse sum.collapse(2))
  from DialSession_usable [OF this] s show ?thesis by auto
qed

end
