(* ===== verification/Certificates.thy ===== *)
theory Certificates
  imports Go_Files
begin

text \<open>
  \<open>internal/atvremote/certificate.go\<close>: the client certificate is generated once and kept in
  two files. Random numbers, RSA, X.509 and the clock are the standard library's; what they
  return is given by a \<open>cert_lib\<close>.
\<close>

record cert_template =
  tp_SerialNumber :: int
  tp_CommonName :: string
  tp_NotBefore :: int
  tp_NotAfter :: int
  tp_DigitalSignature :: bool
  tp_KeyEncipherment :: bool
  tp_ClientAuth :: bool
  tp_BasicConstraintsValid :: bool
  tp_DNSNames :: "string list"

type_synonym rsa_key = string

record cert_lib =
  cl_GenerateKey :: "nat \<Rightarrow> rsa_key res"
  cl_rand_Int :: "int \<Rightarrow> int res"
  cl_Now :: int
  cl_AddDate :: "int \<Rightarrow> nat \<Rightarrow> nat \<Rightarrow> nat \<Rightarrow> int"
  cl_CreateCertificate :: "cert_template \<Rightarrow> cert_template \<Rightarrow> rsa_key \<Rightarrow> string res"
  cl_EncodeToMemory :: "string \<Rightarrow> string \<Rightarrow> string option"
  cl_MarshalPKCS1PrivateKey :: "rsa_key \<Rightarrow> string"

definition hour :: int where "hour = 3600 * 1000000000"

definition generateSelfSignedCertificate :: "cert_lib \<Rightarrow> string \<Rightarrow> (string \<times> string) res" where
  "generateSelfSignedCertificate lib clientName =
     (let clientName = (if clientName = [] then ''shrmt'' else clientName) in
      case cl_GenerateKey lib 2048 of
        Inl err \<Rightarrow> Inl (wrap_err ''generate rsa key: %w'' err)
      | Inr privateKey \<Rightarrow>
          (case cl_rand_Int lib (2 ^ 128) of
             Inl err \<Rightarrow> Inl (wrap_err ''generate serial number: %w'' err)
           | Inr serialNumber \<Rightarrow>
               (let now = cl_Now lib;
                    template = \<lparr>tp_SerialNumber = serialNumber, tp_CommonName = clientName,
                      tp_NotBefore = now - hour, tp_NotAfter = cl_AddDate lib now 10 0 0,
                      tp_DigitalSignature = True, tp_KeyEncipherment = True, tp_ClientAuth = True,
                      tp_BasicConstraintsValid = True, tp_DNSNames = [clientName]\<rparr>
                in
                case cl_CreateCertificate lib template template privateKey of
                  Inl err \<Rightarrow> Inl (wrap_err ''create certificate: %w'' err)
                | Inr certDER \<Rightarrow>
                    (case (cl_EncodeToMemory lib ''CERTIFICATE'' certDER,
                           cl_EncodeToMemory lib ''RSA PRIVATE KEY'' (cl_MarshalPKCS1PrivateKey lib privateKey)) of
                       (Some certPEM, Some keyPEM) \<Rightarrow> Inr (certPEM, keyPEM)
                     | _ \<Rightarrow> Inl (new_err ''encode pem'')))))"

definition err_one_of_two :: "string \<Rightarrow> string \<Rightarrow> goerr" where
  "err_one_of_two certPath keyPath =
     Errorf ''only one of cert/key exists; fix or remove files: cert=%s key=%s'' [FS certPath, FS keyPath] None"

definition EnsureClientCertificate ::
  "cert_lib \<Rightarrow> string \<Rightarrow> string \<Rightarrow> string \<Rightarrow> 'a fs_scheme \<Rightarrow> goerr option \<times> 'a fs_scheme" where
  "EnsureClientCertificate lib certPath keyPath clientName w =
     (case fileExists w certPath of
        Inl err \<Rightarrow> (Some (wrap_err ''check cert path: %w'' err), w)
      | Inr certExists \<Rightarrow>
     (case fileExists w keyPath of
        Inl err \<Rightarrow> (Some (wrap_err ''check key path: %w'' err), w)
      | Inr keyExists \<Rightarrow>
          if certExists \<and> keyExists then (None, w)
          else if certExists \<noteq> keyExists then (Some (err_one_of_two certPath keyPath), w)
          else
     (case generateSelfSignedCertificate lib clientName of
        Inl err \<Rightarrow> (Some err, w)
      | Inr (certPEM, keyPEM) \<Rightarrow>
     (case os_MkdirAll (path_Dir certPath) 493 w of
        (Some err, w) \<Rightarrow> (Some (wrap_err ''create cert directory: %w'' err), w)
      | (None, w) \<Rightarrow>
     (case os_MkdirAll (path_Dir keyPath) 493 w of
        (Some err, w) \<Rightarrow> (Some (wrap_err ''create key directory: %w'' err), w)
      | (None, w) \<Rightarrow>
     (case os_WriteFile certPath certPEM 384 w of
        (Some err, w) \<Rightarrow> (Some (wrap_err ''write cert file: %w'' err), w)
      | (None, w) \<Rightarrow>
     (case os_WriteFile keyPath keyPEM 384 w of
        (Some err, w) \<Rightarrow> (Some (wrap_err ''write key file: %w'' err), w)
      | (None, w) \<Rightarrow> (None, w))))))))"

section \<open>Lemmas\<close>

text \<open>What a call that went past the checks did.\<close>

lemma Ensure_writes:
  assumes "EnsureClientCertificate lib cp kp name w = (r, w')"
    and "fileExists w cp = Inr False" "fileExists w kp = Inr False"
  shows "(r = None \<longrightarrow> (\<exists>c k. generateSelfSignedCertificate lib name = Inr (c, k) \<and>
      (cp \<noteq> kp \<longrightarrow> fs_files w' cp = Some (c, 384)) \<and> fs_files w' kp \<noteq> None \<and>
      (cp \<noteq> kp \<longrightarrow> fs_files w' kp = Some (k, 384)))) \<and> only_files {cp, kp} w w'"
proof (cases "generateSelfSignedCertificate lib name")
  case (Inl e)
  with assms show ?thesis by (auto simp: EnsureClientCertificate_def)
next
  case (Inr ck)
  obtain c k where ck: "ck = (c, k)" by fastforce
  obtain r1 w1 where m1: "os_MkdirAll (path_Dir cp) 493 w = (r1, w1)" by fastforce
  obtain r2 w2 where m2: "os_MkdirAll (path_Dir kp) 493 w1 = (r2, w2)" by fastforce
  obtain r3 w3 where m3: "os_WriteFile cp c 384 w2 = (r3, w3)" by fastforce
  obtain r4 w4 where m4: "os_WriteFile kp k 384 w3 = (r4, w4)" by fastforce
  have f1: "only_files {cp, kp} w w1" using m1 by (rule os_MkdirAll_frame)
  have f2: "only_files {cp, kp} w w2" using f1 os_MkdirAll_frame(1) [OF m2] by (rule only_files_trans)
  have f3: "only_files {cp, kp} w w3" using f2 os_WriteFile_frame(1) [OF m3, of "{cp, kp}"] only_files_trans by blast
  have f4: "only_files {cp, kp} w w4" using f3 os_WriteFile_frame(1) [OF m4, of "{cp, kp}"] only_files_trans by blast
  have none: "fs_files w cp = None" "fs_files w kp = None"
    using fileExists_Inr(2) [OF assms(2)] fileExists_Inr(2) [OF assms(3)] by blast+
  have same: "fs_files w2 = fs_files w" using os_MkdirAll_frame(2) [OF m1] os_MkdirAll_frame(2) [OF m2] by simp
  have k4: "r4 = None \<Longrightarrow> fs_files w4 kp \<noteq> None" using os_WriteFile_ok(1) [of kp k 384 w3 w4] m4 by simp
  have both: "fs_files w4 cp = Some (c, 384) \<and> fs_files w4 kp = Some (k, 384)"
    if "r3 = None" "r4 = None" "cp \<noteq> kp"
  proof -
    have c3: "fs_files w3 cp = Some (c, 384)"
      using os_WriteFile_ok(1) [of cp c 384 w2 w3] m3 that(1) none same by (simp add: file_mode_def)
    have "only_files {cp} w2 w3" using m3 by (rule os_WriteFile_frame) simp
    then have "fs_files w3 kp = None" using that(3) none same only_filesD(4) [of "{cp}" w2 w3 kp] by auto
    then have "fs_files w4 kp = Some (k, 384)"
      using os_WriteFile_ok(1) [of kp k 384 w3 w4] m4 that(2) by (simp add: file_mode_def)
    moreover have "only_files {kp} w3 w4" using m4 by (rule os_WriteFile_frame) simp
    then have "fs_files w4 cp = fs_files w3 cp" using that(3) only_filesD(4) [of "{kp}" w3 w4 cp] by auto
    ultimately show ?thesis using c3 by simp
  qed
  from assms Inr ck m1 m2 m3 m4 f1 f2 f3 f4 k4 both show ?thesis
    by (auto simp: EnsureClientCertificate_def split: option.splits)
qed

lemma Ensure_exists:
  assumes "EnsureClientCertificate lib cp kp name w = (None, w')"
  shows "fileExists w' cp = Inr True \<and> fileExists w' kp = Inr True"
proof (cases "fileExists w cp = Inr False \<and> fileExists w kp = Inr False")
  case True
  with Ensure_writes [OF assms] have k: "fs_files w' kp \<noteq> None" and c: "cp \<noteq> kp \<longrightarrow> fs_files w' cp \<noteq> None"
    and o: "only_files {cp, kp} w w'" by auto
  have "fs_fault w' OpStat cp = None" "fs_fault w' OpStat kp = None"
    using True fileExists_Inr(1) only_filesD(2) [OF o] by metis+
  with k c show ?thesis by (cases "cp = kp") (auto simp: fileExists_file)
next
  case False
  with assms show ?thesis
    by (auto simp: EnsureClientCertificate_def split: sum.splits if_splits)
qed

section \<open>Properties\<close>

text \<open>
  A successful \<open>EnsureClientCertificate\<close> leaves both files in place, writes nothing else,
  and is idempotent: calling it again succeeds and changes nothing. If it generated the pair,
  the files hold it, readable by the owner alone.
\<close>

theorem EnsureClientCertificate_idempotent:
  assumes "EnsureClientCertificate lib cp kp name w = (None, w')" "cp \<noteq> kp"
  shows "EnsureClientCertificate lib' cp kp name' w' = (None, w') \<and>
    (\<forall>p. p \<noteq> cp \<and> p \<noteq> kp \<longrightarrow> fs_files w' p = fs_files w p) \<and>
    (fileExists w cp = Inr False \<longrightarrow> (\<exists>c k. generateSelfSignedCertificate lib name = Inr (c, k) \<and>
       fs_files w' cp = Some (c, 384) \<and> fs_files w' kp = Some (k, 384)))"
proof -
  have "EnsureClientCertificate lib' cp kp name' w' = (None, w')"
    using Ensure_exists [OF assms(1)] by (simp add: EnsureClientCertificate_def)
  moreover have "only_files {cp, kp} w w' \<and> (fileExists w cp = Inr False \<longrightarrow> (\<exists>c k. generateSelfSignedCertificate lib name = Inr (c, k) \<and>
       fs_files w' cp = Some (c, 384) \<and> fs_files w' kp = Some (k, 384)))"
  proof (cases "fileExists w cp = Inr False \<and> fileExists w kp = Inr False")
    case True
    with Ensure_writes [OF assms(1)] assms(2) show ?thesis by auto
  next
    case False
    with assms(1) have "w' = w \<and> fileExists w cp = Inr True"
      by (auto simp: EnsureClientCertificate_def split: sum.splits if_splits)
    then show ?thesis by simp
  qed
  ultimately show ?thesis by (auto dest: only_filesD(4))
qed

definition test_lib :: cert_lib where
  "test_lib = \<lparr>cl_GenerateKey = (\<lambda>_. Inr ''k''), cl_rand_Int = (\<lambda>_. Inr 5), cl_Now = 0,
     cl_AddDate = (\<lambda>t _ _ _. t), cl_CreateCertificate = (\<lambda>t _ _. Inr (tp_CommonName t)),
     cl_EncodeToMemory = (\<lambda>_ d. Some d), cl_MarshalPKCS1PrivateKey = id\<rparr>"

definition cert_world :: "(string \<times> string) option \<Rightarrow> fs" where
  "cert_world fault = \<lparr>fs_configDir = Inr ''/c'', fs_files = (\<lambda>_. None),
     fs_dirs = (\<lambda>p. if p = ''/'' \<or> p = ''/c'' then Some 493 else None),
     fs_fault = (\<lambda>oper p. case fault of Some (q, e) \<Rightarrow> if oper = OpCreate \<and> p = q then Some e else None | None \<Rightarrow> None),
     fs_short = (\<lambda>_. 0)\<rparr>"

theorem EnsureClientCertificate_idempotent_witness:
  "EnsureClientCertificate test_lib ''/c/c.pem'' ''/c/k.pem'' []
     (snd (EnsureClientCertificate test_lib ''/c/c.pem'' ''/c/k.pem'' [] (cert_world None))) =
   (None, snd (EnsureClientCertificate test_lib ''/c/c.pem'' ''/c/k.pem'' [] (cert_world None)))"
proof -
  let ?e = "EnsureClientCertificate test_lib ''/c/c.pem'' ''/c/k.pem'' [] (cert_world None)"
  have "fst ?e = None" by code_simp
  then have "?e = (None, snd ?e)" by (metis prod.collapse)
  from EnsureClientCertificate_idempotent [OF this, of test_lib "[]"] show ?thesis by simp
qed

text \<open>
  C29: What a call leaves that wrote the certificate and then cannot write the key, and what
  becomes of the calls after it, as long as nobody adds or removes one of the two files. If the
  key file could not be created, every later call fails, though nothing is in its way any more.
  If it was created but not written in full, a file with the beginning of the key is left, and
  every later call succeeds without looking at it.
\<close>

theorem EnsureClientCertificate_stuck:
  assumes "fileExists w cp = Inr False" "fileExists w kp = Inr False" "cp \<noteq> kp"
    and "generateSelfSignedCertificate lib name = Inr (c, k)"
    and "fs_dirs w (path_Dir cp) \<noteq> None" "fs_dirs w (path_Dir kp) \<noteq> None"
    and "\<And>oper p. fs_fault w oper p \<noteq> None \<Longrightarrow> p = kp \<and> (oper = OpCreate \<or> oper = OpWrite)"
    and "fs_fault w OpCreate kp \<noteq> None \<or> fs_fault w OpWrite kp \<noteq> None"
    and "EnsureClientCertificate lib cp kp name w = (r, w')"
  shows "r \<noteq> None \<and> fs_files w' cp = Some (c, 384) \<and>
    (if fs_fault w OpCreate kp \<noteq> None
     then fs_files w' kp = None \<and>
       (\<forall>lib' name' w2. fileExists w2 cp = fileExists w' cp \<and> fileExists w2 kp = fileExists w' kp \<longrightarrow>
          EnsureClientCertificate lib' cp kp name' w2 = (Some (err_one_of_two cp kp), w2))
     else fs_files w' kp = Some (take (fs_short w kp) k, 384) \<and>
       (\<forall>lib' name' w2. fileExists w2 cp = fileExists w' cp \<and> fileExists w2 kp = fileExists w' kp \<longrightarrow>
          EnsureClientCertificate lib' cp kp name' w2 = (None, w2)))"
proof -
  from assms(1,2) have none: "fs_files w cp = None" "fs_dirs w cp = None" "fs_files w kp = None" "fs_dirs w kp = None"
    by (metis fileExists_Inr(2))+
  have nf: "fs_fault w oper p = None" if "p \<noteq> kp \<or> oper \<noteq> OpCreate \<and> oper \<noteq> OpWrite" for oper p
    using assms(7) [of oper p] that by blast
  have mk: "os_MkdirAll (path_Dir cp) 493 w = (None, w)" "os_MkdirAll (path_Dir kp) 493 w = (None, w)"
    using assms(5,6) nf [of _ OpMkdir] by (auto simp: os_MkdirAll_def)
  let ?w1 = "w\<lparr>fs_files := (fs_files w)(cp \<mapsto> (c, 384))\<rparr>"
  let ?w2 = "?w1\<lparr>fs_files := (fs_files ?w1)(kp \<mapsto> (take (fs_short w kp) k, 384))\<rparr>"
  have wr: "os_WriteFile cp c 384 w = (None, ?w1)"
    using none assms(5) nf [of cp] assms(3) by (auto simp: os_WriteFile_def file_mode_def)
  have cert: "fileExists x cp = Inr True" if "x = ?w1 \<or> x = ?w2" for x
    using nf [of cp OpStat] that assms(3) by (auto simp: fileExists_def os_Stat_def)
  show ?thesis
  proof (cases "fs_fault w OpCreate kp")
    case (Some e)
    then have "os_WriteFile kp k 384 ?w1 = (Some (path_err ''open'' kp (new_err e)), ?w1)"
      by (simp add: os_WriteFile_def)
    then have r: "r \<noteq> None" "w' = ?w1" using assms(1,2,4,9) mk wr by (auto simp: EnsureClientCertificate_def)
    have "fileExists ?w1 kp = Inr False"
      using nf [of kp OpStat] none assms(3) by (simp add: fileExists_def os_Stat_def path_err_def)
    with cert [of ?w1] Some r none assms(3) show ?thesis by (simp add: EnsureClientCertificate_def)
  next
    case None
    with assms(8) obtain e where e: "fs_fault w OpWrite kp = Some e" by blast
    then have "os_WriteFile kp k 384 ?w1 = (Some (path_err ''write'' kp (new_err e)), ?w2)"
      using None none assms(3,6) by (auto simp: os_WriteFile_def file_mode_def)
    then have r: "r \<noteq> None" "w' = ?w2" using assms(1,2,4,9) mk wr by (auto simp: EnsureClientCertificate_def)
    have "fileExists ?w2 kp = Inr True" using nf [of kp OpStat] by (simp add: fileExists_def os_Stat_def)
    with cert [of ?w2] None r assms(3) show ?thesis by (simp add: EnsureClientCertificate_def)
  qed
qed
theorem EnsureClientCertificate_stuck_witness:
  "fst (EnsureClientCertificate test_lib ''/c/c.pem'' ''/c/k.pem'' []
     (snd (EnsureClientCertificate test_lib ''/c/c.pem'' ''/c/k.pem'' []
       (cert_world (Some (''/c/k.pem'', ''no space left on device'')))))) =
   Some (err_one_of_two ''/c/c.pem'' ''/c/k.pem'')"
proof -
  let ?w = "cert_world (Some (''/c/k.pem'', ''no space left on device''))"
  let ?e = "EnsureClientCertificate test_lib ''/c/c.pem'' ''/c/k.pem'' [] ?w"
  have w: "fileExists ?w ''/c/c.pem'' = Inr False" "fileExists ?w ''/c/k.pem'' = Inr False"
    "generateSelfSignedCertificate test_lib [] = Inr (''shrmt'', ''k'')"
    "fs_dirs ?w (path_Dir ''/c/c.pem'') \<noteq> None" "fs_dirs ?w (path_Dir ''/c/k.pem'') \<noteq> None"
    by code_simp+
  have f: "p = ''/c/k.pem'' \<and> (oper = OpCreate \<or> oper = OpWrite)" if "fs_fault ?w oper p \<noteq> None" for oper p
    using that by (simp add: cert_world_def split: if_splits)
  have g: "fs_fault ?w OpCreate ''/c/k.pem'' \<noteq> None" by (simp add: cert_world_def)
  have "''/c/c.pem'' \<noteq> ''/c/k.pem''" by simp
  note stuck = EnsureClientCertificate_stuck [OF w(1,2) this w(3-5) f disjI1 [OF g] prod.collapse [symmetric]]
  have "EnsureClientCertificate test_lib ''/c/c.pem'' ''/c/k.pem'' [] (snd ?e) =
      (Some (err_one_of_two ''/c/c.pem'' ''/c/k.pem''), snd ?e)"
    using conjunct2 [OF conjunct2 [OF stuck], unfolded if_P [OF g]] by blast
  then show ?thesis by simp
qed

end
