(* ===== verification/Pairing_Protocol.thy ===== *)
theory Pairing_Protocol
  imports Session Certificates Pairing_Core
begin

text \<open>
  \<open>internal/atvremote/pairing.go\<close>: pairing with the device. The client sends three requests,
  the device answers each with a status; then the user types the code the device shows, and
  the client proves that both ends see the same certificates by a hash that starts with the
  code's first byte. SHA-256 and X.509 are the standard library's and are parameters.
\<close>

section \<open>Messages\<close>

type_synonym polo_status = "32 word"

definition STATUS_OK :: polo_status where "STATUS_OK = 200"

datatype role_type = ROLE_TYPE_UNKNOWN | ROLE_TYPE_INPUT | ROLE_TYPE_OUTPUT

datatype encoding_type = ENCODING_TYPE_UNKNOWN | ENCODING_TYPE_ALPHANUMERIC
  | ENCODING_TYPE_NUMERIC | ENCODING_TYPE_HEXADECIMAL | ENCODING_TYPE_QRCODE

record options_encoding =
  oe_Type :: "encoding_type option"
  oe_SymbolLength :: "32 word option"

record polo_PairingRequest =
  pp_ServiceName :: "string option"
  pp_ClientName :: "string option"

record polo_Options =
  po_InputEncodings :: "options_encoding list"
  po_OutputEncodings :: "options_encoding list"
  po_PreferredRole :: "role_type option"

record polo_Configuration =
  pcf_Encoding :: "options_encoding option"
  pcf_ClientRole :: "role_type option"

text \<open>
  The fields of an \<open>OuterMessage\<close>; an acknowledgement that carries nothing is \<^typ>\<open>unit\<close>, the
  one of the pairing request its optional server name.
\<close>

record outer_message =
  om_ProtocolVersion :: "32 word option"
  om_Status :: "polo_status option"
  om_PairingRequest :: "polo_PairingRequest option"
  om_PairingRequestAck :: "string option option"
  om_Options :: "polo_Options option"
  om_Configuration :: "polo_Configuration option"
  om_ConfigurationAck :: "unit option"
  om_Secret :: "byte list option"
  om_SecretAck :: "byte list option"

definition zero_outer :: outer_message where
  "zero_outer = \<lparr>om_ProtocolVersion = None, om_Status = None, om_PairingRequest = None,
     om_PairingRequestAck = None, om_Options = None, om_Configuration = None,
     om_ConfigurationAck = None, om_Secret = None, om_SecretAck = None\<rparr>"

definition GetStatus :: "outer_message \<Rightarrow> polo_status" where
  "GetStatus m = (case om_Status m of Some s \<Rightarrow> s | None \<Rightarrow> STATUS_OK)"

definition defaultPairingMessage :: outer_message where
  "defaultPairingMessage = zero_outer\<lparr>om_ProtocolVersion := Some 2, om_Status := Some STATUS_OK\<rparr>"

definition ensureStatusOK :: "outer_message \<Rightarrow> string \<Rightarrow> goerr option" where
  "ensureStatusOK msg stage =
     (if GetStatus msg \<noteq> STATUS_OK
      then Some (Errorf ''%s: unexpected status %v'' [FS stage, FI (sint (GetStatus msg))] None)
      else None)"

section \<open>Codes and the secret\<close>

definition NormalizePairingCode :: "unicode \<Rightarrow> string \<Rightarrow> string res" where
  "NormalizePairingCode u raw =
     (let code = ToUpper u (TrimSpace raw) in
      if length code \<noteq> 6
      then Inl (Errorf ''pairing code must be 6 hex chars, got %q'' [FS raw] None)
      else
        (case hex_DecodeString code of
           Inl err \<Rightarrow> Inl (wrap_err ''pairing code must be hex: %w'' err)
         | Inr _ \<Rightarrow> Inr code))"

function be_loop :: "nat \<Rightarrow> byte list \<Rightarrow> byte list" where
  "be_loop v out = (if 0 < v then be_loop (drop_bit 8 v) (word_of_nat (v AND 255) # out) else out)"
  by pat_completeness auto
termination
  by (relation "measure fst") (auto simp: drop_bit_eq_div)

declare be_loop.simps [simp del]

definition bigEndianIntBytes :: "int \<Rightarrow> byte list" where
  "bigEndianIntBytes v = (if v = 0 then [0] else be_loop (nat v) [])"

text \<open>\<open>big.Int.Bytes\<close>: the absolute value as big-endian bytes, none for zero.\<close>

function big_Bytes :: "nat \<Rightarrow> byte list" where
  "big_Bytes n = (if n = 0 then [] else big_Bytes (n div 256) @ [word_of_nat n])"
  by pat_completeness auto
termination
  by (relation "measure id") auto

declare big_Bytes.simps [simp del]

datatype public_key = RSA_PublicKey nat int | Other_PublicKey

record pair_lib =
  pl_sha256 :: "byte list \<Rightarrow> byte list"
  pl_ParseCertificate :: "certificate \<Rightarrow> public_key res"
  pl_PeerCertificates :: "nat \<Rightarrow> public_key list"

definition computePairingSecret ::
  "unicode \<Rightarrow> (byte list \<Rightarrow> byte list) \<Rightarrow> string \<Rightarrow> public_key \<Rightarrow> public_key \<Rightarrow> byte list res" where
  "computePairingSecret u sha256 pairingCode clientKey serverKey =
     (case clientKey of
        Other_PublicKey \<Rightarrow> Inl (new_err ''client certificate key is not RSA'')
      | RSA_PublicKey cN cE \<Rightarrow>
     (case serverKey of
        Other_PublicKey \<Rightarrow> Inl (new_err ''server certificate key is not RSA'')
      | RSA_PublicKey sN sE \<Rightarrow>
     (case NormalizePairingCode u pairingCode of
        Inl err \<Rightarrow> Inl err
      | Inr code \<Rightarrow>
     (case hex_DecodeString (drop 2 code) of
        Inl err \<Rightarrow> Inl (wrap_err ''decode pairing code tail: %w'' err)
      | Inr pairTail \<Rightarrow>
          (let secret = sha256 (big_Bytes cN @ bigEndianIntBytes cE @ big_Bytes sN
                                @ bigEndianIntBytes sE @ pairTail) in
           case hex_DecodeString (take 2 code) of
             Inl err \<Rightarrow> Inl (wrap_err ''decode pairing code prefix: %w'' err)
           | Inr prefix \<Rightarrow>
               if length prefix \<noteq> 1 \<or> secret ! 0 \<noteq> prefix ! 0
               then Inl (Errorf ''unexpected hash for pairing code: %s'' [FS code] None)
               else Inr secret)))))"

section \<open>The conversation\<close>

record pairing_client =
  pc_conn :: conn
  pc_serviceName :: string
  pc_clientName :: string
  pc_serverName :: string

definition newPairingClient :: "conn \<Rightarrow> string \<Rightarrow> string \<Rightarrow> pairing_client" where
  "newPairingClient cn serviceName clientName =
     \<lparr>pc_conn = cn, pc_serviceName = serviceName, pc_clientName = clientName, pc_serverName = []\<rparr>"

lemma newPairingClient_sel [simp]:
  "pc_conn (newPairingClient cn a b) = cn" "pc_serverName (newPairingClient cn a b) = []"
  "pc_serviceName (newPairingClient cn a b) = a" "pc_clientName (newPairingClient cn a b) = b"
  by (simp_all add: newPairingClient_def)

definition pc_writeMessage :: "outer_message pb \<Rightarrow> outer_message \<Rightarrow> pairing_client \<Rightarrow> goerr option \<times> pairing_client" where
  "pc_writeMessage pb msg p =
     (case pb_Marshal pb msg of
        Inl err \<Rightarrow> (Some (wrap_err ''marshal pairing message: %w'' err), p)
      | Inr raw \<Rightarrow>
          (case conn_Write (pb_AppendVarint pb (length raw)) (pc_conn p) of
             (Some err, cn) \<Rightarrow> (Some (wrap_err ''write pairing message prefix: %w'' err), p\<lparr>pc_conn := cn\<rparr>)
           | (None, cn) \<Rightarrow>
               (case conn_Write raw cn of
                  (Some err, cn) \<Rightarrow> (Some (wrap_err ''write pairing message payload: %w'' err), p\<lparr>pc_conn := cn\<rparr>)
                | (None, cn) \<Rightarrow> (None, p\<lparr>pc_conn := cn\<rparr>))))"

definition pc_readMessage :: "outer_message pb \<Rightarrow> pairing_client \<Rightarrow> outer_message res \<times> pairing_client" where
  "pc_readMessage pb p =
     (case conn_ReadUvarint (pc_conn p) of
        (Inl err, cn) \<Rightarrow> (Inl (wrap_err ''read pairing message size: %w'' err), p\<lparr>pc_conn := cn\<rparr>)
      | (Inr sz, cn) \<Rightarrow>
          if sz = 0 then (Inr zero_outer, p\<lparr>pc_conn := cn\<rparr>)
          else if 1024 * 1024 < sz
          then (Inl (Errorf ''pairing message too large: %d'' [FI (uint sz)] None), p\<lparr>pc_conn := cn\<rparr>)
          else
            (case conn_ReadFull (unat sz) cn of
               (Inl err, cn) \<Rightarrow> (Inl (wrap_err ''read pairing message payload: %w'' err), p\<lparr>pc_conn := cn\<rparr>)
             | (Inr raw, cn) \<Rightarrow>
                 (case pb_Unmarshal pb raw of
                    Inl err \<Rightarrow> (Inl (wrap_err ''unmarshal pairing message: %w'' err), p\<lparr>pc_conn := cn\<rparr>)
                  | Inr msg \<Rightarrow> (Inr msg, p\<lparr>pc_conn := cn\<rparr>))))"

text \<open>The three requests of \<open>start\<close> and the message of \<open>finish\<close>.\<close>

definition request_message :: "pairing_client \<Rightarrow> outer_message" where
  "request_message p = defaultPairingMessage\<lparr>om_PairingRequest :=
     Some \<lparr>pp_ServiceName = Some (pc_serviceName p), pp_ClientName = Some (pc_clientName p)\<rparr>\<rparr>"

definition hex6 :: options_encoding where
  "hex6 = \<lparr>oe_Type = Some ENCODING_TYPE_HEXADECIMAL, oe_SymbolLength = Some 6\<rparr>"

definition options_message :: outer_message where
  "options_message = defaultPairingMessage\<lparr>om_Options := Some \<lparr>po_InputEncodings = [hex6],
     po_OutputEncodings = [], po_PreferredRole = Some ROLE_TYPE_INPUT\<rparr>\<rparr>"

definition configuration_message :: outer_message where
  "configuration_message = defaultPairingMessage\<lparr>om_Configuration :=
     Some \<lparr>pcf_Encoding = Some hex6, pcf_ClientRole = Some ROLE_TYPE_INPUT\<rparr>\<rparr>"

definition secret_message :: "byte list \<Rightarrow> outer_message" where
  "secret_message secret = defaultPairingMessage\<lparr>om_Secret := Some secret\<rparr>"

definition pc_start :: "outer_message pb \<Rightarrow> pairing_client \<Rightarrow> goerr option \<times> pairing_client" where
  "pc_start pb p =
     (case pc_writeMessage pb (request_message p) p of
        (Some err, p) \<Rightarrow> (Some (wrap_err ''pair request: %w'' err), p)
      | (None, p) \<Rightarrow>
     (case pc_readMessage pb p of
        (Inl err, p) \<Rightarrow> (Some (wrap_err ''pair request ack: %w'' err), p)
      | (Inr msg, p) \<Rightarrow>
     (case ensureStatusOK msg ''pair request ack'' of
        Some err \<Rightarrow> (Some err, p)
      | None \<Rightarrow>
     (let p = (case om_PairingRequestAck msg of
                 Some (Some name) \<Rightarrow> p\<lparr>pc_serverName := name\<rparr> | _ \<Rightarrow> p) in
      case pc_writeMessage pb options_message p of
        (Some err, p) \<Rightarrow> (Some (wrap_err ''pair options: %w'' err), p)
      | (None, p) \<Rightarrow>
     (case pc_readMessage pb p of
        (Inl err, p) \<Rightarrow> (Some (wrap_err ''pair options ack: %w'' err), p)
      | (Inr msg, p) \<Rightarrow>
     (case ensureStatusOK msg ''pair options ack'' of
        Some err \<Rightarrow> (Some err, p)
      | None \<Rightarrow>
     (case pc_writeMessage pb configuration_message p of
        (Some err, p) \<Rightarrow> (Some (wrap_err ''pair configuration: %w'' err), p)
      | (None, p) \<Rightarrow>
     (case pc_readMessage pb p of
        (Inl err, p) \<Rightarrow> (Some (wrap_err ''pair configuration ack: %w'' err), p)
      | (Inr msg, p) \<Rightarrow> (ensureStatusOK msg ''pair configuration ack'', p)))))))))"

definition pc_finish ::
  "unicode \<Rightarrow> pair_lib \<Rightarrow> outer_message pb \<Rightarrow> string \<Rightarrow> certificate \<Rightarrow> nat \<Rightarrow> pairing_client \<Rightarrow>
    goerr option \<times> pairing_client" where
  "pc_finish u lib pb pairingCode cert n p =
     (case pl_ParseCertificate lib cert of
        Inl err \<Rightarrow> (Some (wrap_err ''parse client cert: %w'' err), p)
      | Inr clientKey \<Rightarrow>
     (case pl_PeerCertificates lib n of
        [] \<Rightarrow> (Some (new_err ''no peer certificate from tv''), p)
      | serverKey # _ \<Rightarrow>
     (case computePairingSecret u (pl_sha256 lib) pairingCode clientKey serverKey of
        Inl err \<Rightarrow> (Some err, p)
      | Inr secret \<Rightarrow>
     (case pc_writeMessage pb (secret_message secret) p of
        (Some err, p) \<Rightarrow> (Some (wrap_err ''pair secret: %w'' err), p)
      | (None, p) \<Rightarrow>
     (case pc_readMessage pb p of
        (Inl err, p) \<Rightarrow> (Some (wrap_err ''pair secret ack: %w'' err), p)
      | (Inr msg, p) \<Rightarrow> (ensureStatusOK msg ''pair secret ack'', p))))))"

section \<open>\<open>Pair\<close>\<close>

definition DefaultPairingPort :: int where "DefaultPairingPort = 6467"
definition DefaultServiceName :: string where "DefaultServiceName = ''atvremote''"

record 'w pair_params =
  pa_Host :: string
  pa_Port :: int
  pa_ClientName :: string
  pa_ServiceName :: string
  pa_PairingCode :: string
  pa_CodeProvider :: "('w \<Rightarrow> string res \<times> 'w) option"
  pa_CertPath :: string
  pa_KeyPath :: string

record pair_result =
  prs_Host :: string
  prs_Port :: int
  prs_ClientName :: string
  prs_ServerName :: string
  prs_CertPath :: string
  prs_KeyPath :: string

definition normalizePairParams :: "'w pair_params \<Rightarrow> 'w pair_params" where
  "normalizePairParams params =
     (let params = (if pa_Port params = 0 then params\<lparr>pa_Port := DefaultPairingPort\<rparr> else params);
          params = (if pa_ClientName params = [] then params\<lparr>pa_ClientName := ''shrmt''\<rparr> else params);
          params = (if pa_ServiceName params = [] then params\<lparr>pa_ServiceName := DefaultServiceName\<rparr> else params)
      in params)"

text \<open>The code of a pairing: given, or asked for while the device shows it.\<close>

definition pair_code :: "'w pair_params \<Rightarrow> 'w \<Rightarrow> string res \<times> 'w" where
  "pair_code params w =
     (if TrimSpace (pa_PairingCode params) = [] then
        (case pa_CodeProvider params of
           None \<Rightarrow> (Inl (new_err ''pairing code is required''), w)
         | Some provider \<Rightarrow> provider w)
      else (Inr (pa_PairingCode params), w))"

definition atv_Pair ::
  "atv_env \<Rightarrow> pair_lib \<Rightarrow> cert_lib \<Rightarrow> outer_message pb \<Rightarrow> 'a fs_scheme pair_params \<Rightarrow> nat \<Rightarrow> 'a fs_scheme \<Rightarrow>
    pair_result res \<times> 'a fs_scheme" where
  "atv_Pair env lib clib pb params n w =
     (let params = normalizePairParams params; u = en_unicode env in
      if pa_Host params = [] then (Inl (new_err ''host is required''), w)
      else
     (case EnsureClientCertificate clib (pa_CertPath params) (pa_KeyPath params) (pa_ClientName params) w of
        (Some err, w) \<Rightarrow> (Inl err, w)
      | (None, w) \<Rightarrow>
     (case en_LoadX509KeyPair env n (pa_CertPath params) (pa_KeyPath params) of
        Inl err \<Rightarrow> (Inl (wrap_err ''load cert/key: %w'' err), w)
      | Inr cert \<Rightarrow>
     (case en_Dial env (n + 1) cert (inferServerName (en_isIP env) (pa_Host params))
             (endpoint (pa_Host params) (pa_Port params)) of
        Inl err \<Rightarrow> (Inl (wrap_err ''pair dial: %w'' err), w)
      | Inr cn \<Rightarrow>
     (case pc_start pb (newPairingClient cn (pa_ServiceName params) (pa_ClientName params)) of
        (Some err, _) \<Rightarrow> (Inl err, w)
      | (None, client) \<Rightarrow>
     (case pair_code params w of
        (Inl err, w) \<Rightarrow> (Inl err, w)
      | (Inr code, w) \<Rightarrow>
     (case NormalizePairingCode u code of
        Inl err \<Rightarrow> (Inl err, w)
      | Inr code \<Rightarrow>
     (case pc_finish u lib pb code cert (n + 2) client of
        (Some err, _) \<Rightarrow> (Inl err, w)
      | (None, client) \<Rightarrow>
          (Inr \<lparr>prs_Host = pa_Host params, prs_Port = pa_Port params, prs_ClientName = pa_ClientName params,
             prs_ServerName = pc_serverName client, prs_CertPath = pa_CertPath params,
             prs_KeyPath = pa_KeyPath params\<rparr>, w)))))))))"

section \<open>Lemmas\<close>

lemma be_loop_append: "be_loop v out = be_loop v [] @ out"
proof (induction v arbitrary: out rule: less_induct)
  case (less v)
  show ?case
  proof (cases "0 < v")
    case True
    then have lt: "drop_bit 8 v < v" by (simp add: drop_bit_eq_div)
    let ?b = "word_of_nat (v AND 255) :: byte"
    have "be_loop v out = be_loop (drop_bit 8 v) (?b # out)" "be_loop v [] = be_loop (drop_bit 8 v) [?b]"
      using True by (simp_all add: be_loop.simps [of v])
    then show ?thesis using less [OF lt, of "?b # out"] less [OF lt, of "[?b]"] by simp
  qed (simp add: be_loop.simps)
qed

lemma and_255: "(word_of_nat (v AND 255) :: byte) = word_of_nat v"
proof -
  have "v AND 255 = v mod 2 ^ 8" using take_bit_eq_mask [of 8 v] by (simp add: take_bit_eq_mod mask_eq_exp_minus_1)
  then show ?thesis by (simp add: word_of_nat_eq_iff take_bit_eq_mod)
qed

lemma be_loop_big_Bytes: "be_loop v [] = big_Bytes v"
proof (induction v rule: less_induct)
  case (less v)
  show ?case
  proof (cases "0 < v")
    case True
    then have lt: "drop_bit 8 v < v" by (simp add: drop_bit_eq_div)
    have "be_loop v [] = be_loop (drop_bit 8 v) [] @ [word_of_nat (v AND 255)]"
      using True by (simp add: be_loop.simps [of v] be_loop_append [of "drop_bit 8 v" "[_]"])
    with less [OF lt] True show ?thesis
      by (simp add: big_Bytes.simps [of v] and_255 drop_bit_eq_div)
  qed (simp add: be_loop.simps big_Bytes.simps)
qed

definition be_value :: "byte list \<Rightarrow> nat" where
  "be_value bs = foldl (\<lambda>a b. a * 256 + unat b) 0 bs"

lemma be_value_snoc: "be_value (bs @ [b]) = be_value bs * 256 + unat b"
  by (simp add: be_value_def)

lemma be_value_big_Bytes: "be_value (big_Bytes n) = n"
proof (induction n rule: big_Bytes.induct)
  case (1 n)
  show ?case
  proof (cases "n = 0")
    case True
    then show ?thesis by (simp add: big_Bytes.simps be_value_def)
  next
    case False
    with 1 show ?thesis
      by (simp add: big_Bytes.simps [of n] be_value_snoc unat_of_nat)
  qed
qed

lemma big_Bytes_hd: "0 < n \<Longrightarrow> big_Bytes n \<noteq> [] \<and> hd (big_Bytes n) \<noteq> 0"
proof (induction n rule: big_Bytes.induct)
  case (1 n)
  show ?case
  proof (cases "n div 256 = 0")
    case True
    with 1 have "big_Bytes n = [word_of_nat n]" by (simp add: big_Bytes.simps [of n] big_Bytes.simps [of 0])
    moreover have "unat (word_of_nat n :: byte) = n" using True by (simp add: unat_of_nat)
    ultimately show ?thesis using 1(2) by (metis list.distinct(1) list.sel(1) neq0_conv unat_0)
  next
    case False
    with 1 show ?thesis by (simp add: big_Bytes.simps [of n])
  qed
qed

lemma pc_writeMessage_frame:
  assumes "pc_writeMessage pb m c = (r, c')"
  shows "c' = c\<lparr>pc_conn := pc_conn c'\<rparr>" "cn_in (pc_conn c') = cn_in (pc_conn c)"
    "cn_closed (pc_conn c') = cn_closed (pc_conn c)"
  using assms
  by (auto simp: pc_writeMessage_def conn_Write_out(1,3) split: sum.splits prod.splits option.splits)

lemma pc_writeMessage_ok:
  assumes "pb_Marshal pb m = Inr raw" "\<not> cn_closed (pc_conn c)" "cn_room (pc_conn c) = None"
  shows "pc_writeMessage pb m c =
    (None, c\<lparr>pc_conn := (pc_conn c)\<lparr>cn_out := cn_out (pc_conn c) @ frame pb raw\<rparr>\<rparr>)"
  using assms by (simp add: pc_writeMessage_def conn_Write_unlimited frame_def)

lemma pc_readMessage_written:
  assumes "codec_ok pb zero_outer" "pb_Unmarshal pb raw = Inr m" "length raw \<le> 1024 * 1024"
    and "cn_in (pc_conn c) = frame pb raw @ rest" "\<not> cn_closed (pc_conn c)"
  shows "pc_readMessage pb c = (Inr m, c\<lparr>pc_conn := (pc_conn c)\<lparr>cn_in := rest\<rparr>\<rparr>)"
proof -
  have len: "length raw < 2 ^ 63" using assms(3) by simp
  then have u: "unat (word_of_nat (length raw) :: 64 word) = length raw" by (simp add: unat_of_nat)
  have z: "(word_of_nat (length raw) :: 64 word) = 0 \<longleftrightarrow> raw = []"
    using u by (metis length_0_conv unat_0 word_unat_eq_iff)
  have le: "\<not> (1024 * 1024 :: 64 word) < word_of_nat (length raw)"
    using assms(3) u by (simp add: word_less_nat_alt)
  note rd = conn_ReadUvarint_frame [OF assms(1,4) len assms(5)]
  show ?thesis
  proof (cases "raw = []")
    case True
    with codec_okD(2) [OF assms(1)] assms(2) have "m = zero_outer" by simp
    with True rd show ?thesis by (simp add: pc_readMessage_def)
  next
    case False
    with rd z le u assms(2,5) show ?thesis
      by (simp add: pc_readMessage_def conn_ReadFull_append)
  qed
qed

section \<open>The conversation as an exchange of messages\<close>

text \<open>
  What the two ends say: the client's requests with their stages, and the device's replies. The
  client goes on as long as the replies are good, and stops at the first that is not.
\<close>

fun talk :: "(string \<times> outer_message) list \<Rightarrow> outer_message list \<Rightarrow> outer_message list \<times> goerr option" where
  "talk [] replies = ([], None)"
| "talk ((stage, m) # rs) [] = ([m], Some err_EOF)"
| "talk ((stage, m) # rs) (a # as) =
     (case ensureStatusOK a stage of
        Some err \<Rightarrow> ([m], Some err)
      | None \<Rightarrow> (case talk rs as of (ms, r) \<Rightarrow> (m # ms, r)))"

fun raws_of :: "'m pb \<Rightarrow> 'm list \<Rightarrow> byte list" where
  "raws_of pb [] = []"
| "raws_of pb (m # ms) = (case pb_Marshal pb m of Inr raw \<Rightarrow> frame pb raw | Inl _ \<Rightarrow> []) @ raws_of pb ms"

lemma write_read:
  assumes "codec_ok pb zero_outer" "pb_Marshal pb m = Inr mr" "pb_Unmarshal pb ar = Inr a"
    and "length ar \<le> 1024 * 1024"
    and "cn_in (pc_conn p) = frame pb ar @ rest" "\<not> cn_closed (pc_conn p)" "cn_room (pc_conn p) = None"
    and "pc_writeMessage pb m p = (r, p')"
  shows "r = None" "pc_readMessage pb p' = (Inr a, p\<lparr>pc_conn := (pc_conn p)
      \<lparr>cn_in := rest, cn_out := cn_out (pc_conn p) @ frame pb mr\<rparr>\<rparr>)"
proof -
  from assms(8) pc_writeMessage_ok [OF assms(2,6,7)]
  have w: "r = None" "p' = p\<lparr>pc_conn := (pc_conn p)\<lparr>cn_out := cn_out (pc_conn p) @ frame pb mr\<rparr>\<rparr>" by auto
  then show "r = None" by simp
  have "cn_in (pc_conn p') = frame pb ar @ rest" "\<not> cn_closed (pc_conn p')"
    using w assms(5,6) by simp_all
  from pc_readMessage_written [OF assms(1,3,4) this] w
  show "pc_readMessage pb p' = (Inr a, p\<lparr>pc_conn := (pc_conn p)
      \<lparr>cn_in := rest, cn_out := cn_out (pc_conn p) @ frame pb mr\<rparr>\<rparr>)" by simp
qed

text \<open>The requests of \<open>start\<close> with the stages at which their replies are checked.\<close>

definition start_requests :: "pairing_client \<Rightarrow> (string \<times> outer_message) list" where
  "start_requests p =
     [(''pair request ack'', request_message p), (''pair options ack'', options_message),
      (''pair configuration ack'', configuration_message)]"

lemma pc_start_talk:
  assumes "codec_ok pb zero_outer"
    and "pb_Unmarshal pb r1 = Inr a1" "pb_Unmarshal pb r2 = Inr a2" "pb_Unmarshal pb r3 = Inr a3"
    and "length r1 \<le> 1024 * 1024" "length r2 \<le> 1024 * 1024" "length r3 \<le> 1024 * 1024"
    and "cn_in (pc_conn p) = frame pb r1 @ frame pb r2 @ frame pb r3 @ rest"
    and "\<not> cn_closed (pc_conn p)" "cn_room (pc_conn p) = None"
    and "\<And>st m. (st, m) \<in> set (start_requests p) \<Longrightarrow> \<exists>raw. pb_Marshal pb m = Inr raw"
    and "pc_start pb p = (r, p')"
  shows "r = snd (talk (start_requests p) [a1, a2, a3])"
    and "cn_out (pc_conn p') = cn_out (pc_conn p) @ raws_of pb (fst (talk (start_requests p) [a1, a2, a3]))"
    and "r = None \<Longrightarrow> pc_serverName p' = (case om_PairingRequestAck a1 of Some (Some n) \<Rightarrow> n | _ \<Rightarrow> pc_serverName p)"
proof -
  obtain m1 m2 m3 where m: "pb_Marshal pb (request_message p) = Inr m1"
    "pb_Marshal pb options_message = Inr m2" "pb_Marshal pb configuration_message = Inr m3"
    using assms(11) by (fastforce simp: start_requests_def)
  let ?c = "pc_conn p"
  let ?k1 = "?c\<lparr>cn_in := frame pb r2 @ frame pb r3 @ rest, cn_out := cn_out ?c @ frame pb m1\<rparr>"
  let ?k2 = "?c\<lparr>cn_in := frame pb r3 @ rest, cn_out := cn_out ?c @ frame pb m1 @ frame pb m2\<rparr>"
  let ?k3 = "?c\<lparr>cn_in := rest, cn_out := cn_out ?c @ frame pb m1 @ frame pb m2 @ frame pb m3\<rparr>"
  obtain s1 q1 where w1: "pc_writeMessage pb (request_message p) p = (s1, q1)" by fastforce
  note x1 = write_read [OF assms(1) m(1) assms(2,5,8,9,10) w1]
  let ?n = "case om_PairingRequestAck a1 of Some (Some n) \<Rightarrow> n | _ \<Rightarrow> pc_serverName p"
  let ?p1 = "p\<lparr>pc_conn := ?k1, pc_serverName := ?n\<rparr>"
  have p1: "(case om_PairingRequestAck a1 of Some (Some name) \<Rightarrow> (p\<lparr>pc_conn := ?k1\<rparr>)\<lparr>pc_serverName := name\<rparr>
      | _ \<Rightarrow> p\<lparr>pc_conn := ?k1\<rparr>) = ?p1"
    by (auto split: option.split)
  obtain s2 q2 where w2: "pc_writeMessage pb options_message ?p1 = (s2, q2)" by fastforce
  have x2: "s2 = None" "pc_readMessage pb q2 = (Inr a2, ?p1\<lparr>pc_conn := ?k2\<rparr>)"
    using write_read [OF assms(1) m(2) assms(3,6) _ _ _ w2, of "frame pb r3 @ rest"] assms(9,10) by simp_all
  obtain s3 q3 where w3: "pc_writeMessage pb configuration_message (?p1\<lparr>pc_conn := ?k2\<rparr>) = (s3, q3)" by fastforce
  have x3: "s3 = None" "pc_readMessage pb q3 = (Inr a3, ?p1\<lparr>pc_conn := ?k3\<rparr>)"
    using write_read [OF assms(1) m(3) assms(4,7) _ _ _ w3, of rest] assms(9,10) by simp_all
  note w1' = w1 [unfolded x1(1)] and w2' = w2 [unfolded x2(1)] and w3' = w3 [unfolded x3(1)]
  have st: "pc_start pb p =
    (case ensureStatusOK a1 ''pair request ack'' of Some err \<Rightarrow> (Some err, p\<lparr>pc_conn := ?k1\<rparr>)
     | None \<Rightarrow> (case ensureStatusOK a2 ''pair options ack'' of Some err \<Rightarrow> (Some err, ?p1\<lparr>pc_conn := ?k2\<rparr>)
     | None \<Rightarrow> (ensureStatusOK a3 ''pair configuration ack'', ?p1\<lparr>pc_conn := ?k3\<rparr>)))"
    by (simp only: pc_start_def w1' x1(2) prod.case option.case sum.case Let_def p1 w2' x2(2) w3' x3(2))
  have eq: "r = fst (pc_start pb p)" "p' = snd (pc_start pb p)" using assms(12) by simp_all
  show "r = snd (talk (start_requests p) [a1, a2, a3])"
    unfolding eq(1) st start_requests_def by (simp split: option.split)
  show "cn_out (pc_conn p') = cn_out (pc_conn p) @ raws_of pb (fst (talk (start_requests p) [a1, a2, a3]))"
    unfolding eq(2) st start_requests_def by (simp add: m split: option.split)
  show "r = None \<Longrightarrow> pc_serverName p' = ?n"
    unfolding eq st by (simp split: option.split_asm)
qed

lemma computePairingSecret_Inr:
  assumes "computePairingSecret u sha code ck sk = Inr secret"
  obtains cN cE sN sE norm tail pre where "ck = RSA_PublicKey cN cE" "sk = RSA_PublicKey sN sE"
    "NormalizePairingCode u code = Inr norm" "hex_DecodeString (drop 2 norm) = Inr tail"
    "hex_DecodeString (take 2 norm) = Inr pre"
    "secret = sha (big_Bytes cN @ bigEndianIntBytes cE @ big_Bytes sN @ bigEndianIntBytes sE @ tail)"
    "length pre = 1" "secret ! 0 = pre ! 0"
proof -
  obtain cN cE where ck: "ck = RSA_PublicKey cN cE"
    using assms by (cases ck) (simp_all add: computePairingSecret_def)
  obtain sN sE where sk: "sk = RSA_PublicKey sN sE"
    using assms ck by (cases sk) (simp_all add: computePairingSecret_def)
  obtain norm where norm: "NormalizePairingCode u code = Inr norm"
    using assms ck sk by (cases "NormalizePairingCode u code") (simp_all add: computePairingSecret_def)
  obtain tail where tail: "hex_DecodeString (drop 2 norm) = Inr tail"
    using assms ck sk norm by (cases "hex_DecodeString (drop 2 norm)") (simp_all add: computePairingSecret_def)
  obtain pre where pre: "hex_DecodeString (take 2 norm) = Inr pre"
    using assms ck sk norm tail
    by (cases "hex_DecodeString (take 2 norm)") (simp_all add: computePairingSecret_def Let_def)
  from assms show thesis
    by (intro that [OF ck sk norm tail pre])
      (simp_all add: computePairingSecret_def ck sk norm tail pre Let_def split: if_splits)
qed

lemma pc_readMessage_out: "pc_readMessage pb q = (x, q') \<Longrightarrow> cn_out (pc_conn q') = cn_out (pc_conn q)"
  by (auto simp: pc_readMessage_def conn_ReadUvarint_def conn_ReadFull_def split: sum.splits prod.splits if_splits)

text \<open>What a message leaves on the wire: nothing, or a part of its frame.\<close>

lemma pc_writeMessage_out:
  assumes "pc_writeMessage pb m q = (x, q')"
  shows "(\<exists>raw. pb_Marshal pb m = Inr raw \<and>
      (\<exists>w z. cn_out (pc_conn q') = cn_out (pc_conn q) @ w \<and> frame pb raw = w @ z)) \<or>
    cn_out (pc_conn q') = cn_out (pc_conn q)"
proof (cases "pb_Marshal pb m")
  case (Inl e)
  with assms show ?thesis by (auto simp: pc_writeMessage_def)
next
  case (Inr raw)
  obtain x1 k1 where 1: "conn_Write (pb_AppendVarint pb (length raw)) (pc_conn q) = (x1, k1)" by fastforce
  obtain x2 k2 where 2: "conn_Write raw k1 = (x2, k2)" by fastforce
  from conn_Write_out(4) [OF 1] obtain w1 z1 where
    o1: "cn_out k1 = cn_out (pc_conn q) @ w1" "pb_AppendVarint pb (length raw) = w1 @ z1"
      "x1 = None \<longrightarrow> w1 = pb_AppendVarint pb (length raw)" by blast
  from conn_Write_out(4) [OF 2] obtain w2 z2 where
    o2: "cn_out k2 = cn_out k1 @ w2" "raw = w2 @ z2" by blast
  show ?thesis
  proof (cases x1)
    case None
    with assms Inr 1 2 have "pc_conn q' = k2" by (auto simp: pc_writeMessage_def split: option.splits)
    with None o1 o2 Inr show ?thesis unfolding frame_def by (metis append.assoc)
  next
    case (Some e)
    with assms Inr 1 have "pc_conn q' = k1" by (auto simp: pc_writeMessage_def)
    with o1 Inr show ?thesis unfolding frame_def by (metis append.assoc)
  qed
qed

section \<open>Properties\<close>

text \<open>
  C35: The two parsers of pairing codes agree. On ASCII input the protocol's
  \<open>NormalizePairingCode\<close> accepts exactly the codes that the service's \<open>ParseCode\<close> accepts and
  returns the same text, so a code that the service let through is never turned down later.
\<close>

theorem NormalizePairingCode_is_ParseCode:
  assumes "is_ascii raw"
  shows "NormalizePairingCode u raw = Inr c \<longleftrightarrow> ParseCode u raw = Inr c"
proof -
  let ?code = "ToUpper u (TrimSpace raw)"
  have up: "?code = map upper_char (TrimSpace raw)"
    using is_ascii_TrimSpace [OF assms] by (simp add: ToUpper_def)
  have hex: "(\<exists>y. hex_val (upper_char x) = Some y) \<longleftrightarrow> \<not> code_rune_bad (upper_char x)" for x
    by (auto simp: hex_val_def code_rune_bad_def Let_def upper_char_def is_lower_char_def)
  have "(\<exists>bs. hex_DecodeString ?code = Inr bs) \<longleftrightarrow> \<not> list_ex code_rune_bad ?code" if "length ?code = 6"
  proof
    assume "\<exists>bs. hex_DecodeString ?code = Inr bs"
    then have "list_all (\<lambda>r. hex_val r \<noteq> None) ?code" using hex_DecodeString_Inr by blast
    then show "\<not> list_ex code_rune_bad ?code" by (auto simp: up list_all_iff list_ex_iff hex)
  next
    assume "\<not> list_ex code_rune_bad ?code"
    then have "list_all (\<lambda>r. hex_val r \<noteq> None) ?code" by (auto simp: up list_all_iff list_ex_iff hex)
    with that show "\<exists>bs. hex_DecodeString ?code = Inr bs" using hex_DecodeString_ok [of ?code] by auto
  qed
  then show ?thesis
    by (auto simp: NormalizePairingCode_def ParseCode_def Let_def split: sum.splits)
qed

theorem NormalizePairingCode_is_ParseCode_witness:
  "NormalizePairingCode \<lparr>uni_lower = id, uni_upper = id\<rparr> ''a1B2c3'' = Inr ''A1B2C3''"
proof -
  have "ParseCode \<lparr>uni_lower = id, uni_upper = id\<rparr> ''a1B2c3'' = Inr ''A1B2C3''"
    by (subst ParseCode_def, subst TrimSpace_all) (simp add: edge_char_def, code_simp)
  moreover have "is_ascii ''a1B2c3''" by (simp add: is_ascii_def)
  ultimately show ?thesis using NormalizePairingCode_is_ParseCode by blast
qed

text \<open>
  \<open>bigEndianIntBytes\<close> is the big-endian encoding of a number that is not negative: its
  bytes have that value, a positive number has no leading zero byte and the same bytes as
  \<open>big.Int.Bytes\<close> gives, and zero is one byte. A negative number gives no bytes.
\<close>

theorem bigEndianIntBytes_spec:
  "(if v < 0 then bigEndianIntBytes v = []
    else be_value (bigEndianIntBytes v) = nat v \<and>
      (if v = 0 then bigEndianIntBytes v = [0]
       else bigEndianIntBytes v = big_Bytes (nat v) \<and> hd (bigEndianIntBytes v) \<noteq> 0))"
  using be_value_big_Bytes [of "nat v"] big_Bytes_hd [of "nat v"]
  by (auto simp: bigEndianIntBytes_def be_loop_big_Bytes be_value_def big_Bytes.simps [of 0])

text \<open>
  C14: \<open>start\<close> is the conversation of the protocol. It sends the three requests in order, each
  after the device answered the one before with a good status, and fails at the first answer
  that is not good, having sent nothing after it; the name the device gave in its first
  answer is kept.
\<close>

theorem start_is_talk:
  assumes "codec_ok pb zero_outer"
    and "pb_Unmarshal pb r1 = Inr a1" "pb_Unmarshal pb r2 = Inr a2" "pb_Unmarshal pb r3 = Inr a3"
    and "length r1 \<le> 1024 * 1024" "length r2 \<le> 1024 * 1024" "length r3 \<le> 1024 * 1024"
    and "cn_in cn = frame pb r1 @ frame pb r2 @ frame pb r3 @ rest"
    and "\<not> cn_closed cn" "cn_room cn = None"
    and "\<And>st m. (st, m) \<in> set (start_requests (newPairingClient cn sn cln)) \<Longrightarrow> \<exists>raw. pb_Marshal pb m = Inr raw"
    and "pc_start pb (newPairingClient cn sn cln) = (r, p')"
  shows "r = snd (talk (start_requests (newPairingClient cn sn cln)) [a1, a2, a3]) \<and>
    cn_out (pc_conn p') = cn_out cn @ raws_of pb (fst (talk (start_requests (newPairingClient cn sn cln)) [a1, a2, a3])) \<and>
    (r = None \<longrightarrow> pc_serverName p' = (case om_PairingRequestAck a1 of Some (Some n) \<Rightarrow> n | _ \<Rightarrow> []))"
proof -
  have "cn_in (pc_conn (newPairingClient cn sn cln)) = frame pb r1 @ frame pb r2 @ frame pb r3 @ rest"
    "\<not> cn_closed (pc_conn (newPairingClient cn sn cln))" "cn_room (pc_conn (newPairingClient cn sn cln)) = None"
    using assms(8-10) by simp_all
  from pc_start_talk [OF assms(1-7) this assms(11,12)] show ?thesis
    by (simp split: option.split)
qed

text \<open>A codec for the witness that encodes three requests and decodes any one byte as good.\<close>

definition polo_pb :: "outer_message pb" where
  "polo_pb =
     \<lparr>pb_Marshal = (\<lambda>m. if m = zero_outer then Inr []
        else if m = defaultPairingMessage then Inr [1]
        else if m = options_message then Inr [2] else if m = configuration_message then Inr [3]
        else if m = request_message (newPairingClient \<lparr>cn_in = [], cn_end = err_EOF, cn_closed = False,
          cn_out = [], cn_room = None\<rparr> ''atvremote'' ''shrmt'') then Inr [4]
        else Inl (new_err ''other'')),
      pb_Unmarshal = (\<lambda>bs. if bs = [] then Inr zero_outer else if bs = [1] then Inr defaultPairingMessage
        else if bs = [2] then Inr options_message else if bs = [3] then Inr configuration_message
        else if bs = [4] then Inr (request_message (newPairingClient \<lparr>cn_in = [], cn_end = err_EOF,
          cn_closed = False, cn_out = [], cn_room = None\<rparr> ''atvremote'' ''shrmt''))
        else Inl (new_err ''other'')),
      pb_AppendVarint = put_varint\<rparr>"

theorem start_is_talk_witness:
  "fst (pc_start polo_pb (newPairingClient \<lparr>cn_in = [1, 1, 1, 1, 1, 1], cn_end = err_EOF,
     cn_closed = False, cn_out = [], cn_room = None\<rparr> ''atvremote'' ''shrmt'')) = None"
proof -
  let ?k = "\<lparr>cn_in = [1, 1, 1, 1, 1, 1], cn_end = err_EOF, cn_closed = False, cn_out = [], cn_room = None\<rparr>"
  let ?p = "newPairingClient ?k ''atvremote'' ''shrmt''"
  have ok: "codec_ok polo_pb zero_outer"
    by (auto simp: codec_ok_def polo_pb_def nv.read_put split: if_splits)
  have v: "put_varint (Suc 0) = [1]" by code_simp
  have u: "pb_Unmarshal polo_pb [1] = Inr defaultPairingMessage" by (simp add: polo_pb_def)
  have f: "cn_in ?k = frame polo_pb [1] @ frame polo_pb [1] @ frame polo_pb [1] @ []"
    by (simp add: frame_def polo_pb_def v)
  have rm: "request_message ?p = request_message (newPairingClient \<lparr>cn_in = [], cn_end = err_EOF,
      cn_closed = False, cn_out = [], cn_room = None\<rparr> ''atvremote'' ''shrmt'')"
    by (simp add: request_message_def newPairingClient_def)
  have m: "\<exists>raw. pb_Marshal polo_pb m = Inr raw" if "(st, m) \<in> set (start_requests ?p)" for st m
    using that unfolding start_requests_def rm by (auto simp: polo_pb_def)
  have t: "snd (talk (start_requests ?p) [defaultPairingMessage, defaultPairingMessage, defaultPairingMessage]) = None"
    by (simp add: start_requests_def ensureStatusOK_def GetStatus_def defaultPairingMessage_def)
  show ?thesis
    using start_is_talk [OF ok u u u _ _ _ f _ _ m, where r = "fst (pc_start polo_pb ?p)"
        and p' = "snd (pc_start polo_pb ?p)"] t
    by simp
qed

text \<open>
  C6: \<open>finish\<close> proves knowledge of the code before it sends anything: if it writes to the
  device at all, both certificates carry RSA keys, and what it sends is the hash of the two
  keys and the code's last two bytes, whose first byte is the code's first byte.
\<close>

theorem finish_sends_only_matching:
  assumes "pc_finish u lib pb code cert n p = (r, p')" "cn_out (pc_conn p') \<noteq> cn_out (pc_conn p)"
  shows "\<exists>cN cE sN sE rest norm secret tail raw.
    pl_ParseCertificate lib cert = Inr (RSA_PublicKey cN cE) \<and>
    pl_PeerCertificates lib n = RSA_PublicKey sN sE # rest \<and>
    NormalizePairingCode u code = Inr norm \<and> hex_DecodeString (drop 2 norm) = Inr tail \<and>
    secret = pl_sha256 lib (big_Bytes cN @ bigEndianIntBytes cE @ big_Bytes sN @ bigEndianIntBytes sE @ tail) \<and>
    hex_DecodeString (take 2 norm) = Inr [secret ! 0] \<and>
    pb_Marshal pb (secret_message secret) = Inr raw \<and>
    (\<exists>w z. cn_out (pc_conn p') = cn_out (pc_conn p) @ w \<and> frame pb raw = w @ z)"
proof -
  have one: "length p = 1 \<Longrightarrow> s ! 0 = p ! 0 \<Longrightarrow> p = [s ! 0]" for p s :: "byte list"
    by (cases p) auto
  obtain ck where ck: "pl_ParseCertificate lib cert = Inr ck"
    using assms by (cases "pl_ParseCertificate lib cert") (auto simp: pc_finish_def)
  obtain sk ss where sk: "pl_PeerCertificates lib n = sk # ss"
    using assms ck by (cases "pl_PeerCertificates lib n") (auto simp: pc_finish_def)
  obtain secret where sec: "computePairingSecret u (pl_sha256 lib) code ck sk = Inr secret"
    using assms ck sk
    by (cases "computePairingSecret u (pl_sha256 lib) code ck sk") (auto simp: pc_finish_def)
  obtain x q where q: "pc_writeMessage pb (secret_message secret) p = (x, q)" by fastforce
  obtain y q2 where q2: "pc_readMessage pb q = (y, q2)" by fastforce
  have "cn_out (pc_conn p') = cn_out (pc_conn q)"
    using assms(1) ck sk sec q q2 pc_readMessage_out [OF q2]
    by (cases x; cases y) (simp_all add: pc_finish_def)
  note h = ck sk sec q this
  with assms(2) pc_writeMessage_out [OF h(4)] obtain raw where raw: "pb_Marshal pb (secret_message secret) = Inr raw"
    "\<exists>w z. cn_out (pc_conn p') = cn_out (pc_conn p) @ w \<and> frame pb raw = w @ z" by auto
  from h(3) obtain cN cE sN sE norm tail pre where
    "ck = RSA_PublicKey cN cE" "sk = RSA_PublicKey sN sE" "NormalizePairingCode u code = Inr norm"
    "hex_DecodeString (drop 2 norm) = Inr tail" "hex_DecodeString (take 2 norm) = Inr pre"
    "secret = pl_sha256 lib (big_Bytes cN @ bigEndianIntBytes cE @ big_Bytes sN @ bigEndianIntBytes sE @ tail)"
    "length pre = 1" "secret ! 0 = pre ! 0"
    by (rule computePairingSecret_Inr)
  note c = this
  have pre: "pre = [secret ! 0]" using one [OF c(7,8)] .
  have sk': "pl_PeerCertificates lib n = RSA_PublicKey sN sE # ss" using sk c(2) by simp
  have ck': "pl_ParseCertificate lib cert = Inr (RSA_PublicKey cN cE)" using ck c(1) by simp
  have hx: "hex_DecodeString (take 2 norm) = Inr [secret ! 0]" using c(5) pre by simp
  obtain w z where wz: "cn_out (pc_conn p') = cn_out (pc_conn p) @ w" "frame pb raw = w @ z" using raw(2) by blast
  show ?thesis by (intro exI conjI) (rule ck' sk' c(3) c(4) c(6) hx raw(1) wz)+
qed

text \<open>A library, a codec and a connection for the witness.\<close>

definition finish_lib :: pair_lib where
  "finish_lib = \<lparr>pl_sha256 = (\<lambda>bs. 0xA1 # take 3 bs), pl_ParseCertificate = (\<lambda>_. Inr (RSA_PublicKey 5 3)),
     pl_PeerCertificates = (\<lambda>_. [RSA_PublicKey 7 3])\<rparr>"

definition finish_pb :: "outer_message pb" where
  "finish_pb = \<lparr>pb_Marshal = (\<lambda>m. Inr (case om_Secret m of None \<Rightarrow> [] | Some s \<Rightarrow> s)),
     pb_Unmarshal = (\<lambda>_. Inr defaultPairingMessage), pb_AppendVarint = (\<lambda>n. [word_of_nat n])\<rparr>"

definition finish_client :: pairing_client where
  "finish_client = newPairingClient \<lparr>cn_in = [1, 1], cn_end = err_EOF, cn_closed = False, cn_out = [],
     cn_room = None\<rparr> ''atvremote'' ''shrmt''"

definition ascii_unicode :: unicode where
  "ascii_unicode = \<lparr>uni_lower = id, uni_upper = id\<rparr>"

lemma NormalizePairingCode_example: "NormalizePairingCode ascii_unicode ''A1B2C3'' = Inr ''A1B2C3''"
  by (subst NormalizePairingCode_def, subst TrimSpace_all) (simp add: edge_char_def, code_simp)

lemma secret_example:
  "computePairingSecret ascii_unicode (pl_sha256 finish_lib) ''A1B2C3'' (RSA_PublicKey 5 3) (RSA_PublicKey 7 3) =
     Inr [0xA1, 5, 3, 7]"
proof -
  have "be_loop 5 [] = [5]" "be_loop 3 [] = [3]" "be_loop 7 [] = [7]" by code_simp+
  moreover have "hex_DecodeString ''B2C3'' = Inr [0xB2, 0xC3]" "hex_DecodeString ''A1'' = Inr [0xA1]"
    by code_simp+
  moreover have "big_Bytes 5 = [5]" "big_Bytes 7 = [7]" "bigEndianIntBytes 3 = [3]" by code_simp+
  ultimately show ?thesis
    by (simp add: computePairingSecret_def NormalizePairingCode_example finish_lib_def)
qed

lemma finish_example:
  "pc_finish ascii_unicode finish_lib finish_pb ''A1B2C3'' cert 1 finish_client =
     (None, finish_client\<lparr>pc_conn := (pc_conn finish_client)\<lparr>cn_in := [], cn_out := [4, 0xA1, 5, 3, 7]\<rparr>\<rparr>)"
proof -
  have w: "pc_writeMessage finish_pb (secret_message [0xA1, 5, 3, 7]) finish_client =
      (None, finish_client\<lparr>pc_conn := (pc_conn finish_client)\<lparr>cn_out := [4, 0xA1, 5, 3, 7]\<rparr>\<rparr>)"
    by code_simp
  have r: "pc_readMessage finish_pb (finish_client\<lparr>pc_conn := (pc_conn finish_client)\<lparr>cn_out := [4, 0xA1, 5, 3, 7]\<rparr>\<rparr>) =
      (Inr defaultPairingMessage, finish_client\<lparr>pc_conn := (pc_conn finish_client)\<lparr>cn_in := [], cn_out := [4, 0xA1, 5, 3, 7]\<rparr>\<rparr>)"
    by code_simp
  have e: "ensureStatusOK defaultPairingMessage ''pair secret ack'' = None" by code_simp
  have k: "pl_ParseCertificate finish_lib cert = Inr (RSA_PublicKey 5 3)"
    "pl_PeerCertificates finish_lib 1 = [RSA_PublicKey 7 3]" by (simp_all add: finish_lib_def)
  show ?thesis by (simp only: pc_finish_def k secret_example w r e sum.case list.case option.case prod.case)
qed

theorem finish_sends_only_matching_witness:
  "\<exists>norm tail raw. NormalizePairingCode ascii_unicode ''A1B2C3'' = Inr norm \<and> hex_DecodeString (drop 2 norm) = Inr tail \<and>
    pb_Marshal finish_pb (secret_message (pl_sha256 finish_lib
      (big_Bytes 5 @ bigEndianIntBytes 3 @ big_Bytes 7 @ bigEndianIntBytes 3 @ tail))) = Inr raw"
proof -
  have "cn_out (pc_conn (finish_client\<lparr>pc_conn := (pc_conn finish_client)\<lparr>cn_in := [], cn_out := [4, 0xA1, 5, 3, 7]\<rparr>\<rparr>)) \<noteq>
      cn_out (pc_conn finish_client)"
    by (simp add: finish_client_def newPairingClient_def)
  from finish_sends_only_matching [OF finish_example [of undefined] this] show ?thesis
    by (auto simp: finish_lib_def)
qed

end
