(* ===== verification/Android_Tv.thy ===== *)
theory Android_Tv
  imports Pairing_Protocol Remote_Core
begin

text \<open>
  Package \<open>adapters/out/androidtv\<close>: the sender that keeps one session to the device and dials
  again once when it fails, and the pairer. The fields of the \<open>Sender\<close> are part of the world;
  its mutex makes each operation one step, so the operations are functions on the world.
\<close>

section \<open>Data\<close>

definition wakeKeyDelay :: int where "wakeKeyDelay = 750 * 1000000"
definition wakeLaunchPackage :: string where "wakeLaunchPackage = ''com.google.android.youtube.tv''"

record session_config =
  sc_host :: string
  sc_port :: int
  sc_certPath :: string
  sc_keyPath :: string

definition zero_config :: session_config where
  "zero_config = \<lparr>sc_host = [], sc_port = 0, sc_certPath = [], sc_keyPath = []\<rparr>"

record send_step =
  st_key :: string
  st_appLink :: string
  st_postDelay :: int

record atv_world = fs +
  aw_now :: nat
  aw_session :: "session option"
  aw_config :: session_config

text \<open>A nil pointer that is dereferenced panics; the panic is an error of its own.\<close>

definition nil_panic :: goerr where "nil_panic = Sentinel ''invalid memory address or nil pointer dereference''"

section \<open>What is sent\<close>

definition actionToAndroidTV :: "action \<Rightarrow> string res" where
  "actionToAndroidTV act =
     (if act \<in> set [Back, Down, Enter, FastForward, Home, Left, Menu, Mute, PlayPause, Power, Rewind,
          Right, Sleep, Up, VolumeDown, VolumeUp, Wakeup]
      then Inr (action_String act)
      else Inl (Errorf ''unsupported android tv action %q'' [FS act] None))"

definition planSendSteps :: "action \<Rightarrow> bool \<Rightarrow> bool \<Rightarrow> send_step list res" where
  "planSendSteps act powered hasPower =
     (case actionToAndroidTV act of
        Inl err \<Rightarrow> Inl err
      | Inr mapped \<Rightarrow>
          if \<not> hasPower then Inr [\<lparr>st_key = mapped, st_appLink = [], st_postDelay = 0\<rparr>]
          else if \<not> powered \<and> (act = Home \<or> act = Power)
          then Inr [\<lparr>st_key = [], st_appLink = wakeLaunchPackage, st_postDelay = wakeKeyDelay\<rparr>,
                    \<lparr>st_key = action_String Home, st_appLink = [], st_postDelay = 0\<rparr>]
          else Inr [\<lparr>st_key = mapped, st_appLink = [], st_postDelay = 0\<rparr>])"

text \<open>The loop of \<open>sendAction\<close>; the result of the last step is the result.\<close>

fun send_steps ::
  "atv_env \<Rightarrow> remote_message pb \<Rightarrow> send_step list \<Rightarrow> send_key_result option \<Rightarrow> session \<Rightarrow> nat \<Rightarrow>
    send_key_result option res \<times> session \<times> nat" where
  "send_steps env pb [] result s n = (Inr result, s, n)"
| "send_steps env pb (step # steps) result s n =
     (if st_appLink step \<noteq> [] then
        (case LaunchAppLink env pb s (st_appLink step) n of
           (Some err, s, n) \<Rightarrow> (Inl err, s, n)
         | (None, s, n) \<Rightarrow>
             (let s = s\<lparr>ss_client := map_option (run_rounds pb (en_rounds env n)) (ss_client s)\<rparr> in
              case (if 0 < st_postDelay step then en_Done env n else None) of
                Some err \<Rightarrow> (Inl err, s, n + 1)
              | None \<Rightarrow> send_steps env pb steps (Snapshot s (''launch:'' @ st_appLink step)) s (n + 1)))
      else
        (case SendKeyWithDelay env pb s (st_key step) (st_postDelay step) n of
           (Inl err, s, n) \<Rightarrow> (Inl err, s, n)
         | (Inr result, s, n) \<Rightarrow> send_steps env pb steps result s n))"

definition sendAction ::
  "atv_env \<Rightarrow> remote_message pb \<Rightarrow> session \<Rightarrow> action \<Rightarrow> nat \<Rightarrow> send_key_result option res \<times> session \<times> nat" where
  "sendAction env pb s act n =
     (let (powered, hasPower) = PowerState s in
      case planSendSteps act powered hasPower of
        Inl err \<Rightarrow> (Inl err, s, n)
      | Inr steps \<Rightarrow> send_steps env pb steps None s n)"

section \<open>The session of the sender\<close>

definition closeSessionLocked :: "'a atv_world_scheme \<Rightarrow> 'a atv_world_scheme" where
  "closeSessionLocked w = w\<lparr>aw_session := None, aw_config := zero_config\<rparr>"

definition config_of :: "target \<Rightarrow> credentials \<Rightarrow> session_config" where
  "config_of t creds = \<lparr>sc_host = t_Host t, sc_port = t_Port t, sc_certPath = cr_CertPath creds,
     sc_keyPath = cr_KeyPath creds\<rparr>"

definition dial_params :: "target \<Rightarrow> credentials \<Rightarrow> send_key_params" where
  "dial_params t creds = \<lparr>sp_Host = t_Host t, sp_Port = t_Port t, sp_CertPath = cr_CertPath creds,
     sp_KeyPath = cr_KeyPath creds, sp_ReadyTimeout = 0, sp_PostDelay = 0\<rparr>"

definition ensureSessionLocked ::
  "atv_env \<Rightarrow> remote_message pb \<Rightarrow> target \<Rightarrow> credentials \<Rightarrow> 'a atv_world_scheme \<Rightarrow>
    session res \<times> 'a atv_world_scheme" where
  "ensureSessionLocked env pb t creds w =
     (let cfg = config_of t creds in
      if aw_session w \<noteq> None \<and> aw_config w = cfg then (Inr (the (aw_session w)), w)
      else
        (let w = closeSessionLocked w in
         case DialSession env pb (dial_params t creds) (aw_now w) of
           (Inl err, n) \<Rightarrow> (Inl err, w\<lparr>aw_now := n\<rparr>)
         | (Inr s, n) \<Rightarrow> (Inr s, w\<lparr>aw_now := n, aw_session := Some s, aw_config := cfg\<rparr>)))"

text \<open>The session object is shared: what an operation does to it is seen through the sender.\<close>

definition on_session ::
  "(session \<Rightarrow> nat \<Rightarrow> 'r \<times> session \<times> nat) \<Rightarrow> session \<Rightarrow> 'a atv_world_scheme \<Rightarrow> 'r \<times> 'a atv_world_scheme" where
  "on_session f s w =
     (case f s (aw_now w) of (r, s, n) \<Rightarrow> (r, w\<lparr>aw_now := n, aw_session := Some s\<rparr>))"

definition ask_ctx :: "atv_env \<Rightarrow> 'a atv_world_scheme \<Rightarrow> goerr option \<times> 'a atv_world_scheme" where
  "ask_ctx env w = (en_Err env (aw_now w), w\<lparr>aw_now := aw_now w + 1\<rparr>)"

definition sendWithPersistentSession ::
  "atv_env \<Rightarrow> remote_message pb \<Rightarrow> target \<Rightarrow> credentials \<Rightarrow> action \<Rightarrow> 'a atv_world_scheme \<Rightarrow>
    send_key_result option res \<times> 'a atv_world_scheme" where
  "sendWithPersistentSession env pb t creds act w =
     (case ensureSessionLocked env pb t creds w of
        (Inl err, w) \<Rightarrow> (Inl err, w)
      | (Inr s, w) \<Rightarrow>
          (case on_session (\<lambda>s. sendAction env pb s act) s w of
             (Inr result, w) \<Rightarrow> (Inr result, w)
           | (Inl err, w) \<Rightarrow>
               (case ask_ctx env w of
                  (Some _, w) \<Rightarrow> (Inl err, w)
                | (None, w) \<Rightarrow>
                    (case ensureSessionLocked env pb t creds (closeSessionLocked w) of
                       (Inl reconnectErr, w) \<Rightarrow> (Inl reconnectErr, w)
                     | (Inr s, w) \<Rightarrow> on_session (\<lambda>s. sendAction env pb s act) s w))))"

definition atv_Send :: "atv_env \<Rightarrow> remote_message pb \<Rightarrow> 'a atv_world_scheme send_fun" where
  "atv_Send env pb t creds act w =
     (case sendWithPersistentSession env pb t creds act w of
        (Inl err, w) \<Rightarrow> (Inl err, w)
      | (Inr None, w) \<Rightarrow> (Inl nil_panic, w)
      | (Inr (Some result), w) \<Rightarrow>
          (Inr \<lparr>sr_Action = act, sr_SupportedFeatures = kr_SupportedFeatures result,
             sr_ActiveFeatures = kr_ActiveFeatures result,
             sr_Powered = (if kr_HasPowerState result then Some (kr_Powered result) else None)\<rparr>, w))"

definition atv_Warmup :: "atv_env \<Rightarrow> remote_message pb \<Rightarrow> 'a atv_world_scheme warmup_fun" where
  "atv_Warmup env pb t creds w =
     (case ensureSessionLocked env pb t creds w of
        (Inl err, w) \<Rightarrow> (Some err, w)
      | (Inr _, w) \<Rightarrow> (None, w))"

definition atv_Launch :: "atv_env \<Rightarrow> remote_message pb \<Rightarrow> 'a atv_world_scheme launch_fun" where
  "atv_Launch env pb t creds link w =
     (case ensureSessionLocked env pb t creds w of
        (Inl err, w) \<Rightarrow> (Some err, w)
      | (Inr s, w) \<Rightarrow>
          (case on_session (\<lambda>s. LaunchAppLink env pb s link) s w of
             (None, w) \<Rightarrow> (None, w)
           | (Some err, w) \<Rightarrow>
               (case ask_ctx env w of
                  (Some _, w) \<Rightarrow> (Some err, w)
                | (None, w) \<Rightarrow>
                    (case ensureSessionLocked env pb t creds (closeSessionLocked w) of
                       (Inl reconnectErr, w) \<Rightarrow> (Some reconnectErr, w)
                     | (Inr s, w) \<Rightarrow> on_session (\<lambda>s. LaunchAppLink env pb s link) s w))))"

definition atv_sender :: "atv_env \<Rightarrow> remote_message pb \<Rightarrow> 'a atv_world_scheme sender" where
  "atv_sender env pb = \<lparr>sn_Send = atv_Send env pb, sn_Warmup = Some (atv_Warmup env pb),
     sn_Launch = Some (atv_Launch env pb)\<rparr>"

section \<open>The pairer\<close>

definition pairer_Pair ::
  "atv_env \<Rightarrow> pair_lib \<Rightarrow> cert_lib \<Rightarrow> outer_message pb \<Rightarrow> int \<Rightarrow> nat \<Rightarrow> 'a fs_scheme pairer" where
  "pairer_Pair env lib clib pb pairingPort n req w =
     (let port = (if pairingPort = 0 then DefaultPairingPort else pairingPort);
          params = \<lparr>pa_Host = t_Host (pq_Target req), pa_Port = port, pa_ClientName = pq_ClientName req,
            pa_ServiceName = pq_ServiceName req, pa_PairingCode = pq_Code req,
            pa_CodeProvider = pq_CodeProvider req,
            pa_CertPath = cr_CertPath (pq_Credentials req), pa_KeyPath = cr_KeyPath (pq_Credentials req)\<rparr>
      in
      case atv_Pair env lib clib pb params n w of
        (Inl err, w) \<Rightarrow> (Inl err, w)
      | (Inr result, w) \<Rightarrow>
          (Inr \<lparr>cr_CertPath = prs_CertPath result, cr_KeyPath = prs_KeyPath result,
             cr_Source = ''shrmt''\<rparr>, w))"

section \<open>Lemmas\<close>

text \<open>
  The invariant of the sender: a kept session is in order, and was dialled to the host and the
  port, and with the certificate and the key, that it is filed under.
\<close>

definition sender_inv :: "atv_env \<Rightarrow> remote_message pb \<Rightarrow> 'a atv_world_scheme \<Rightarrow> bool" where
  "sender_inv env pb w \<longleftrightarrow>
     (case aw_session w of
        None \<Rightarrow> True
      | Some s \<Rightarrow> session_ok env pb s \<and> sp_Host (ss_params s) = sc_host (aw_config w) \<and>
          sp_Port (ss_params s) = (if sc_port (aw_config w) = 0 then 6466 else sc_port (aw_config w)) \<and>
          sp_CertPath (ss_params s) = sc_certPath (aw_config w) \<and>
          sp_KeyPath (ss_params s) = sc_keyPath (aw_config w))"

lemma sender_inv_close [simp]: "sender_inv env pb (closeSessionLocked w)"
  by (simp add: sender_inv_def closeSessionLocked_def)

lemma sender_inv_now [simp]: "sender_inv env pb (w\<lparr>aw_now := n\<rparr>) = sender_inv env pb w"
  by (simp add: sender_inv_def split: option.split)

text \<open>What follows \<open>ensureSessionLocked\<close>: on success the session it returns is the kept one.\<close>

lemma ensureSession_ok:
  assumes "ensureSessionLocked env pb t creds w = (r, w')" "sender_inv env pb w"
  shows "sender_inv env pb w'"
    and "r = Inr s \<Longrightarrow> aw_session w' = Some s \<and> session_ok env pb s \<and> aw_config w' = config_of t creds"
proof -
  have "sender_inv env pb w' \<and> (\<forall>s. r = Inr s \<longrightarrow> aw_session w' = Some s \<and> session_ok env pb s \<and> aw_config w' = config_of t creds)"
  proof (cases "aw_session w \<noteq> None \<and> aw_config w = config_of t creds")
    case True
    with assms show ?thesis by (auto simp: ensureSessionLocked_def sender_inv_def)
  next
    case False
    obtain d n where d: "DialSession env pb (dial_params t creds) (aw_now (closeSessionLocked w)) = (d, n)" by fastforce
    show ?thesis
    proof (cases d)
      case (Inl e)
      with assms(1) False d have "r = Inl e" "w' = (closeSessionLocked w)\<lparr>aw_now := n\<rparr>"
        by (auto simp: ensureSessionLocked_def Let_def)
      then show ?thesis by simp
    next
      case (Inr s0)
      with assms(1) False d have w': "r = Inr s0"
        "w' = (closeSessionLocked w)\<lparr>aw_now := n, aw_session := Some s0, aw_config := config_of t creds\<rparr>"
        by (auto simp: ensureSessionLocked_def Let_def)
      from d Inr have ok: "session_ok env pb s0" "ss_params s0 = normalizeSessionParams (dial_params t creds)"
        using DialSession_ok by blast+
      with w' show ?thesis by (simp add: sender_inv_def config_of_def dial_params_def normalizeSessionParams_Port)
    qed
  qed
  then show "sender_inv env pb w'"
    and "r = Inr s \<Longrightarrow> aw_session w' = Some s \<and> session_ok env pb s \<and> aw_config w' = config_of t creds" by auto
qed

text \<open>An operation that keeps a session usable keeps the sender's invariant.\<close>

definition session_safe :: "atv_env \<Rightarrow> remote_message pb \<Rightarrow> (session \<Rightarrow> nat \<Rightarrow> 'r \<times> session \<times> nat) \<Rightarrow> bool" where
  "session_safe env pb f \<longleftrightarrow>
     (\<forall>s n r s' n'. session_ok env pb s \<longrightarrow> f s n = (r, s', n') \<longrightarrow> session_ok env pb s' \<and> ss_params s' = ss_params s)"

lemma on_session_ok:
  assumes "session_safe env pb f" "sender_inv env pb w" "aw_session w = Some s" "on_session f s w = (r, w')"
  shows "sender_inv env pb w'" "aw_config w' = aw_config w"
proof -
  obtain r1 s1 n1 where f: "f s (aw_now w) = (r1, s1, n1)" by (metis prod_cases3)
  have s: "session_ok env pb s" using assms(2,3) by (simp add: sender_inv_def)
  with f assms(1) have s1: "session_ok env pb s1 \<and> ss_params s1 = ss_params s" unfolding session_safe_def by blast
  from f assms(4) have w': "w' = w\<lparr>aw_now := n1, aw_session := Some s1\<rparr>" by (simp add: on_session_def)
  with s1 assms(2,3) show "sender_inv env pb w'" "aw_config w' = aw_config w" by (simp_all add: sender_inv_def)
qed

lemma SendKeyWithDelay_ok:
  assumes "session_ok env pb s" "SendKeyWithDelay env pb s act delay n = (r, s', n')"
  shows "session_ok env pb s' \<and> ss_params s' = ss_params s"
  using assms sendKeyCodeWithDelay_ok [OF assms(1)]
  by (auto simp: SendKeyWithDelay_def split: sum.splits)

lemma SendKeyWithDelay_some:
  assumes "SendKeyWithDelay env pb s act delay n = (Inr r, s', n')"
  shows "r \<noteq> None"
  using assms
  by (auto simp: SendKeyWithDelay_def sendKeyCodeWithDelay_def Snapshot_def Let_def
      split: sum.splits option.splits prod.splits if_splits)

lemma session_ok_rounds:
  assumes "session_ok env pb s"
  shows "session_ok env pb (s\<lparr>ss_client := map_option (run_rounds pb k) (ss_client s)\<rparr>)"
proof -
  from assms obtain c where c: "ss_client s = Some c" by (auto simp: session_ok_def)
  with session_ok_client [OF assms c, of "run_rounds pb k c"] client_of_rounds
  show ?thesis by fastforce
qed

lemma send_steps_ok:
  assumes "session_ok env pb s" "send_steps env pb steps res s n = (r, s', n')"
  shows "session_ok env pb s' \<and> ss_params s' = ss_params s \<and> (\<forall>x. r = Inr x \<longrightarrow> x \<noteq> None \<or> steps = [] \<and> x = res)"
  using assms
proof (induction steps arbitrary: res s n)
  case (Cons step steps)
  show ?case
  proof (cases "st_appLink step = []")
    case True
    obtain r1 s1 n1 where k: "SendKeyWithDelay env pb s (st_key step) (st_postDelay step) n = (r1, s1, n1)"
      by (metis prod_cases3)
    note ok = SendKeyWithDelay_ok [OF Cons.prems(1) k]
    show ?thesis
    proof (cases r1)
      case (Inl e)
      with True k ok Cons.prems(2) show ?thesis by auto
    next
      case (Inr x)
      with k have "x \<noteq> None" using SendKeyWithDelay_some by blast
      moreover from True k Inr Cons.prems(2) have "send_steps env pb steps x s1 n1 = (r, s', n')" by simp
      ultimately show ?thesis using Cons.IH [of s1 x n1] ok by auto
    qed
  next
    case False
    obtain r1 s1 n1 where l: "LaunchAppLink env pb s (st_appLink step) n = (r1, s1, n1)" by (metis prod_cases3)
    note ok = LaunchAppLink_ok [OF Cons.prems(1) l]
    show ?thesis
    proof (cases r1)
      case (Some e)
      with False l ok Cons.prems(2) show ?thesis by auto
    next
      case None
      let ?s2 = "s1\<lparr>ss_client := map_option (run_rounds pb (en_rounds env n1)) (ss_client s1)\<rparr>"
      have ok2: "session_ok env pb ?s2" "ss_params ?s2 = ss_params s" using session_ok_rounds [OF ok(1)] ok(2) by simp_all
      have some: "Snapshot ?s2 a \<noteq> None" for a
        using ok(1) by (auto simp: Snapshot_def session_ok_def Let_def getFeatures_def getPowerState_def)
      show ?thesis
      proof (cases "if 0 < st_postDelay step then en_Done env n1 else None")
        case (Some e)
        with False None l ok2 Cons.prems(2) show ?thesis by (auto simp: Let_def)
      next
        case none: None
        with False None l Cons.prems(2)
        have "send_steps env pb steps (Snapshot ?s2 (''launch:'' @ st_appLink step)) ?s2 (n1 + 1) = (r, s', n')"
          by (simp add: Let_def)
        with Cons.IH [OF ok2(1) this] ok2(2) some show ?thesis by auto
      qed
    qed
  qed
qed auto

lemma planSendSteps_nonempty: "planSendSteps act p h = Inr steps \<Longrightarrow> steps \<noteq> []"
  by (auto simp: planSendSteps_def split: sum.splits if_splits)

lemma sendAction_ok:
  assumes "session_ok env pb s" "sendAction env pb s act n = (r, s', n')"
  shows "session_ok env pb s' \<and> ss_params s' = ss_params s \<and> (\<forall>x. r = Inr x \<longrightarrow> x \<noteq> None)"
proof -
  obtain p h where ph: "PowerState s = (p, h)" by fastforce
  show ?thesis
  proof (cases "planSendSteps act p h")
    case (Inl e)
    with assms ph show ?thesis by (auto simp: sendAction_def)
  next
    case (Inr steps)
    with assms(2) ph have "send_steps env pb steps None s n = (r, s', n')" by (simp add: sendAction_def)
    from send_steps_ok [OF assms(1) this] planSendSteps_nonempty [OF Inr] show ?thesis by auto
  qed
qed

lemma safe_sendAction: "session_safe env pb (\<lambda>s. sendAction env pb s act)"
  using sendAction_ok by (fastforce simp: session_safe_def)

lemma safe_LaunchAppLink: "session_safe env pb (\<lambda>s. LaunchAppLink env pb s link)"
  using LaunchAppLink_ok by (fastforce simp: session_safe_def)

text \<open>What a success leaves: a session filed under the target, whose client has no error.\<close>

definition kept_for :: "session_config \<Rightarrow> 'a atv_world_scheme \<Rightarrow> bool" where
  "kept_for cfg w \<longleftrightarrow> aw_config w = cfg \<and>
     (\<exists>s c. aw_session w = Some s \<and> ss_client s = Some c \<and> getErr c = None)"

lemma send_steps_no_error:
  assumes "send_steps env pb steps res s n = (Inr r, s', n')" "steps \<noteq> []" "st_appLink (last steps) = []"
  shows "\<exists>c. ss_client s' = Some c \<and> getErr c = None"
  using assms
proof (induction env pb steps res s n rule: send_steps.induct)
  case (2 env pb step steps result s n)
  show ?case
  proof (cases "steps = []")
    case True
    with "2.prems" have "\<exists>n0 x. SendKeyWithDelay env pb s (st_key step) (st_postDelay step) n = (Inr x, s', n0)"
      by (auto split: sum.splits prod.splits)
    then show ?thesis
      using sendKeyCodeWithDelay_no_error by (fastforce simp: SendKeyWithDelay_def split: sum.splits)
  next
    case False
    with "2.prems" "2.IH" show ?thesis
      by (auto simp: Let_def split: if_splits option.splits sum.splits prod.splits)
  qed
qed simp

lemma planSendSteps_last: "planSendSteps act p h = Inr steps \<Longrightarrow> steps \<noteq> [] \<and> st_appLink (last steps) = []"
  by (auto simp: planSendSteps_def split: sum.splits if_splits)

lemma sendAction_no_error:
  assumes "sendAction env pb s act n = (Inr r, s', n')"
  shows "\<exists>c. ss_client s' = Some c \<and> getErr c = None"
proof -
  obtain p h where ph: "PowerState s = (p, h)" by fastforce
  with assms obtain steps where st: "planSendSteps act p h = Inr steps"
    and r: "send_steps env pb steps None s n = (Inr r, s', n')"
    by (auto simp: sendAction_def split: sum.splits)
  from send_steps_no_error [OF r] planSendSteps_last [OF st] show ?thesis by blast
qed

lemma ensured_config:
  "ensureSessionLocked env pb t creds w = (Inr s, w') \<Longrightarrow> aw_config w' = config_of t creds \<and> aw_session w' = Some s"
  by (auto simp: ensureSessionLocked_def Let_def split: if_splits prod.splits sum.splits)

lemma on_session_kept:
  assumes "aw_config w = cfg" "on_session f s w = (r, w')"
    and "\<And>s' n'. f s (aw_now w) = (r, s', n') \<Longrightarrow> \<exists>c. ss_client s' = Some c \<and> getErr c = None"
  shows "kept_for cfg w'"
  using assms by (auto simp: on_session_def kept_for_def split: prod.splits)

lemma sendAction_kept:
  assumes "ensureSessionLocked env pb t creds w = (Inr s, w1)"
    and "on_session (\<lambda>s. sendAction env pb s act) s w1 = (Inr r, w')"
  shows "kept_for (config_of t creds) w'"
  using on_session_kept [OF _ assms(2)] ensured_config [OF assms(1)] sendAction_no_error by blast

lemma Launch_kept:
  assumes "ensureSessionLocked env pb t creds w = (Inr s, w1)"
    and "on_session (\<lambda>s. LaunchAppLink env pb s link) s w1 = (None, w')"
  shows "kept_for (config_of t creds) w'"
  using on_session_kept [OF _ assms(2)] ensured_config [OF assms(1)] LaunchAppLink_no_error by blast

lemma persistent_kept:
  "sendWithPersistentSession env pb t creds act w = (Inr r, w') \<Longrightarrow> kept_for (config_of t creds) w'"
  by (auto simp: sendWithPersistentSession_def dest: sendAction_kept split: prod.splits sum.splits option.splits)

lemma atv_Launch_kept:
  "atv_Launch env pb t creds link w = (None, w') \<Longrightarrow> kept_for (config_of t creds) w'"
  by (auto simp: atv_Launch_def dest: Launch_kept split: prod.splits sum.splits option.splits)

text \<open>Two attempts: the one on the session that was kept or dialled, and one on a new one.\<close>

lemma persistent_ok:
  assumes "sendWithPersistentSession env pb t creds act w = (r, w')" "sender_inv env pb w"
  shows "sender_inv env pb w'" "r = Inr x \<Longrightarrow> x \<noteq> None"
proof -
  have op: "sender_inv env pb w2 \<and> (\<forall>x. r2 = Inr x \<longrightarrow> x \<noteq> None)"
    if "ensureSessionLocked env pb t creds w1 = (Inr s, w1')" "sender_inv env pb w1"
      "on_session (\<lambda>s. sendAction env pb s act) s w1' = (r2, w2)" for w1 s w1' r2 w2
  proof -
    note e = ensureSession_ok [OF that(1,2)]
    have "aw_session w1' = Some s \<and> session_ok env pb s" using e(2) by blast
    with on_session_ok(1) [OF safe_sendAction e(1) _ that(3)] sendAction_ok [of env pb s act "aw_now w1'"] that(3)
    show ?thesis by (auto simp: on_session_def split: prod.splits)
  qed
  obtain r1 w1 where 1: "ensureSessionLocked env pb t creds w = (r1, w1)" by fastforce
  have "sender_inv env pb w' \<and> (\<forall>x. r = Inr x \<longrightarrow> x \<noteq> None)"
  proof (cases r1)
    case (Inl e)
    with 1 assms ensureSession_ok(1) [OF 1 assms(2)] show ?thesis
      by (auto simp: sendWithPersistentSession_def)
  next
    case (Inr s)
    obtain r2 w2 where 2: "on_session (\<lambda>s. sendAction env pb s act) s w1 = (r2, w2)" by fastforce
    note op1 = op [OF 1 [unfolded Inr] assms(2) 2]
    show ?thesis
    proof (cases r2)
      case r2: (Inr x)
      with 1 2 Inr op1 assms show ?thesis by (auto simp: sendWithPersistentSession_def)
    next
      case r2: (Inl e)
      let ?w3 = "w2\<lparr>aw_now := aw_now w2 + 1\<rparr>"
      obtain r4 w4 where 4: "ensureSessionLocked env pb t creds (closeSessionLocked ?w3) = (r4, w4)" by fastforce
      have i4: "sender_inv env pb w4" using 4 by (rule ensureSession_ok) simp
      show ?thesis
      proof (cases "en_Err env (aw_now w2)")
        case (Some c)
        with 1 2 Inr r2 op1 assms show ?thesis by (auto simp: sendWithPersistentSession_def ask_ctx_def)
      next
        case None
        show ?thesis
        proof (cases r4)
          case (Inl e)
          with 1 2 4 Inr r2 None assms i4 \<open>r1 = Inr s\<close> show ?thesis
            by (auto simp: sendWithPersistentSession_def ask_ctx_def)
        next
          case r4: (Inr s4)
          obtain r5 w5 where 5: "on_session (\<lambda>s. sendAction env pb s act) s4 w4 = (r5, w5)" by fastforce
          with op [OF 4 [unfolded r4] _ 5] 1 2 4 Inr r2 r4 None assms show ?thesis
            by (auto simp: sendWithPersistentSession_def ask_ctx_def)
        qed
      qed
    qed
  qed
  then show "sender_inv env pb w'" "r = Inr x \<Longrightarrow> x \<noteq> None" by auto
qed

lemma atv_Launch_ok:
  assumes "atv_Launch env pb t creds link w = (r, w')" "sender_inv env pb w"
  shows "sender_inv env pb w'"
proof -
  have op: "sender_inv env pb w2"
    if "ensureSessionLocked env pb t creds w1 = (Inr s, w1')" "sender_inv env pb w1"
      "on_session (\<lambda>s. LaunchAppLink env pb s link) s w1' = (r2, w2)" for w1 s w1' r2 w2
    using on_session_ok(1) [OF safe_LaunchAppLink ensureSession_ok(1) [OF that(1,2)] _ that(3)]
      ensureSession_ok(2) [OF that(1,2)] by blast
  obtain r1 w1 where 1: "ensureSessionLocked env pb t creds w = (r1, w1)" by fastforce
  show ?thesis
  proof (cases r1)
    case (Inl e)
    with 1 assms ensureSession_ok(1) [OF 1 assms(2)] show ?thesis by (auto simp: atv_Launch_def)
  next
    case (Inr s)
    obtain r2 w2 where 2: "on_session (\<lambda>s. LaunchAppLink env pb s link) s w1 = (r2, w2)" by fastforce
    note op1 = op [OF 1 [unfolded Inr] assms(2) 2]
    let ?w3 = "w2\<lparr>aw_now := aw_now w2 + 1\<rparr>"
    obtain r4 w4 where 4: "ensureSessionLocked env pb t creds (closeSessionLocked ?w3) = (r4, w4)" by fastforce
    have i4: "sender_inv env pb w4" using 4 by (rule ensureSession_ok) simp
    have i5: "sender_inv env pb (snd (on_session (\<lambda>s. LaunchAppLink env pb s link) s4 w4))" if "r4 = Inr s4" for s4
      using op [OF 4 [unfolded that]] by (metis prod.collapse sender_inv_close)
    show ?thesis
      using 1 2 4 Inr op1 i4 i5 assms(1)
      by (auto simp: atv_Launch_def ask_ctx_def split: option.splits sum.splits prod.splits)
  qed
qed

section \<open>Properties\<close>

text \<open>
  C36: What is sent for an action. Every action of the program can be sent in every power state
  the device may report: one key, the action's own, at once; but when the device has said that
  it is off, for the home and the power action the YouTube package is launched first, and after
  750 milliseconds the home key. Every key that is sent has a code. For something that is no
  action the plan fails, before anything is sent.
\<close>

theorem planSendSteps_sendable:
  "if act \<in> set AllActions
   then (\<exists>steps. planSendSteps act powered hasPower = Inr steps \<and>
     steps =
       (if hasPower \<and> \<not> powered \<and> act \<in> {Home, Power}
        then [\<lparr>st_key = [], st_appLink = ''com.google.android.youtube.tv'', st_postDelay = 750000000\<rparr>,
              \<lparr>st_key = Home, st_appLink = [], st_postDelay = 0\<rparr>]
        else [\<lparr>st_key = act, st_appLink = [], st_postDelay = 0\<rparr>]) \<and>
     (\<forall>st \<in> set steps. st_appLink st = [] \<longrightarrow>
       (\<exists>c. c \<noteq> KEYCODE_UNKNOWN \<and> ResolveKeyCode u ks (st_key st) = Inr c)) \<and>
     (PowerState s = (powered, hasPower) \<longrightarrow> sendAction env pb s act n = send_steps env pb steps None s n))
   else sendAction env pb s act n =
     (Inl (Errorf ''unsupported android tv action %q'' [FS act] None), s, n)"
proof -
  have all: "set [Back, Down, Enter, FastForward, Home, Left, Menu, Mute, PlayPause, Power, Rewind,
      Right, Sleep, Up, VolumeDown, VolumeUp, Wakeup] = set AllActions"
    by (simp only: AllActions_def set_sort)
  show ?thesis
  proof (cases "act \<in> set AllActions")
    case True
    have home: "Home \<in> set AllActions" unfolding all [symmetric] by simp
    obtain c where c: "c \<noteq> KEYCODE_UNKNOWN" "ResolveKeyCode u ks act = Inr c"
      using ResolveKeyCode_action [OF True, of u ks] by auto
    obtain d where d: "d \<noteq> KEYCODE_UNKNOWN" "ResolveKeyCode u ks Home = Inr d"
      using ResolveKeyCode_action [OF home, of u ks] by auto
    have ms: "wakeKeyDelay = 750000000" by (simp add: wakeKeyDelay_def)
    show ?thesis
      using True c d unfolding planSendSteps_def actionToAndroidTV_def all action_String_def sendAction_def
      by (auto simp: wakeLaunchPackage_def ms)
  next
    case False
    then show ?thesis
      unfolding sendAction_def planSendSteps_def actionToAndroidTV_def all
      by (simp split: prod.split)
  qed
qed

theorem planSendSteps_sendable_witness:
  "\<exists>steps. planSendSteps Home False True = Inr steps \<and> length steps = 2 \<and>
     (\<forall>st \<in> set steps. st_appLink st = [] \<longrightarrow>
       (\<exists>c. c \<noteq> KEYCODE_UNKNOWN \<and> ResolveKeyCode ascii_unicode [] (st_key st) = Inr c))"
proof -
  have "Home \<in> set AllActions" by (simp only: AllActions_def set_sort) simp
  with planSendSteps_sendable [of Home False True ascii_unicode "[]"] show ?thesis by simp
qed

text \<open>
  C4: The sender's invariant. A session that is kept is on a connection that was dialled to the
  host and port, and with the certificate and key, that it is filed under (port 6466 where the
  target has none); the device made it ready, and the program has not closed it. \<open>Send\<close>,
  \<open>Warmup\<close> and \<open>Launch\<close> keep this, whatever the device and the network do. After a success of
  any of them the kept session is filed under the target and the credentials of the call, after
  \<open>Send\<close> and \<open>Launch\<close> with no error recorded on it; and \<open>Send\<close> never meets a result that is nil.
\<close>

theorem sender_invariant:
  assumes "sender_inv env pb w"
  shows "sender_inv env pb (snd (atv_Send env pb t creds act w)) \<and>
    sender_inv env pb (snd (atv_Warmup env pb t creds w)) \<and>
    sender_inv env pb (snd (atv_Launch env pb t creds link w)) \<and>
    fst (sendWithPersistentSession env pb t creds act w) \<noteq> Inr None \<and>
    (\<forall>r w'. atv_Send env pb t creds act w = (Inr r, w') \<longrightarrow> kept_for (config_of t creds) w') \<and>
    (\<forall>w'. atv_Launch env pb t creds link w = (None, w') \<longrightarrow> kept_for (config_of t creds) w') \<and>
    (\<forall>w'. atv_Warmup env pb t creds w = (None, w') \<longrightarrow>
      aw_config w' = config_of t creds \<and> aw_session w' \<noteq> None)"
proof -
  obtain r1 w1 where 1: "sendWithPersistentSession env pb t creds act w = (r1, w1)" by fastforce
  note p = persistent_ok [OF 1 assms]
  have "sender_inv env pb (snd (atv_Send env pb t creds act w))"
    using 1 p(1) by (auto simp: atv_Send_def split: sum.split option.split)
  moreover obtain r2 w2 where 2: "ensureSessionLocked env pb t creds w = (r2, w2)" by fastforce
  then have "sender_inv env pb (snd (atv_Warmup env pb t creds w))"
    using ensureSession_ok(1) [OF 2 assms] by (simp add: atv_Warmup_def split: sum.split)
  moreover have "sender_inv env pb (snd (atv_Launch env pb t creds link w))"
    using atv_Launch_ok [OF _ assms] by (metis prod.collapse)
  moreover have "r1 \<noteq> Inr None" using p(2) by blast
  moreover have "kept_for (config_of t creds) w'" if "atv_Send env pb t creds act w = (Inr r, w')" for r w'
    using that by (auto simp: atv_Send_def dest: persistent_kept split: prod.splits sum.splits option.splits)
  moreover have "aw_config w' = config_of t creds \<and> aw_session w' \<noteq> None"
    if "atv_Warmup env pb t creds w = (None, w')" for w'
    using that by (auto simp: atv_Warmup_def dest: ensured_config split: prod.splits sum.splits)
  ultimately show ?thesis using 1 atv_Launch_kept by auto
qed

definition new_sender_world :: atv_world where
  "new_sender_world = \<lparr>fs_configDir = Inr ''/c'', fs_files = (\<lambda>_. None), fs_dirs = (\<lambda>_. None),
     fs_fault = (\<lambda>_ _. None), fs_short = (\<lambda>_. 0),
     aw_now = 0, aw_session = None, aw_config = zero_config\<rparr>"

theorem sender_invariant_witness:
  "sender_inv test_env few_pb (snd (atv_Send test_env few_pb
     \<lparr>t_Host = ''tv'', t_Port = 0, t_DeviceID = [], t_Label = []\<rparr> zero_credentials Home new_sender_world))"
proof -
  have "sender_inv test_env few_pb new_sender_world" by (simp add: sender_inv_def new_sender_world_def)
  from sender_invariant [OF this] show ?thesis by blast
qed

text \<open>
  A session is dialled once for a device: after \<open>ensureSessionLocked\<close> succeeded, asking
  again with the same target address and credentials returns the same session and consults
  neither the network nor the files; any other address or credentials closes it first.
\<close>

theorem ensureSession_cached:
  assumes "ensureSessionLocked env pb t creds w = (Inr s, w')" "sender_inv env pb w"
  shows "ensureSessionLocked env' pb t' creds' w' =
    (if config_of t' creds' = config_of t creds then (Inr s, w')
     else ensureSessionLocked env' pb t' creds' (closeSessionLocked w'))"
proof -
  have "aw_session w' = Some s" "aw_config w' = config_of t creds"
    using ensureSession_ok(2) [OF assms, of s] by auto
  then show ?thesis
    by (auto simp: ensureSessionLocked_def closeSessionLocked_def Let_def)
qed

theorem ensureSession_cached_witness:
  "\<exists>s w'. ensureSessionLocked test_env few_pb
      \<lparr>t_Host = ''tv'', t_Port = 0, t_DeviceID = [], t_Label = []\<rparr> zero_credentials new_sender_world = (Inr s, w') \<and>
    ensureSessionLocked test_env few_pb
      \<lparr>t_Host = ''tv'', t_Port = 0, t_DeviceID = ''x'', t_Label = ''y''\<rparr> zero_credentials w' = (Inr s, w')"
proof -
  let ?t = "\<lparr>t_Host = ''tv'', t_Port = 0, t_DeviceID = [], t_Label = []\<rparr>"
  let ?t' = "\<lparr>t_Host = ''tv'', t_Port = 0, t_DeviceID = ''x'', t_Label = ''y''\<rparr>"
  have r1: "rc_ready (run_rounds few_pb 1 (newRemoteClient
      \<lparr>cn_in = [1, 3, 1, 1], cn_end = err_EOF, cn_closed = False, cn_out = [], cn_room = None\<rparr>))"
    by code_simp
  have r2: "getErr (run_rounds few_pb 1 (run_rounds few_pb 1 (newRemoteClient
      \<lparr>cn_in = [1, 3, 1, 1], cn_end = err_EOF, cn_closed = False, cn_out = [], cn_room = None\<rparr>))) = None"
    by code_simp
  have "\<not> isl (fst (ensureSessionLocked test_env few_pb ?t zero_credentials new_sender_world))"
    using r1 r2
    by (simp add: ensureSessionLocked_def DialSession_def test_env_def dial_params_def normalizeSessionParams_def
        Let_def waitReady_def waitStarted_def sessionStartGracePeriod_def new_sender_world_def closeSessionLocked_def)
  then obtain s where s: "fst (ensureSessionLocked test_env few_pb ?t zero_credentials new_sender_world) = Inr s"
    by (metis sum.collapse(2))
  then obtain w' where e: "ensureSessionLocked test_env few_pb ?t zero_credentials new_sender_world = (Inr s, w')"
    by (metis prod.collapse)
  have inv: "sender_inv test_env few_pb new_sender_world" by (simp add: sender_inv_def new_sender_world_def)
  have "config_of ?t' zero_credentials = config_of ?t zero_credentials" by (simp add: config_of_def)
  with ensureSession_cached [OF e inv, of test_env ?t' zero_credentials] e show ?thesis by auto
qed

end
