(* ===== verification/Beyonder_Messages.thy ===== *)
theory Beyonder_Messages
  imports NvProbe_Wire
begin

text \<open>
  \<open>internal/beyonder/messages.go\<close> and the message types of \<open>internal/beyonder/proto\<close>: building
  and decoding the frames of the beyonder protocol, and putting messages together from the
  chunks that arrive. The generated enumerations are \<open>int32\<close> with named values; the encoding
  of each message type is the protobuf library's and is given by a codec.
\<close>

section \<open>Message types\<close>

type_synonym int32 = "32 word"

definition SERVICEID_HANDSHAKE :: int32 where "SERVICEID_HANDSHAKE = 1"
definition SERVICEID_AUTHENTICATION :: int32 where "SERVICEID_AUTHENTICATION = 10"
definition SERVICEID_HOST_INFO :: int32 where "SERVICEID_HOST_INFO = 11"
definition SERVICEID_VIRTUAL_INPUT :: int32 where "SERVICEID_VIRTUAL_INPUT = 1001"
definition SERVICEID_REMOTE_LAUNCHER :: int32 where "SERVICEID_REMOTE_LAUNCHER = 1009"

lemmas service_ids = SERVICEID_HANDSHAKE_def SERVICEID_AUTHENTICATION_def SERVICEID_HOST_INFO_def
  SERVICEID_VIRTUAL_INPUT_def SERVICEID_REMOTE_LAUNCHER_def

record base_message =
  bm_ServiceId :: int32
  bm_Payload :: "byte list"
  bm_ServiceNumber :: int32
  bm_Size :: int32
  bm_TimeStamp :: "64 word"

definition zero_base :: base_message where
  "zero_base = \<lparr>bm_ServiceId = 0, bm_Payload = [], bm_ServiceNumber = 0, bm_Size = 0, bm_TimeStamp = 0\<rparr>"

definition Handshake_COMMAND_HELLO :: int32 where "Handshake_COMMAND_HELLO = 1"
definition DEVICEOS_ANDROID :: int32 where "DEVICEOS_ANDROID = 1"

record handshake =
  hs_Command :: int32
  hs_Name :: string
  hs_DeviceOs :: int32
  hs_Certificate :: "byte list"
  hs_Capability :: int32

definition COMMAND_AUTHORIZATION_LEVEL :: int32 where "COMMAND_AUTHORIZATION_LEVEL = 1000"
definition COMMAND_PIN_REQUEST :: int32 where "COMMAND_PIN_REQUEST = 1101"
definition COMMAND_PIN_CHALLENGE :: int32 where "COMMAND_PIN_CHALLENGE = 1103"
definition COMMAND_PIN_CODE :: int32 where "COMMAND_PIN_CODE = 1105"
definition COMMAND_PAIRING_RESULT :: int32 where "COMMAND_PAIRING_RESULT = 2101"

lemmas auth_commands = COMMAND_AUTHORIZATION_LEVEL_def COMMAND_PIN_REQUEST_def
  COMMAND_PIN_CHALLENGE_def COMMAND_PIN_CODE_def COMMAND_PAIRING_RESULT_def

record auth_payload =
  ap_Command :: int32
  ap_Object :: "byte list"

definition LEVEL_VIRTUAL_INPUT :: int32 where "LEVEL_VIRTUAL_INPUT = 1000"

record authorization_level =
  al_Level :: int32
  al_DeviceName :: string
  al_Capability :: int32

record pairing_pin_code =
  pin_PinCode :: string
  pin_DeviceId :: string

definition RESULT_SUCCESS :: int32 where "RESULT_SUCCESS = 1"

record bey_pairing_result =
  br_ResultType :: int32
  br_ResultString :: string
  br_PrivateKey :: "byte list"
  br_Certificate :: "byte list"

definition REQUEST_LAUNCH :: int32 where "REQUEST_LAUNCH = 2"
definition RESPONSE_LAUNCH :: int32 where "RESPONSE_LAUNCH = 3"

record launcher_payload =
  lp_Command :: int32
  lp_Object :: "byte list"

definition LaunchResponse_SUCCESS :: int32 where "LaunchResponse_SUCCESS = 0"
definition LaunchResponse_ACTIVITY_NOT_FOUND :: int32 where "LaunchResponse_ACTIVITY_NOT_FOUND = 1"

definition COMMAND_HOST_INFO_RESULT :: int32 where "COMMAND_HOST_INFO_RESULT = 2101"

record host_info_payload =
  hp_Command :: int32
  hp_Object :: "byte list"

record host_information =
  hi_DeviceName :: string
  hi_Ip :: string
  hi_Port :: int32
  hi_AndroidId :: string
  hi_SupportedAbis :: "string list"

definition REQUEST_COMMAND :: int32 where "REQUEST_COMMAND = 20"
definition ACCESSORY_CONTROLLER :: int32 where "ACCESSORY_CONTROLLER = 5"
definition INPUT_SPECIAL :: int32 where "INPUT_SPECIAL = 30"
definition ACTION_SLEEP_NOW :: int32 where "ACTION_SLEEP_NOW = 30"

record virtual_input =
  vi_Request :: int32
  vi_AccessoryType :: int32
  vi_InputType :: int32
  vi_KeyState :: int32
  vi_Value :: "int32 list"
  vi_Text :: string
  vi_SpecialInput :: int32

section \<open>Codecs\<close>

text \<open>
  \<open>proto.Marshal\<close> and \<open>proto.Unmarshal\<close> of one message type, and the codecs of all of them;
  the launch request and response have one field each, so they are represented by it.
\<close>

record 'm codec =
  mc_Marshal :: "'m \<Rightarrow> byte list res"
  mc_Unmarshal :: "byte list \<Rightarrow> 'm res"

record bey_codec =
  bc_base :: "base_message codec"
  bc_handshake :: "handshake codec"
  bc_auth :: "auth_payload codec"
  bc_level :: "authorization_level codec"
  bc_pin :: "pairing_pin_code codec"
  bc_result :: "bey_pairing_result codec"
  bc_launcher :: "launcher_payload codec"
  bc_launch_request :: "string codec"
  bc_launch_response :: "int32 codec"
  bc_host_payload :: "host_info_payload codec"
  bc_host_info :: "host_information codec"
  bc_virtual :: "virtual_input codec"
  bc_ConsumeVarint :: "byte list \<Rightarrow> (64 word \<times> nat) option"

text \<open>Decoding an encoded message gives it back.\<close>

definition reads_back :: "'m codec \<Rightarrow> bool" where
  "reads_back c \<longleftrightarrow> (\<forall>m raw. mc_Marshal c m = Inr raw \<longrightarrow> mc_Unmarshal c raw = Inr m)"

lemma reads_backD: "reads_back c \<Longrightarrow> mc_Marshal c m = Inr raw \<Longrightarrow> mc_Unmarshal c raw = Inr m"
  by (simp add: reads_back_def)

section \<open>Encoders\<close>

definition ClientCapability :: int32 where "ClientCapability = 0x13FFB"
definition MaxUnframedSize :: nat where "MaxUnframedSize = 2048"

definition bey_base :: "bey_codec \<Rightarrow> int32 \<Rightarrow> byte list res \<Rightarrow> byte list res" where
  "bey_base c svc payload =
     (case payload of
        Inl err \<Rightarrow> Inl err
      | Inr p \<Rightarrow> mc_Marshal (bc_base c) (zero_base\<lparr>bm_ServiceId := svc, bm_Payload := p\<rparr>))"

definition bey_auth :: "bey_codec \<Rightarrow> int32 \<Rightarrow> byte list res option \<Rightarrow> byte list res" where
  "bey_auth c cmd obj =
     (case obj of
        None \<Rightarrow> bey_base c SERVICEID_AUTHENTICATION
                  (mc_Marshal (bc_auth c) \<lparr>ap_Command = cmd, ap_Object = []\<rparr>)
      | Some (Inl err) \<Rightarrow> Inl err
      | Some (Inr ob) \<Rightarrow> bey_base c SERVICEID_AUTHENTICATION
                  (mc_Marshal (bc_auth c) \<lparr>ap_Command = cmd, ap_Object = ob\<rparr>))"

definition EncodeHello :: "bey_codec \<Rightarrow> string \<Rightarrow> byte list res" where
  "EncodeHello c name =
     (if name = [] then Inl (new_err ''beyonder: hello name must not be empty'')
      else bey_base c SERVICEID_HANDSHAKE
        (mc_Marshal (bc_handshake c) \<lparr>hs_Command = Handshake_COMMAND_HELLO, hs_Name = name,
           hs_DeviceOs = DEVICEOS_ANDROID, hs_Certificate = [], hs_Capability = ClientCapability\<rparr>))"

definition EncodePinRequest :: "bey_codec \<Rightarrow> byte list res" where
  "EncodePinRequest c = bey_auth c COMMAND_PIN_REQUEST None"

definition EncodePinCode :: "bey_codec \<Rightarrow> string \<Rightarrow> string \<Rightarrow> byte list res" where
  "EncodePinCode c pin deviceID =
     bey_auth c COMMAND_PIN_CODE
       (Some (mc_Marshal (bc_pin c) \<lparr>pin_PinCode = pin, pin_DeviceId = deviceID\<rparr>))"

definition EncodeSpecialInput :: "bey_codec \<Rightarrow> int32 \<Rightarrow> byte list res" where
  "EncodeSpecialInput c v =
     bey_base c SERVICEID_VIRTUAL_INPUT
       (mc_Marshal (bc_virtual c) \<lparr>vi_Request = REQUEST_COMMAND, vi_AccessoryType = ACCESSORY_CONTROLLER,
          vi_InputType = INPUT_SPECIAL, vi_KeyState = 0, vi_Value = [], vi_Text = [], vi_SpecialInput = v\<rparr>)"

definition EncodeLaunch :: "bey_codec \<Rightarrow> string \<Rightarrow> byte list res" where
  "EncodeLaunch c pkg =
     (case mc_Marshal (bc_launch_request c) pkg of
        Inl err \<Rightarrow> Inl err
      | Inr ob \<Rightarrow>
          bey_base c SERVICEID_REMOTE_LAUNCHER
            (mc_Marshal (bc_launcher c) \<lparr>lp_Command = REQUEST_LAUNCH, lp_Object = ob\<rparr>))"

definition EncodeRTTProbe :: "bey_codec \<Rightarrow> 64 word \<Rightarrow> byte list res" where
  "EncodeRTTProbe c nowMs = mc_Marshal (bc_base c) (zero_base\<lparr>bm_TimeStamp := nowMs\<rparr>)"

section \<open>Decoding\<close>

record bey_message =
  ms_ServiceID :: int32
  ms_Base :: "base_message option"
  ms_Handshake :: "handshake option"
  ms_Authentication :: "auth_payload option"
  ms_AuthLevel :: "authorization_level option"
  ms_PairingResult :: "bey_pairing_result option"
  ms_PinChallenge :: bool
  ms_Launcher :: "launcher_payload option"
  ms_LaunchResult :: "int32 option"
  ms_HostInfoPayload :: "host_info_payload option"
  ms_HostInfo :: "host_information option"

definition message_of :: "base_message \<Rightarrow> bey_message" where
  "message_of b = \<lparr>ms_ServiceID = bm_ServiceId b, ms_Base = Some b, ms_Handshake = None,
     ms_Authentication = None, ms_AuthLevel = None, ms_PairingResult = None, ms_PinChallenge = False,
     ms_Launcher = None, ms_LaunchResult = None, ms_HostInfoPayload = None, ms_HostInfo = None\<rparr>"

definition IsRTT :: "bey_message \<Rightarrow> bool" where
  "IsRTT m = (case ms_Base m of None \<Rightarrow> False | Some b \<Rightarrow> bm_TimeStamp b \<noteq> 0)"

definition decodeAuth :: "bey_codec \<Rightarrow> byte list \<Rightarrow> bey_message \<Rightarrow> bey_message res" where
  "decodeAuth c payload m =
     (case mc_Unmarshal (bc_auth c) payload of
        Inl err \<Rightarrow> Inl err
      | Inr a \<Rightarrow>
          (let m = m\<lparr>ms_Authentication := Some a\<rparr> in
           if ap_Command a = COMMAND_AUTHORIZATION_LEVEL then
             (case mc_Unmarshal (bc_level c) (ap_Object a) of
                Inl err \<Rightarrow> Inl err | Inr l \<Rightarrow> Inr (m\<lparr>ms_AuthLevel := Some l\<rparr>))
           else if ap_Command a = COMMAND_PAIRING_RESULT then
             (case mc_Unmarshal (bc_result c) (ap_Object a) of
                Inl err \<Rightarrow> Inl err | Inr r \<Rightarrow> Inr (m\<lparr>ms_PairingResult := Some r\<rparr>))
           else if ap_Command a = COMMAND_PIN_CHALLENGE then Inr (m\<lparr>ms_PinChallenge := True\<rparr>)
           else Inr m))"

definition decodeLauncher :: "bey_codec \<Rightarrow> byte list \<Rightarrow> bey_message \<Rightarrow> bey_message res" where
  "decodeLauncher c payload m =
     (case mc_Unmarshal (bc_launcher c) payload of
        Inl err \<Rightarrow> Inl err
      | Inr l \<Rightarrow>
          (let m = m\<lparr>ms_Launcher := Some l\<rparr> in
           if lp_Command l = RESPONSE_LAUNCH then
             (case mc_Unmarshal (bc_launch_response c) (lp_Object l) of
                Inl err \<Rightarrow> Inl err | Inr r \<Rightarrow> Inr (m\<lparr>ms_LaunchResult := Some r\<rparr>))
           else Inr m))"

definition decodeHostInfo :: "bey_codec \<Rightarrow> byte list \<Rightarrow> bey_message \<Rightarrow> bey_message res" where
  "decodeHostInfo c payload m =
     (case mc_Unmarshal (bc_host_payload c) payload of
        Inl err \<Rightarrow> Inl err
      | Inr h \<Rightarrow>
          (let m = m\<lparr>ms_HostInfoPayload := Some h\<rparr> in
           if hp_Command h = COMMAND_HOST_INFO_RESULT \<and> 0 < length (hp_Object h) then
             (case mc_Unmarshal (bc_host_info c) (hp_Object h) of
                Inl err \<Rightarrow> Inl err | Inr i \<Rightarrow> Inr (m\<lparr>ms_HostInfo := Some i\<rparr>))
           else Inr m))"

definition bey_Decode :: "bey_codec \<Rightarrow> byte list \<Rightarrow> bey_message res" where
  "bey_Decode c frame =
     (case mc_Unmarshal (bc_base c) frame of
        Inl err \<Rightarrow> Inl (wrap_err ''beyonder: decode base: %w'' err)
      | Inr b \<Rightarrow>
          (let m = message_of b;
               r = (if bm_ServiceId b = SERVICEID_HANDSHAKE then
                      (case mc_Unmarshal (bc_handshake c) (bm_Payload b) of
                         Inl err \<Rightarrow> Inl err | Inr h \<Rightarrow> Inr (m\<lparr>ms_Handshake := Some h\<rparr>))
                    else if bm_ServiceId b = SERVICEID_AUTHENTICATION then decodeAuth c (bm_Payload b) m
                    else if bm_ServiceId b = SERVICEID_REMOTE_LAUNCHER then decodeLauncher c (bm_Payload b) m
                    else if bm_ServiceId b = SERVICEID_HOST_INFO then decodeHostInfo c (bm_Payload b) m
                    else Inr m)
           in case r of
                Inl err \<Rightarrow> Inl (Errorf ''beyonder: decode service %v payload: %w''
                               [FI (sint (bm_ServiceId b))] (Some err))
              | Inr m \<Rightarrow> Inr m))"

section \<open>Frames and reassembly\<close>

text \<open>\<open>Frames\<close>; an announcement's encoding is not looked at for errors.\<close>

definition Frames :: "bey_codec \<Rightarrow> byte list \<Rightarrow> byte list list" where
  "Frames c msg =
     (if length msg \<le> MaxUnframedSize then [msg]
      else
        (let ann = (case mc_Marshal (bc_base c) (zero_base\<lparr>bm_Size := word_of_nat (length msg)\<rparr>) of
                      Inl _ \<Rightarrow> [] | Inr raw \<Rightarrow> raw)
         in [ann, msg]))"

record reassembler =
  ra_want :: nat
  ra_buf :: "byte list"

definition new_reassembler :: reassembler where
  "new_reassembler = \<lparr>ra_want = 0, ra_buf = []\<rparr>"

definition Reset :: "reassembler \<Rightarrow> reassembler" where
  "Reset r = r\<lparr>ra_want := 0, ra_buf := []\<rparr>"

text \<open>A size announcement at the start of a chunk: the size and the bytes after it.\<close>

definition announcement :: "bey_codec \<Rightarrow> byte list \<Rightarrow> (nat \<times> byte list) option" where
  "announcement c chunk =
     (case chunk of
        [] \<Rightarrow> None
      | b # rest \<Rightarrow>
          if b = 0x20 then
            (case bc_ConsumeVarint c rest of
               None \<Rightarrow> None
             | Some (n, l) \<Rightarrow>
                 if 0 < l \<and> 0 < n \<and> n < push_bit 30 1 then Some (unat n, drop l rest) else None)
          else None)"

lemma announcement_less: "announcement c chunk = Some (n, rest) \<Longrightarrow> length rest < length chunk \<and> 0 < n"
  by (auto simp: announcement_def word_less_nat_alt split: list.splits if_splits option.splits)

lemma announcement_bound: "announcement c chunk = Some (n, rest) \<Longrightarrow> n < 2 ^ 30"
  by (auto simp: announcement_def word_less_nat_alt push_bit_eq_mult split: list.splits if_splits option.splits)

text \<open>
  The loop of \<open>Feed\<close>, with the messages found so far. \<open>need\<close> is positive in every state that
  can be reached.
\<close>

function feed_loop ::
  "bey_codec \<Rightarrow> byte list \<Rightarrow> bey_message list \<Rightarrow> reassembler \<Rightarrow> (bey_message list \<times> goerr option) \<times> reassembler" where
  "feed_loop c chunk out r =
     (if chunk = [] then ((out, None), r)
      else if 0 < ra_want r then
        (let need = ra_want r - length (ra_buf r);
             k = min need (length chunk);
             buf = ra_buf r @ take k chunk;
             rest = drop k chunk
         in if length buf < ra_want r then ((out, None), r\<lparr>ra_buf := buf\<rparr>)
            else
              (case bey_Decode c buf of
                 Inl err \<Rightarrow> ((out, Some err), r\<lparr>ra_want := 0, ra_buf := []\<rparr>)
               | Inr m \<Rightarrow> feed_loop c rest (out @ [m]) (r\<lparr>ra_want := 0, ra_buf := []\<rparr>)))
      else
        (case announcement c chunk of
           Some (n, rest) \<Rightarrow> feed_loop c rest out (r\<lparr>ra_want := n, ra_buf := []\<rparr>)
         | None \<Rightarrow>
             (case bey_Decode c chunk of
                Inl err \<Rightarrow> ((out, Some err), r)
              | Inr m \<Rightarrow> feed_loop c [] (out @ [m]) r)))"
  by pat_completeness auto
termination
  by (relation "measure (\<lambda>(c, chunk, out, r). 2 * length chunk + (if 0 < ra_want r then 1 else 0))")
    (auto dest: announcement_less)

declare feed_loop.simps [simp del]

definition Feed ::
  "bey_codec \<Rightarrow> byte list \<Rightarrow> reassembler \<Rightarrow> (bey_message list \<times> goerr option) \<times> reassembler" where
  "Feed c chunk r = feed_loop c chunk [] r"

section \<open>Lemmas\<close>

text \<open>
  The invariant of a reassembler: it waits for more bytes than it has, and for less than a
  gigabyte, or has none.
\<close>

definition reassembler_inv :: "reassembler \<Rightarrow> bool" where
  "reassembler_inv r \<longleftrightarrow> 
     (if 0 < ra_want r then length (ra_buf r) < ra_want r \<and> ra_want r < 2 ^ 30 else ra_buf r = [])"

lemma feed_loop_inv:
  "reassembler_inv r \<Longrightarrow> feed_loop c chunk out r = (res, r') \<Longrightarrow> reassembler_inv r'"
proof (induction c chunk out r arbitrary: res r' rule: feed_loop.induct)
  case (1 c chunk out r)
  show ?case
  proof (cases "chunk = []")
    case True
    with 1(4,5) show ?thesis by (simp add: feed_loop.simps [of c "[]"])
  next
    case ne: False
    show ?thesis
    proof (cases "0 < ra_want r")
      case True
      let ?k = "min (ra_want r - length (ra_buf r)) (length chunk)"
      let ?buf = "ra_buf r @ take ?k chunk"
      show ?thesis
      proof (cases "length ?buf < ra_want r")
        case short: True
        then have lt: "length (ra_buf r) + length chunk < ra_want r" by (auto simp: min_def split: if_splits)
        then have "min (ra_want r - length (ra_buf r)) (length chunk) = length chunk" by simp
        with 1(5) ne True lt have "r' = r\<lparr>ra_buf := ra_buf r @ chunk\<rparr>"
          by (simp add: feed_loop.simps [of c chunk] Let_def)
        with lt True 1(4) show ?thesis by (simp add: reassembler_inv_def)
      next
        case long: False
        have nlt: "\<not> length (ra_buf r) + (ra_want r - length (ra_buf r)) < ra_want r" by arith
        show ?thesis
        proof (cases "bey_Decode c ?buf")
          case (Inl e)
          with 1(5) ne True long nlt have "r' = r\<lparr>ra_want := 0, ra_buf := []\<rparr>"
            by (simp add: feed_loop.simps [of c chunk] Let_def)
          then show ?thesis by (simp add: reassembler_inv_def)
        next
          case (Inr m)
          with 1(5) ne True long nlt
          have "feed_loop c (drop ?k chunk) (out @ [m]) (r\<lparr>ra_want := 0, ra_buf := []\<rparr>) = (res, r')"
            by (simp add: feed_loop.simps [of c chunk] Let_def)
          from 1(1) [OF ne True refl refl refl refl long Inr _ this] show ?thesis
            by (simp add: reassembler_inv_def)
        qed
      qed
    next
      case idle: False
      show ?thesis
      proof (cases "announcement c chunk")
        case None
        with 1(4,5) ne idle show ?thesis
          by (auto simp: feed_loop.simps [of c chunk] feed_loop.simps [of c "[]"] split: sum.splits)
      next
        case (Some p)
        then obtain n rest where p: "announcement c chunk = Some (n, rest)" by (cases p) auto
        with 1(5) ne idle have "feed_loop c rest out (r\<lparr>ra_want := n, ra_buf := []\<rparr>) = (res, r')"
          by (simp add: feed_loop.simps [of c chunk])
        from 1(3) [OF ne idle p refl _ this] announcement_less [OF p] announcement_bound [OF p] show ?thesis
          by (simp add: reassembler_inv_def)
      qed
    qed
  qed
qed

text \<open>Feeding several chunks, one after the other, until one fails.\<close>

fun feed_chunks ::
  "bey_codec \<Rightarrow> byte list list \<Rightarrow> reassembler \<Rightarrow> (bey_message list \<times> goerr option) \<times> reassembler" where
  "feed_chunks c [] r = (([], None), r)"
| "feed_chunks c (chunk # chunks) r =
     (case Feed c chunk r of
        ((ms, Some err), r) \<Rightarrow> ((ms, Some err), r)
      | ((ms, None), r) \<Rightarrow>
          (case feed_chunks c chunks r of ((ms', e), r) \<Rightarrow> ((ms @ ms', e), r)))"

text \<open>While a message is incomplete, chunks are collected.\<close>

lemma feed_collect:
  assumes "0 < ra_want r" "length (ra_buf r) + length chunk < ra_want r"
  shows "Feed c chunk r = (([], None), r\<lparr>ra_buf := ra_buf r @ chunk\<rparr>)"
  using assms by (auto simp: Feed_def feed_loop.simps [of c chunk] Let_def)

lemma feed_complete:
  assumes "0 < ra_want r" "length (ra_buf r) + length chunk = ra_want r" "chunk \<noteq> []"
    and "bey_Decode c (ra_buf r @ chunk) = Inr m"
  shows "Feed c chunk r = (([m], None), new_reassembler)"
proof -
  have "min (ra_want r - length (ra_buf r)) (length chunk) = length chunk" using assms(2) by simp
  moreover have "r\<lparr>ra_want := 0, ra_buf := []\<rparr> = new_reassembler" by (simp add: new_reassembler_def)
  ultimately show ?thesis
    using assms by (simp add: Feed_def feed_loop.simps [of c chunk] feed_loop.simps [of c "[]"] Let_def)
qed

text \<open>A framed body may arrive in any pieces.\<close>

lemma feed_pieces:
  assumes "bey_Decode c (buf @ concat chunks) = Inr m" "0 < want" "length buf + length (concat chunks) = want"
    and "concat chunks \<noteq> []" "last chunks \<noteq> []" "chunks \<noteq> []"
  shows "feed_chunks c chunks \<lparr>ra_want = want, ra_buf = buf\<rparr> = (([m], None), new_reassembler)"
  using assms
proof (induction chunks arbitrary: buf)
  case (Cons ch chs)
  let ?r = "\<lparr>ra_want = want, ra_buf = buf\<rparr>"
  show ?case
  proof (cases "chs = []")
    case True
    with Cons.prems feed_complete [of ?r ch c m] show ?thesis by simp
  next
    case False
    then have "last chs \<noteq> []" using Cons.prems(5) by simp
    with False have ne: "concat chs \<noteq> []" by (metis concat_eq_Nil_conv last_in_set)
    with Cons.prems(3) have "length buf + length ch < want" by (cases "concat chs") auto
    with Cons.prems(2) feed_collect [of ?r ch c]
    have f: "Feed c ch ?r = (([], None), \<lparr>ra_want = want, ra_buf = buf @ ch\<rparr>)" by simp
    have "feed_chunks c chs \<lparr>ra_want = want, ra_buf = buf @ ch\<rparr> = (([m], None), new_reassembler)"
      using Cons.prems False ne \<open>last chs \<noteq> []\<close> by (intro Cons.IH) auto
    with f show ?thesis by simp
  qed
qed simp

text \<open>
  What the protocol documents of an announcement: it is the tag of field 4 with the varint of
  the size, which \<open>ConsumeVarint\<close> reads back.
\<close>

definition announces :: "bey_codec \<Rightarrow> nat \<Rightarrow> byte list \<Rightarrow> bool" where
  "announces c n ann \<longleftrightarrow>
     mc_Marshal (bc_base c) (zero_base\<lparr>bm_Size := word_of_nat n\<rparr>) = Inr ann \<and>
     (\<forall>rest. announcement c (ann @ rest) = Some (n, rest))"

lemma feed_announcement:
  assumes "announces c n ann" "length rest < n"
  shows "Feed c (ann @ rest) new_reassembler = (([], None), \<lparr>ra_want = n, ra_buf = rest\<rparr>)"
proof -
  have a: "announcement c (ann @ rest) = Some (n, rest)" using assms(1) by (simp add: announces_def)
  then have ne: "ann @ rest \<noteq> []" by (auto simp: announcement_def split: list.splits)
  have "feed_loop c rest [] \<lparr>ra_want = n, ra_buf = []\<rparr> = (([], None), \<lparr>ra_want = n, ra_buf = rest\<rparr>)"
    using assms(2) by (auto simp: feed_loop.simps [of c rest] Let_def)
  with a ne show ?thesis
    by (auto simp: Feed_def feed_loop.simps [of c "ann @ rest"] new_reassembler_def)
qed

lemma feed_announcement_all:
  assumes "announces c (length msg) ann" "msg \<noteq> []" "bey_Decode c msg = Inr m"
  shows "Feed c (ann @ msg) new_reassembler = (([m], None), new_reassembler)"
proof -
  have a: "announcement c (ann @ msg) = Some (length msg, msg)" using assms(1) by (simp add: announces_def)
  then have ne: "ann @ msg \<noteq> []" by (auto simp: announcement_def split: list.splits)
  have "feed_loop c msg [] \<lparr>ra_want = length msg, ra_buf = []\<rparr> = (([m], None), new_reassembler)"
    using assms(2,3) by (simp add: feed_loop.simps [of c msg] feed_loop.simps [of c "[]"] new_reassembler_def)
  with a ne assms(2) show ?thesis
    by (auto simp: Feed_def feed_loop.simps [of c "ann @ msg"] new_reassembler_def)
qed

lemma feed_unframed:
  assumes "chunk \<noteq> []" "announcement c chunk = None" "bey_Decode c chunk = Inr m"
  shows "Feed c chunk new_reassembler = (([m], None), new_reassembler)"
  using assms
  by (simp add: Feed_def feed_loop.simps [of c chunk] feed_loop.simps [of c "[]"] new_reassembler_def)

lemma feed_torn:
  assumes "chunk \<noteq> []" "bc_ConsumeVarint c (tl chunk) = None"
  shows "Feed c chunk new_reassembler =
    (case bey_Decode c chunk of Inl err \<Rightarrow> ([], Some err) | Inr m \<Rightarrow> ([m], None), new_reassembler)"
proof -
  have "announcement c chunk = None" using assms by (cases chunk) (simp_all add: announcement_def)
  with assms(1) show ?thesis
    by (simp add: Feed_def feed_loop.simps [of c chunk] feed_loop.simps [of c "[]"] new_reassembler_def split: sum.split)
qed

text \<open>A codec in which every message type is read back.\<close>

definition bey_codec_ok :: "bey_codec \<Rightarrow> bool" where
  "bey_codec_ok c \<longleftrightarrow> reads_back (bc_base c) \<and> reads_back (bc_handshake c) \<and> reads_back (bc_auth c) \<and>
     reads_back (bc_level c) \<and> reads_back (bc_pin c) \<and> reads_back (bc_result c) \<and>
     reads_back (bc_launcher c) \<and> reads_back (bc_launch_request c) \<and> reads_back (bc_launch_response c) \<and>
     reads_back (bc_host_payload c) \<and> reads_back (bc_host_info c) \<and> reads_back (bc_virtual c)"

lemma bey_codec_okD:
  assumes "bey_codec_ok c"
  shows "mc_Marshal (bc_base c) b = Inr x1 \<Longrightarrow> mc_Unmarshal (bc_base c) x1 = Inr b"
    "mc_Marshal (bc_handshake c) h = Inr x2 \<Longrightarrow> mc_Unmarshal (bc_handshake c) x2 = Inr h"
    "mc_Marshal (bc_auth c) a = Inr x3 \<Longrightarrow> mc_Unmarshal (bc_auth c) x3 = Inr a"
    "mc_Marshal (bc_launcher c) l = Inr x4 \<Longrightarrow> mc_Unmarshal (bc_launcher c) x4 = Inr l"
  using assms by (auto simp: bey_codec_ok_def dest: reads_backD)

section \<open>What the program's frames are read as\<close>

text \<open>The messages the program sends, their encoder, and what each of them says.\<close>

datatype client_request =
    Req_Hello string
  | Req_PinRequest
  | Req_PinCode string string
  | Req_SpecialInput int32
  | Req_Launch string
  | Req_RTTProbe "64 word"

fun encode_request :: "bey_codec \<Rightarrow> client_request \<Rightarrow> byte list res" where
  "encode_request c (Req_Hello name) = EncodeHello c name"
| "encode_request c Req_PinRequest = EncodePinRequest c"
| "encode_request c (Req_PinCode pin deviceID) = EncodePinCode c pin deviceID"
| "encode_request c (Req_SpecialInput v) = EncodeSpecialInput c v"
| "encode_request c (Req_Launch pkg) = EncodeLaunch c pkg"
| "encode_request c (Req_RTTProbe now) = EncodeRTTProbe c now"

fun says :: "bey_codec \<Rightarrow> bey_message \<Rightarrow> client_request \<Rightarrow> bool" where
  "says c m (Req_Hello name) =
     (name \<noteq> [] \<and> ms_ServiceID m = 1 \<and>
      (\<exists>h. ms_Handshake m = Some h \<and> hs_Command h = 1 \<and> hs_Name h = name \<and> hs_Capability h = 0x13FFB))"
| "says c m Req_PinRequest =
     (ms_ServiceID m = 10 \<and> ms_Authentication m = Some \<lparr>ap_Command = 1101, ap_Object = []\<rparr>)"
| "says c m (Req_PinCode pin deviceID) =
     (ms_ServiceID m = 10 \<and>
      (\<exists>ob. ms_Authentication m = Some \<lparr>ap_Command = 1105, ap_Object = ob\<rparr> \<and>
         mc_Unmarshal (bc_pin c) ob = Inr \<lparr>pin_PinCode = pin, pin_DeviceId = deviceID\<rparr>))"
| "says c m (Req_SpecialInput v) =
     (ms_ServiceID m = 1001 \<and>
      (\<exists>b vi. ms_Base m = Some b \<and> mc_Unmarshal (bc_virtual c) (bm_Payload b) = Inr vi \<and> vi_SpecialInput vi = v))"
| "says c m (Req_Launch pkg) =
     (ms_ServiceID m = 1009 \<and>
      (\<exists>ob. ms_Launcher m = Some \<lparr>lp_Command = 2, lp_Object = ob\<rparr> \<and> mc_Unmarshal (bc_launch_request c) ob = Inr pkg))"
| "says c m (Req_RTTProbe now) =
     (ms_ServiceID m = 0 \<and> (\<exists>b. ms_Base m = Some b \<and> bm_TimeStamp b = now))"

lemma bey_base_decoded:
  assumes "bey_codec_ok c" "bey_base c svc payload = Inr f"
  obtains p where "payload = Inr p" "mc_Unmarshal (bc_base c) f = Inr (zero_base\<lparr>bm_ServiceId := svc, bm_Payload := p\<rparr>)"
  using assms(2) bey_codec_okD(1) [OF assms(1)] by (auto simp: bey_base_def split: sum.splits)

lemma bey_auth_decoded:
  assumes "bey_codec_ok c" "bey_auth c cmd obj = Inr f" "cmd = 1101 \<or> cmd = 1105"
  obtains ob b where "(obj = None \<and> ob = []) \<or> obj = Some (Inr ob)" "bm_ServiceId b = 10"
    "bey_Decode c f = Inr ((message_of b)\<lparr>ms_Authentication := Some \<lparr>ap_Command = cmd, ap_Object = ob\<rparr>\<rparr>)"
proof -
  obtain ob where ob: "(obj = None \<and> ob = []) \<or> obj = Some (Inr ob)"
    and b: "bey_base c SERVICEID_AUTHENTICATION (mc_Marshal (bc_auth c) \<lparr>ap_Command = cmd, ap_Object = ob\<rparr>) = Inr f"
    using assms(2) by (auto simp: bey_auth_def split: option.splits sum.splits)
  obtain p where p: "mc_Marshal (bc_auth c) \<lparr>ap_Command = cmd, ap_Object = ob\<rparr> = Inr p"
    and u: "mc_Unmarshal (bc_base c) f = Inr (zero_base\<lparr>bm_ServiceId := SERVICEID_AUTHENTICATION, bm_Payload := p\<rparr>)"
    using bey_base_decoded [OF assms(1) b] .
  have d: "mc_Unmarshal (bc_auth c) p = Inr \<lparr>ap_Command = cmd, ap_Object = ob\<rparr>"
    by (rule bey_codec_okD(3) [OF assms(1) p])
  have "bey_Decode c f = Inr ((message_of (zero_base\<lparr>bm_ServiceId := 10, bm_Payload := p\<rparr>))
       \<lparr>ms_Authentication := Some \<lparr>ap_Command = cmd, ap_Object = ob\<rparr>\<rparr>)"
    using assms(3) by (auto simp: bey_Decode_def u decodeAuth_def d service_ids auth_commands Let_def zero_base_def)
  with ob show thesis by (intro that) auto
qed

lemma says_Hello:
  assumes "bey_codec_ok c" "EncodeHello c name = Inr f"
  shows "\<exists>m. bey_Decode c f = Inr m \<and> says c m (Req_Hello name)"
proof -
  let ?h = "\<lparr>hs_Command = Handshake_COMMAND_HELLO, hs_Name = name,
           hs_DeviceOs = DEVICEOS_ANDROID, hs_Certificate = [], hs_Capability = ClientCapability\<rparr>"
  have b: "name \<noteq> []" "bey_base c SERVICEID_HANDSHAKE (mc_Marshal (bc_handshake c) ?h) = Inr f"
    using assms(2) by (auto simp: EncodeHello_def split: if_splits)
  obtain p where p: "mc_Marshal (bc_handshake c) ?h = Inr p"
    and u: "mc_Unmarshal (bc_base c) f = Inr (zero_base\<lparr>bm_ServiceId := SERVICEID_HANDSHAKE, bm_Payload := p\<rparr>)"
    using bey_base_decoded [OF assms(1) b(2)] .
  have d: "mc_Unmarshal (bc_handshake c) p = Inr ?h" by (rule bey_codec_okD(2) [OF assms(1) p])
  show ?thesis using b(1)
    by (simp add: bey_Decode_def u d Let_def zero_base_def message_of_def service_ids Handshake_COMMAND_HELLO_def
        ClientCapability_def)
qed

lemma says_PinRequest:
  assumes "bey_codec_ok c" "EncodePinRequest c = Inr f"
  shows "\<exists>m. bey_Decode c f = Inr m \<and> says c m Req_PinRequest"
proof -
  have "bey_auth c 1101 None = Inr f" using assms(2) by (simp add: EncodePinRequest_def auth_commands)
  then obtain ob b where "ob = []" "bm_ServiceId b = 10"
    "bey_Decode c f = Inr ((message_of b)\<lparr>ms_Authentication := Some \<lparr>ap_Command = 1101, ap_Object = ob\<rparr>\<rparr>)"
    using bey_auth_decoded [OF assms(1), of 1101 None f] by blast
  then show ?thesis by (simp add: message_of_def)
qed

lemma says_PinCode:
  assumes "bey_codec_ok c" "EncodePinCode c pin dev = Inr f"
  shows "\<exists>m. bey_Decode c f = Inr m \<and> says c m (Req_PinCode pin dev)"
proof -
  let ?o = "mc_Marshal (bc_pin c) \<lparr>pin_PinCode = pin, pin_DeviceId = dev\<rparr>"
  have "bey_auth c 1105 (Some ?o) = Inr f" using assms(2) by (simp add: EncodePinCode_def auth_commands)
  from bey_auth_decoded [OF assms(1) this] obtain ob b where m: "?o = Inr ob" "bm_ServiceId b = 10"
    "bey_Decode c f = Inr ((message_of b)\<lparr>ms_Authentication := Some \<lparr>ap_Command = 1105, ap_Object = ob\<rparr>\<rparr>)"
    by blast
  have "mc_Unmarshal (bc_pin c) ob = Inr \<lparr>pin_PinCode = pin, pin_DeviceId = dev\<rparr>"
    using assms(1) m(1) by (auto simp: bey_codec_ok_def dest: reads_backD)
  with m show ?thesis by (simp add: message_of_def)
qed

lemma says_SpecialInput:
  assumes "bey_codec_ok c" "EncodeSpecialInput c v = Inr f"
  shows "\<exists>m. bey_Decode c f = Inr m \<and> says c m (Req_SpecialInput v)"
proof -
  let ?v = "\<lparr>vi_Request = REQUEST_COMMAND, vi_AccessoryType = ACCESSORY_CONTROLLER,
          vi_InputType = INPUT_SPECIAL, vi_KeyState = 0, vi_Value = [], vi_Text = [], vi_SpecialInput = v\<rparr>"
  have b: "bey_base c SERVICEID_VIRTUAL_INPUT (mc_Marshal (bc_virtual c) ?v) = Inr f"
    using assms(2) by (simp add: EncodeSpecialInput_def)
  obtain p where p: "mc_Marshal (bc_virtual c) ?v = Inr p"
    and u: "mc_Unmarshal (bc_base c) f = Inr (zero_base\<lparr>bm_ServiceId := SERVICEID_VIRTUAL_INPUT, bm_Payload := p\<rparr>)"
    using bey_base_decoded [OF assms(1) b] .
  have d: "mc_Unmarshal (bc_virtual c) p = Inr ?v"
    using assms(1) p by (auto simp: bey_codec_ok_def dest: reads_backD)
  show ?thesis
    by (simp add: bey_Decode_def u d Let_def message_of_def zero_base_def service_ids)
qed

lemma says_Launch:
  assumes "bey_codec_ok c" "EncodeLaunch c pkg = Inr f"
  shows "\<exists>m. bey_Decode c f = Inr m \<and> says c m (Req_Launch pkg)"
proof -
  obtain ob where ob: "mc_Marshal (bc_launch_request c) pkg = Inr ob"
    and b: "bey_base c SERVICEID_REMOTE_LAUNCHER
        (mc_Marshal (bc_launcher c) \<lparr>lp_Command = REQUEST_LAUNCH, lp_Object = ob\<rparr>) = Inr f"
    using assms(2) by (auto simp: EncodeLaunch_def split: sum.splits)
  obtain p where p: "mc_Marshal (bc_launcher c) \<lparr>lp_Command = REQUEST_LAUNCH, lp_Object = ob\<rparr> = Inr p"
    and u: "mc_Unmarshal (bc_base c) f = Inr (zero_base\<lparr>bm_ServiceId := SERVICEID_REMOTE_LAUNCHER, bm_Payload := p\<rparr>)"
    using bey_base_decoded [OF assms(1) b] .
  have d: "mc_Unmarshal (bc_launcher c) p = Inr \<lparr>lp_Command = REQUEST_LAUNCH, lp_Object = ob\<rparr>"
    by (rule bey_codec_okD(4) [OF assms(1) p])
  have r: "mc_Unmarshal (bc_launch_request c) ob = Inr pkg"
    using assms(1) ob by (auto simp: bey_codec_ok_def dest: reads_backD)
  show ?thesis
    by (simp add: bey_Decode_def u d r Let_def decodeLauncher_def message_of_def zero_base_def service_ids
        REQUEST_LAUNCH_def RESPONSE_LAUNCH_def)
qed

lemma says_RTTProbe:
  assumes "bey_codec_ok c" "EncodeRTTProbe c now = Inr f"
  shows "\<exists>m. bey_Decode c f = Inr m \<and> says c m (Req_RTTProbe now)"
proof -
  have u: "mc_Unmarshal (bc_base c) f = Inr (zero_base\<lparr>bm_TimeStamp := now\<rparr>)"
    using assms(2) by (intro bey_codec_okD(1) [OF assms(1)]) (simp add: EncodeRTTProbe_def)
  show ?thesis by (simp add: bey_Decode_def u Let_def message_of_def zero_base_def service_ids)
qed

section \<open>Properties\<close>

text \<open>A codec given by a table of the messages it knows, for the examples.\<close>

definition table_codec :: "('m \<times> byte list) list \<Rightarrow> 'm codec" where
  "table_codec t = \<lparr>
     mc_Marshal = (\<lambda>m. case map_of t m of None \<Rightarrow> Inl (new_err ''unknown message'') | Some raw \<Rightarrow> Inr raw),
     mc_Unmarshal = (\<lambda>raw. case map_of (map (\<lambda>(m, raw). (raw, m)) t) raw of
                         None \<Rightarrow> Inl (new_err ''unknown bytes'') | Some m \<Rightarrow> Inr m)\<rparr>"

lemma reads_back_table: "distinct (map snd t) \<Longrightarrow> reads_back (table_codec t)"
proof -
  assume d: "distinct (map snd t)"
  have "map fst (map (\<lambda>(m, raw). (raw, m)) t) = map snd t" by (induction t) auto
  then have u: "distinct (map fst (map (\<lambda>(m, raw). (raw, m)) t))" using d by (simp only:)
  have "map_of (map (\<lambda>(m, raw). (raw, m)) t) raw = Some m" if "map_of t m = Some raw" for m raw
    using map_of_SomeD [OF that] by (intro map_of_is_SomeI [OF u]) force
  then show ?thesis by (auto simp: reads_back_def table_codec_def split: option.splits)
qed

definition table_ConsumeVarint :: "byte list \<Rightarrow> (64 word \<times> nat) option" where
  "table_ConsumeVarint bs =
     (case ReadUvarint bs of (Inl _, _) \<Rightarrow> None | (Inr n, rest) \<Rightarrow> Some (n, length bs - length rest))"

definition test_codec :: "(base_message \<times> byte list) list \<Rightarrow> (handshake \<times> byte list) list \<Rightarrow> bey_codec" where
  "test_codec bt ht = \<lparr>bc_base = table_codec bt, bc_handshake = table_codec ht, bc_auth = table_codec [],
     bc_level = table_codec [], bc_pin = table_codec [], bc_result = table_codec [], bc_launcher = table_codec [],
     bc_launch_request = table_codec [], bc_launch_response = table_codec [], bc_host_payload = table_codec [],
     bc_host_info = table_codec [], bc_virtual = table_codec [], bc_ConsumeVarint = table_ConsumeVarint\<rparr>"

lemma test_codec_ok: "distinct (map snd bt) \<Longrightarrow> distinct (map snd ht) \<Longrightarrow> bey_codec_ok (test_codec bt ht)"
  by (simp add: bey_codec_ok_def test_codec_def reads_back_table)

text \<open>
  C19: Every frame the program encodes is decoded, by the program's own decoder, to a message
  that says what was meant: a hello carries the name, which is not empty, and the capabilities
  of the official app; a PIN request and a PIN code are their authentication commands; a special
  input, a launch and an RTT probe carry the input, the package and the time. The hypothesis is
  that the protobuf library reads back what it encodes.
\<close>

theorem decode_encoded:
  assumes "bey_codec_ok c" and "encode_request c req = Inr f"
  shows "\<exists>m. bey_Decode c f = Inr m \<and> says c m req"
  using assms
  by (cases req) (simp_all only: encode_request.simps says_Hello says_PinRequest says_PinCode says_SpecialInput
      says_Launch says_RTTProbe)

definition hello_base :: base_message where
  "hello_base = zero_base\<lparr>bm_ServiceId := 1, bm_Payload := [7]\<rparr>"

definition hello_handshake :: handshake where
  "hello_handshake = \<lparr>hs_Command = 1, hs_Name = ''shrmt'', hs_DeviceOs = 1, hs_Certificate = [], hs_Capability = 0x13FFB\<rparr>"

theorem decode_encoded_witness:
  "\<exists>m. bey_Decode (test_codec [(hello_base, [8, 1, 18, 1, 7])] [(hello_handshake, [7])]) [8, 1, 18, 1, 7] = Inr m \<and>
     says (test_codec [(hello_base, [8, 1, 18, 1, 7])] [(hello_handshake, [7])]) m (Req_Hello ''shrmt'')"
proof (rule decode_encoded)
  show "bey_codec_ok (test_codec [(hello_base, [8, 1, 18, 1, 7])] [(hello_handshake, [7])])"
    by (rule test_codec_ok) simp_all
  show "encode_request (test_codec [(hello_base, [8, 1, 18, 1, 7])] [(hello_handshake, [7])]) (Req_Hello ''shrmt'') =
     Inr [8, 1, 18, 1, 7]"
    by (simp add: EncodeHello_def bey_base_def test_codec_def table_codec_def hello_base_def hello_handshake_def
        zero_base_def Handshake_COMMAND_HELLO_def DEVICEOS_ANDROID_def ClientCapability_def service_ids)
qed

text \<open>
  C8: What \<open>Frames\<close> makes of a message longer than \<open>MaxUnframedSize\<close> is put together again from
  chunks of which the first holds the whole announcement: however the message itself is cut,
  the reassembler returns exactly the decoded message, once, and is then as fresh as before.
  A torn announcement is not put together: a first chunk that ends inside it, so that
  \<open>ConsumeVarint\<close> finds no whole varint, is decoded as if it were a message of its own.
\<close>

theorem Feed_Frames:
  assumes "MaxUnframedSize < length msg" and "announces c (length msg) ann" and "bey_Decode c msg = Inr m"
    and "start @ concat others = msg" and "[] \<notin> set others"
  shows "concat ((ann @ start) # others) = concat (Frames c msg) \<and>
    feed_chunks c ((ann @ start) # others) new_reassembler = (([m], None), new_reassembler) \<and>
    (\<forall>torn rest. ann = torn @ rest \<and> torn \<noteq> [] \<and> bc_ConsumeVarint c (tl torn) = None \<longrightarrow>
      Feed c torn new_reassembler =
        (case bey_Decode c torn of Inl err \<Rightarrow> ([], Some err) | Inr t \<Rightarrow> ([t], None), new_reassembler))"
proof -
  have ne: "msg \<noteq> []" using assms(1) by auto
  have "Frames c msg = [ann, msg]" using assms(1,2) by (simp add: Frames_def announces_def)
  then have "concat ((ann @ start) # others) = concat (Frames c msg)" using assms(4) by simp
  moreover have "feed_chunks c ((ann @ start) # others) new_reassembler = (([m], None), new_reassembler)"
  proof (cases "others = []")
    case True
    with assms(4) feed_announcement_all [OF assms(2) ne assms(3)] show ?thesis by simp
  next
    case False
    then have l: "last others \<noteq> []" using assms(5) by (metis last_in_set)
    with False have "concat others \<noteq> []" by (metis concat_eq_Nil_conv last_in_set)
    with assms(4) have lt: "length start < length msg" by auto
    from assms(3,4) ne False l \<open>concat others \<noteq> []\<close>
    have "feed_chunks c others \<lparr>ra_want = length msg, ra_buf = start\<rparr> = (([m], None), new_reassembler)"
      by (intro feed_pieces) auto
    with feed_announcement [OF assms(2) lt] show ?thesis by simp
  qed
  moreover note feed_torn
  ultimately show ?thesis by blast
qed

definition long_frame :: "byte list" where "long_frame = replicate 2049 0"

definition long_base :: base_message where
  "long_base = zero_base\<lparr>bm_ServiceId := 77, bm_Payload := [1]\<rparr>"

definition long_codec :: bey_codec where
  "long_codec = test_codec [(long_base, long_frame), (zero_base\<lparr>bm_Size := 2049\<rparr>, [0x20, 0x81, 0x10])] []"

lemma long_codec_announces: "announces long_codec (length long_frame) [0x20, 0x81, 0x10]"
  by (simp add: announces_def long_codec_def test_codec_def table_codec_def long_base_def zero_base_def
      announcement_def table_ConsumeVarint_def ReadUvarint_def long_frame_def push_bit_eq_mult)

theorem Feed_Frames_witness:
  "concat (([0x20, 0x81, 0x10] @ [0, 0]) # [replicate 2047 0]) = concat (Frames long_codec long_frame) \<and>
    feed_chunks long_codec (([0x20, 0x81, 0x10] @ [0, 0]) # [replicate 2047 0]) new_reassembler =
      (([message_of long_base], None), new_reassembler) \<and>
    fst (fst (Feed long_codec [0x20] new_reassembler)) = []"
proof -
  have 1: "MaxUnframedSize < length long_frame" by (simp add: MaxUnframedSize_def long_frame_def)
  have 2: "bey_Decode long_codec long_frame = Inr (message_of long_base)"
    by (simp add: bey_Decode_def long_codec_def test_codec_def table_codec_def long_base_def service_ids zero_base_def
        message_of_def)
  have 3: "[0, 0] @ concat [replicate 2047 0] = long_frame"
    by (simp add: long_frame_def replicate_add [of 2 2047 "0::byte", symmetric] numeral_2_eq_2 flip: replicate_Suc)
  have 4: "[] \<notin> set [replicate 2047 (0::byte)]" by simp
  have 5: "bc_ConsumeVarint long_codec [] = None"
    by (simp add: long_codec_def test_codec_def table_ConsumeVarint_def ReadUvarint_def)
  have "long_frame \<noteq> [0x20]"
  proof
    assume "long_frame = [0x20]"
    then have "length [0x20 :: byte] = 2049" unfolding long_frame_def by (metis length_replicate)
    then show False by simp
  qed
  then have 6: "\<exists>err. bey_Decode long_codec [0x20] = Inl err"
    by (simp add: bey_Decode_def long_codec_def test_codec_def table_codec_def)
  have 7: "[0x20, 0x81, 0x10] = [0x20] @ [0x81, 0x10 :: byte]" by simp
  note t = Feed_Frames [OF 1 long_codec_announces 2 3 4]
  then have "Feed long_codec [0x20] new_reassembler =
      (case bey_Decode long_codec [0x20] of Inl err \<Rightarrow> ([], Some err) | Inr t \<Rightarrow> ([t], None), new_reassembler)"
    using 5 7 by (metis list.sel(3) list.distinct(1))
  with t 6 show ?thesis by auto
qed

text \<open>
  C37: A reassembler that starts fresh never waits for a gigabyte or others, and always holds fewer
  bytes than it waits for, whatever bytes the other side sends and also after a frame that
  cannot be decoded.
\<close>

theorem Feed_bounds:
  "reassembler_inv new_reassembler \<and> (reassembler_inv r \<longrightarrow> reassembler_inv (snd (Feed c chunk r)))"
proof
  show "reassembler_inv new_reassembler" by (simp add: reassembler_inv_def new_reassembler_def)
  show "reassembler_inv r \<longrightarrow> reassembler_inv (snd (Feed c chunk r))"
    by (auto simp: Feed_def intro: feed_loop_inv [of r c chunk "[]" "fst (feed_loop c chunk [] r)"])
qed

theorem Feed_bounds_witness:
  "reassembler_inv (snd (Feed (test_codec [] []) [0x20, 0x80, 0x20, 5] new_reassembler)) \<and>
   snd (Feed (test_codec [] []) [0x20, 0x80, 0x20, 5] new_reassembler) = \<lparr>ra_want = 4096, ra_buf = [5]\<rparr>"
proof
  show "reassembler_inv (snd (Feed (test_codec [] []) [0x20, 0x80, 0x20, 5] new_reassembler))"
    using Feed_bounds by blast
  show "snd (Feed (test_codec [] []) [0x20, 0x80, 0x20, 5] new_reassembler) = \<lparr>ra_want = 4096, ra_buf = [5]\<rparr>"
    by code_simp
qed

end
