(* ===== verification/Beyonder_Creds.thy ===== *)
theory Beyonder_Creds
  imports Go_Files
begin

text \<open>
  \<open>internal/beyonder/creds.go\<close> and \<open>ParseCredentials\<close> of \<open>session.go\<close>: the files that hold the
  certificate and the key a SHIELD issued, and the device id. PEM, X.509 and the key formats are
  the library's and are given by \<open>bey_crypto\<close>; bytes of files and certificates are strings.
\<close>

section \<open>Certificates\<close>

type_synonym private_key = string
type_synonym x509_leaf = string

record tls_certificate =
  tc_Certificate :: "string list"
  tc_PrivateKey :: "private_key option"
  tc_Leaf :: "x509_leaf option"

text \<open>\<open>PEM_Encode\<close> takes the type of the block and its bytes.\<close>

record bey_crypto =
  by_PEM_Decode :: "string \<Rightarrow> string option"
  by_PEM_Encode :: "string \<Rightarrow> string \<Rightarrow> string"
  by_ParseCertificate :: "string \<Rightarrow> x509_leaf res"
  by_ParsePKCS8PrivateKey :: "string \<Rightarrow> private_key res"
  by_ParsePKCS1PrivateKey :: "string \<Rightarrow> private_key res"
  by_ParseECPrivateKey :: "string \<Rightarrow> private_key res"
  by_MarshalPKCS8PrivateKey :: "private_key \<Rightarrow> string res"
  by_X509KeyPair :: "string \<Rightarrow> string \<Rightarrow> tls_certificate res"

definition mustKeyPEM :: "bey_crypto \<Rightarrow> private_key \<Rightarrow> string" where
  "mustKeyPEM k priv =
     (case by_MarshalPKCS8PrivateKey k priv of
        Inl _ \<Rightarrow> []
      | Inr der \<Rightarrow> by_PEM_Encode k ''PRIVATE KEY'' der)"

definition pem_or_der :: "bey_crypto \<Rightarrow> string \<Rightarrow> string" where
  "pem_or_der k raw = (case by_PEM_Decode k raw of None \<Rightarrow> raw | Some der \<Rightarrow> der)"

text \<open>The key in the first of the three formats that it parses in; the error is the first format's.\<close>

definition parse_key :: "bey_crypto \<Rightarrow> string \<Rightarrow> private_key res" where
  "parse_key k keyDER =
     (case by_ParsePKCS8PrivateKey k keyDER of
        Inr priv \<Rightarrow> Inr priv
      | Inl err \<Rightarrow>
          (case by_ParsePKCS1PrivateKey k keyDER of
             Inr priv \<Rightarrow> Inr priv
           | Inl _ \<Rightarrow>
               (case by_ParseECPrivateKey k keyDER of
                  Inr priv \<Rightarrow> Inr priv
                | Inl _ \<Rightarrow> Inl err)))"

definition ParseCredentials :: "bey_crypto \<Rightarrow> string \<Rightarrow> string \<Rightarrow> tls_certificate res" where
  "ParseCredentials k cert key =
     (let certDER = pem_or_der k cert in
      case by_ParseCertificate k certDER of
        Inl err \<Rightarrow> Inl (wrap_err ''beyonder: parse certificate: %w'' err)
      | Inr leaf \<Rightarrow>
          (case parse_key k (pem_or_der k key) of
             Inl err \<Rightarrow> Inl (wrap_err ''beyonder: parse private key: %w'' err)
           | Inr priv \<Rightarrow>
               (case by_X509KeyPair k (by_PEM_Encode k ''CERTIFICATE'' certDER) (mustKeyPEM k priv) of
                  Inl err \<Rightarrow> Inl (wrap_err ''beyonder: key/certificate mismatch: %w'' err)
                | Inr _ \<Rightarrow>
                    Inr \<lparr>tc_Certificate = [certDER], tc_PrivateKey = Some priv, tc_Leaf = Some leaf\<rparr>)))"

section \<open>Files\<close>

definition bey_certFile :: string where "bey_certFile = ''beyonder-client-cert.pem''"
definition bey_keyFile :: string where "bey_keyFile = ''beyonder-client-key.pem''"
definition deviceIDFile :: string where "deviceIDFile = ''beyonder-device-id''"

lemmas bey_file_names = bey_certFile_def bey_keyFile_def deviceIDFile_def

definition bey_configDir :: "'a fs_scheme \<Rightarrow> string res" where
  "bey_configDir w =
     (case fs_configDir w of
        Inl err \<Rightarrow> Inl (wrap_err ''resolve user config dir: %w'' err)
      | Inr d \<Rightarrow> Inr (path_Join [d, ''shrmt'']))"

text \<open>Modes are octal: 0700 is 448 and 0600 is 384.\<close>

definition writePrivate :: "string \<Rightarrow> string \<Rightarrow> string \<Rightarrow> 'a fs_scheme \<Rightarrow> goerr option \<times> 'a fs_scheme" where
  "writePrivate dir name data w =
     (case os_MkdirAll dir 448 w of
        (Some err, w) \<Rightarrow> (Some err, w)
      | (None, w) \<Rightarrow>
          (let p = path_Join [dir, name] in
           case os_WriteFile p data 384 w of
             (Some err, w) \<Rightarrow> (Some err, w)
           | (None, w) \<Rightarrow> os_Chmod p 384 w))"

definition LoadCredentials :: "bey_crypto \<Rightarrow> 'a fs_scheme \<Rightarrow> tls_certificate option res" where
  "LoadCredentials k w =
     (case bey_configDir w of
        Inl err \<Rightarrow> Inl err
      | Inr dir \<Rightarrow>
          (case os_ReadFile w (path_Join [dir, bey_certFile]) of
             Inl err \<Rightarrow> if errors_is err ErrNotExist then Inr None else Inl err
           | Inr certPEM \<Rightarrow>
               (case os_ReadFile w (path_Join [dir, bey_keyFile]) of
                  Inl err \<Rightarrow> if errors_is err ErrNotExist then Inr None else Inl err
                | Inr keyPEM \<Rightarrow>
                    (case by_X509KeyPair k certPEM keyPEM of
                       Inl err \<Rightarrow> Inl (wrap_err ''beyonder: load stored credentials: %w'' err)
                     | Inr c \<Rightarrow> Inr (Some c)))))"

definition SaveCertificate :: "bey_crypto \<Rightarrow> tls_certificate \<Rightarrow> 'a fs_scheme \<Rightarrow> goerr option \<times> 'a fs_scheme" where
  "SaveCertificate k c w =
     (case (tc_Certificate c, tc_PrivateKey c) of
        (der # _, Some priv) \<Rightarrow>
          (case by_MarshalPKCS8PrivateKey k priv of
             Inl err \<Rightarrow> (Some (wrap_err ''beyonder: marshal key: %w'' err), w)
           | Inr keyDER \<Rightarrow>
               (case bey_configDir w of
                  Inl err \<Rightarrow> (Some err, w)
                | Inr dir \<Rightarrow>
                    (let certPEM = by_PEM_Encode k ''CERTIFICATE'' der;
                         keyPEM = by_PEM_Encode k ''PRIVATE KEY'' keyDER
                     in case writePrivate dir bey_keyFile keyPEM w of
                          (Some err, w) \<Rightarrow> (Some err, w)
                        | (None, w) \<Rightarrow> writePrivate dir bey_certFile certPEM w)))
      | _ \<Rightarrow> (Some (new_err ''beyonder: empty certificate''), w))"

definition SaveCredentials :: "bey_crypto \<Rightarrow> string \<Rightarrow> string \<Rightarrow> 'a fs_scheme \<Rightarrow> goerr option \<times> 'a fs_scheme" where
  "SaveCredentials k cert key w =
     (case ParseCredentials k cert key of
        Inl err \<Rightarrow> (Some err, w)
      | Inr c \<Rightarrow> SaveCertificate k c w)"

text \<open>What \<open>rand.Read\<close> fills the sixteen bytes with, or its error, is an argument.\<close>

definition LoadOrCreateDeviceID :: "byte list res \<Rightarrow> 'a fs_scheme \<Rightarrow> string res \<times> 'a fs_scheme" where
  "LoadOrCreateDeviceID rand w =
     (case bey_configDir w of
        Inl err \<Rightarrow> (Inl err, w)
      | Inr dir \<Rightarrow>
          (let create =
             (case rand of
                Inl err \<Rightarrow> (Inl err, w)
              | Inr raw \<Rightarrow>
                  (let id = hex_EncodeToString raw in
                   case writePrivate dir deviceIDFile (id @ [char_of (10 :: nat)]) w of
                     (Some err, w) \<Rightarrow> (Inl err, w)
                   | (None, w) \<Rightarrow> (Inr id, w)))
           in case os_ReadFile w (path_Join [dir, deviceIDFile]) of
                Inr b \<Rightarrow> if TrimSpace b \<noteq> [] then (Inr (TrimSpace b), w) else create
              | Inl err \<Rightarrow> if \<not> errors_is err ErrNotExist then (Inl err, w) else create))"

section \<open>Lemmas\<close>

lemma bey_names [simp]:
  "simple_name bey_certFile" "simple_name bey_keyFile" "simple_name deviceIDFile"
  "bey_certFile \<noteq> bey_keyFile"
  by (auto simp: simple_name_def bey_file_names)

lemma bey_paths_differ: "path_Join [dir, bey_keyFile] \<noteq> path_Join [dir, bey_certFile]"
  using path_Join_inj [of bey_keyFile bey_certFile dir dir] bey_names by auto

lemma writePrivate_frame:
  assumes "writePrivate dir name data w = (r, w')" "path_Join [dir, name] \<in> S"
  shows "only_files S w w'"
proof -
  obtain r1 w1 where m: "os_MkdirAll dir 448 w = (r1, w1)" by fastforce
  obtain r2 w2 where f: "os_WriteFile (path_Join [dir, name]) data 384 w1 = (r2, w2)" by fastforce
  have 1: "only_files S w w1" using m by (rule os_MkdirAll_frame)
  have 2: "only_files S w1 w2" using f assms(2) by (rule os_WriteFile_frame)
  have "only_files S w2 w3" if "os_Chmod (path_Join [dir, name]) 384 w2 = (r3, w3)" for r3 w3
    using that assms(2) by (rule os_Chmod_frame)
  with assms(1) m f 1 only_files_trans [OF 1 2] show ?thesis
    by (auto simp: writePrivate_def Let_def split: option.splits intro: only_files_trans [of S w w2])
qed

text \<open>A private file is not readable by others, also when it existed with another mode.\<close>

lemma writePrivate_ok:
  assumes "writePrivate dir name data w = (None, w')"
  shows "fs_files w' (path_Join [dir, name]) = Some (data, 384)"
  using assms
  by (auto simp: writePrivate_def Let_def os_Chmod_def split: option.splits prod.splits dest!: os_WriteFile_ok(1))

lemma bey_configDir_cong: "fs_configDir w' = fs_configDir w \<Longrightarrow> bey_configDir w' = bey_configDir w"
  by (simp add: bey_configDir_def)

lemma hex_digit_not_edge: "d < 16 \<Longrightarrow> \<not> edge_char (hex_digit d)"
  by (simp add: edge_char_def hex_digit_def)

lemma hex_not_edge: "list_all (\<lambda>c. \<not> edge_char c) (hex_EncodeToString bs)"
proof -
  have "unat b div 16 < 16" for b :: byte
  proof -
    have "unat b < 256" using unsigned_less [of b] by simp
    then show ?thesis by simp
  qed
  then show ?thesis by (auto simp: hex_EncodeToString_def list_all_iff hex_digit_not_edge)
qed

lemma length_hex: "length (hex_EncodeToString bs) = 2 * length bs"
  by (induction bs) (auto simp: hex_EncodeToString_def)

lemma TrimSpace_line:
  assumes "list_all (\<lambda>c. \<not> edge_char c) s"
  shows "TrimSpace (s @ [char_of (10 :: nat)]) = s"
proof (cases "s = []")
  case True
  then show ?thesis by (simp add: TrimSpace_def trim_with.simps space_seqs_def)
next
  case False
  have l: "strip_any space_seqs (s @ [char_of (10 :: nat)]) = None"
    using space_seqs_edges assms False by (intro strip_any_hd) (auto simp: list_all_iff)
  have r: "strip_any (map rev space_seqs) (rev s) = None"
    using space_seqs_edges assms by (intro strip_any_hd) (auto simp: list_all_iff hd_rev)
  have "strip_any (map rev space_seqs) (char_of (10 :: nat) # rev s) = Some (rev s)"
    by (simp add: space_seqs_def)
  then have "trim_with (map rev space_seqs) (char_of (10 :: nat) # rev s) = rev s"
    by (simp add: trim_with.simps [of _ "char_of (10 :: nat) # rev s"] trim_with_stop r)
  then show ?thesis by (simp add: TrimSpace_def trim_with_stop l)
qed

section \<open>Properties\<close>

lemma SaveCertificate_loads:
  assumes "SaveCertificate k c w = (None, w')" and "bey_configDir w = Inr dir"
    and "fs_fault w OpRead (path_Join [dir, bey_certFile]) = None"
    and "fs_fault w OpRead (path_Join [dir, bey_keyFile]) = None"
  shows "\<exists>der ders priv keyDER. tc_Certificate c = der # ders \<and> tc_PrivateKey c = Some priv \<and>
    by_MarshalPKCS8PrivateKey k priv = Inr keyDER \<and>
    fs_files w' (path_Join [dir, bey_certFile]) = Some (by_PEM_Encode k ''CERTIFICATE'' der, 384) \<and>
    fs_files w' (path_Join [dir, bey_keyFile]) = Some (by_PEM_Encode k ''PRIVATE KEY'' keyDER, 384) \<and>
    LoadCredentials k w' =
      (case by_X509KeyPair k (by_PEM_Encode k ''CERTIFICATE'' der) (by_PEM_Encode k ''PRIVATE KEY'' keyDER) of
         Inl err \<Rightarrow> Inl (wrap_err ''beyonder: load stored credentials: %w'' err)
       | Inr t \<Rightarrow> Inr (Some t)) \<and>
    only_files {path_Join [dir, bey_certFile], path_Join [dir, bey_keyFile]} w w'"
proof -
  let ?cp = "path_Join [dir, bey_certFile]" and ?kp = "path_Join [dir, bey_keyFile]"
  obtain der ders priv keyDER w1 where c: "tc_Certificate c = der # ders" "tc_PrivateKey c = Some priv"
      "by_MarshalPKCS8PrivateKey k priv = Inr keyDER"
    and k: "writePrivate dir bey_keyFile (by_PEM_Encode k ''PRIVATE KEY'' keyDER) w = (None, w1)"
    and ce: "writePrivate dir bey_certFile (by_PEM_Encode k ''CERTIFICATE'' der) w1 = (None, w')"
    using assms(1,2)
    by (auto simp: SaveCertificate_def Let_def split: list.splits option.splits sum.splits prod.splits)
  have 1: "only_files {?kp} w w1" and 2: "only_files {?cp} w1 w'"
    using writePrivate_frame [OF k] writePrivate_frame [OF ce] by auto
  have f: "only_files {?cp, ?kp} w w'"
    by (rule only_files_trans [OF writePrivate_frame [OF k] writePrivate_frame [OF ce]]) simp_all
  have kp: "fs_files w' ?kp = Some (by_PEM_Encode k ''PRIVATE KEY'' keyDER, 384)"
    using only_filesD(4) [OF 2, of ?kp] writePrivate_ok [OF k] bey_paths_differ [of dir] by simp
  note cp = writePrivate_ok [OF ce]
  have d: "bey_configDir w' = Inr dir"
    using bey_configDir_cong only_filesD(1) [OF f] assms(2) by metis
  have "os_ReadFile w' ?cp = Inr (by_PEM_Encode k ''CERTIFICATE'' der)"
    "os_ReadFile w' ?kp = Inr (by_PEM_Encode k ''PRIVATE KEY'' keyDER)"
    using cp kp assms(3,4) only_filesD(2) [OF f] by (simp_all add: os_ReadFile_written)
  with d have "LoadCredentials k w' =
      (case by_X509KeyPair k (by_PEM_Encode k ''CERTIFICATE'' der) (by_PEM_Encode k ''PRIVATE KEY'' keyDER) of
         Inl err \<Rightarrow> Inl (wrap_err ''beyonder: load stored credentials: %w'' err) | Inr t \<Rightarrow> Inr (Some t))"
    by (simp add: LoadCredentials_def)
  with c cp kp f show ?thesis by blast
qed

text \<open>
  C22: A certificate that was saved is the one loaded next: \<open>LoadCredentials\<close> gives the key pair
  of exactly the two PEM blocks that \<open>SaveCertificate\<close> made. Both files, the private key above
  all, are then readable by the owner only, whatever their mode was before, and no other file
  has changed.
\<close>

theorem save_load_credentials:
  assumes "SaveCertificate k c w = (None, w')" and "bey_configDir w = Inr dir"
    and "fs_fault w OpRead (path_Join [dir, bey_certFile]) = None"
    and "fs_fault w OpRead (path_Join [dir, bey_keyFile]) = None"
  shows "\<exists>der ders priv keyDER. tc_Certificate c = der # ders \<and> tc_PrivateKey c = Some priv \<and>
    by_MarshalPKCS8PrivateKey k priv = Inr keyDER \<and>
    fs_files w' (path_Join [dir, bey_certFile]) = Some (by_PEM_Encode k ''CERTIFICATE'' der, 384) \<and>
    fs_files w' (path_Join [dir, bey_keyFile]) = Some (by_PEM_Encode k ''PRIVATE KEY'' keyDER, 384) \<and>
    LoadCredentials k w' =
      (case by_X509KeyPair k (by_PEM_Encode k ''CERTIFICATE'' der) (by_PEM_Encode k ''PRIVATE KEY'' keyDER) of
         Inl err \<Rightarrow> Inl (wrap_err ''beyonder: load stored credentials: %w'' err)
       | Inr t \<Rightarrow> Inr (Some t)) \<and>
    only_files {path_Join [dir, bey_certFile], path_Join [dir, bey_keyFile]} w w'"
  using SaveCertificate_loads [OF assms] .

text \<open>A library and a world for the witnesses.\<close>

definition plain_crypto :: bey_crypto where
  "plain_crypto = \<lparr>by_PEM_Decode = (\<lambda>_. None), by_PEM_Encode = (\<lambda>t b. t @ b), by_ParseCertificate = Inr,
     by_ParsePKCS8PrivateKey = Inr, by_ParsePKCS1PrivateKey = Inr, by_ParseECPrivateKey = Inr,
     by_MarshalPKCS8PrivateKey = Inr,
     by_X509KeyPair = (\<lambda>c p. Inr \<lparr>tc_Certificate = [c], tc_PrivateKey = Some p, tc_Leaf = None\<rparr>)\<rparr>"

definition plain_world :: fs where
  "plain_world = \<lparr>fs_configDir = Inr ''/c'', fs_files = (\<lambda>_. None),
     fs_dirs = (\<lambda>p. if p = ''/'' \<or> p = ''/c'' \<or> p = ''/c/shrmt'' then Some 493 else None),
     fs_fault = (\<lambda>_ _. None), fs_short = (\<lambda>_. 0)\<rparr>"

definition plain_certificate :: tls_certificate where
  "plain_certificate = \<lparr>tc_Certificate = [''der''], tc_PrivateKey = Some ''priv'', tc_Leaf = None\<rparr>"

lemma plain_paths:
  "bey_configDir plain_world = Inr ''/c/shrmt''"
  "path_Join [''/c/shrmt'', bey_certFile] = ''/c/shrmt/beyonder-client-cert.pem''"
  "path_Join [''/c/shrmt'', bey_keyFile] = ''/c/shrmt/beyonder-client-key.pem''"
  "path_Join [''/c/shrmt'', deviceIDFile] = ''/c/shrmt/beyonder-device-id''"
  "path_Dir ''/c/shrmt/beyonder-client-cert.pem'' = ''/c/shrmt''"
  "path_Dir ''/c/shrmt/beyonder-client-key.pem'' = ''/c/shrmt''"
  "path_Dir ''/c/shrmt/beyonder-device-id'' = ''/c/shrmt''"
  by code_simp+

lemma writePrivate_plain:
  assumes "fs_dirs w dir \<noteq> None" "fs_dirs w (path_Join [dir, name]) = None" "\<And>op p. fs_fault w op p = None"
    and "path_Dir (path_Join [dir, name]) = dir"
  shows "writePrivate dir name data w = (None, w\<lparr>fs_files := (fs_files w)(path_Join [dir, name] \<mapsto> (data, 384))\<rparr>)"
  using assms by (auto simp: writePrivate_def os_MkdirAll_def os_WriteFile_def os_Chmod_def Let_def)

lemma plain_save: "fst (SaveCertificate plain_crypto plain_certificate plain_world) = None"
proof -
  let ?w = "plain_world\<lparr>fs_files := (fs_files plain_world)(''/c/shrmt/beyonder-client-key.pem'' \<mapsto> (''PRIVATE KEYpriv'', 384))\<rparr>"
  have 1: "writePrivate ''/c/shrmt'' bey_keyFile ''PRIVATE KEYpriv'' plain_world = (None, ?w)"
    by (subst writePrivate_plain) (simp_all add: plain_paths plain_world_def)
  have 2: "fst (writePrivate ''/c/shrmt'' bey_certFile ''CERTIFICATEder'' ?w) = None"
    by (subst writePrivate_plain) (simp_all add: plain_paths plain_world_def)
  show ?thesis
    using 1 2 by (simp add: SaveCertificate_def plain_certificate_def plain_crypto_def plain_paths)
qed

theorem save_load_credentials_witness:
  "\<exists>w' :: fs. fs_files w' ''/c/shrmt/beyonder-client-key.pem'' = Some (''PRIVATE KEYpriv'', 384) \<and>
     LoadCredentials plain_crypto w' = Inr (Some \<lparr>tc_Certificate = [''CERTIFICATEder''],
       tc_PrivateKey = Some ''PRIVATE KEYpriv'', tc_Leaf = None\<rparr>)"
proof -
  obtain w' where w: "SaveCertificate plain_crypto plain_certificate plain_world = (None, w')"
    using plain_save by (cases "SaveCertificate plain_crypto plain_certificate plain_world") auto
  have f: "fs_fault plain_world OpRead p = None" for p by (simp add: plain_world_def)
  from save_load_credentials [OF w plain_paths(1) f f] show ?thesis
    by (intro exI [of _ w']) (auto simp: plain_paths plain_certificate_def plain_crypto_def)
qed

text \<open>
  The device id is persistent. Whatever \<open>LoadOrCreateDeviceID\<close> returns once, it returns
  ever after, without drawing a new one and without writing: an id is only drawn when the file
  is missing or blank, it is then the 32 hexadecimal digits of the random bytes, and it is never
  empty. The hypothesis is that \<open>rand.Read\<close> fills its sixteen bytes.
\<close>

theorem device_id_stable:
  assumes "LoadOrCreateDeviceID rand w = (Inr ident, w')" and "bey_configDir w = Inr dir"
    and "fs_fault w OpRead (path_Join [dir, deviceIDFile]) = None"
    and "\<And>bs. rand = Inr bs \<Longrightarrow> length bs = 16"
  shows "ident \<noteq> [] \<and> LoadOrCreateDeviceID rand' w' = (Inr ident, w') \<and>
    (w' = w \<or> (\<exists>bs. rand = Inr bs \<and> ident = hex_EncodeToString bs \<and> length ident = 32)) \<and>
    only_files {path_Join [dir, deviceIDFile]} w w'"
proof -
  let ?p = "path_Join [dir, deviceIDFile]"
  consider (kept) b where "os_ReadFile w ?p = Inr b" "ident = TrimSpace b" "ident \<noteq> []" "w' = w"
    | (drawn) bs where "rand = Inr bs" "ident = hex_EncodeToString bs"
        "writePrivate dir deviceIDFile (ident @ [char_of (10 :: nat)]) w = (None, w')"
    using assms(1,2)
    by (auto simp: LoadOrCreateDeviceID_def Let_def split: sum.splits if_splits prod.splits option.splits)
  then show ?thesis
  proof cases
    case kept
    then show ?thesis using assms(2) by (auto simp: LoadOrCreateDeviceID_def Let_def)
  next
    case drawn
    then have l: "length ident = 32" using assms(4) by (simp add: length_hex)
    have f: "only_files {?p} w w'" using writePrivate_frame [OF drawn(3)] by auto
    have "os_ReadFile w' ?p = Inr (ident @ [char_of (10 :: nat)])"
      using writePrivate_ok [OF drawn(3)] assms(3) only_filesD(2) [OF f] by (simp add: os_ReadFile_written)
    moreover have "TrimSpace (ident @ [char_of (10 :: nat)]) = ident"
      unfolding drawn(2) by (rule TrimSpace_line [OF hex_not_edge])
    moreover have "bey_configDir w' = Inr dir"
      using bey_configDir_cong only_filesD(1) [OF f] assms(2) by metis
    moreover have "ident \<noteq> []" using l by auto
    ultimately have "LoadOrCreateDeviceID rand' w' = (Inr ident, w')"
      by (simp add: LoadOrCreateDeviceID_def Let_def)
    with \<open>ident \<noteq> []\<close> drawn(1,2) l f show ?thesis by blast
  qed
qed

theorem device_id_stable_witness:
  "\<exists>w'. LoadOrCreateDeviceID (Inr (replicate 16 0)) plain_world = (Inr (hex_EncodeToString (replicate 16 0)), w') \<and>
     LoadOrCreateDeviceID (Inr (replicate 16 1)) w' = (Inr (hex_EncodeToString (replicate 16 0)), w')"
proof -
  have "fst (LoadOrCreateDeviceID (Inr (replicate 16 0)) plain_world) = Inr (hex_EncodeToString (replicate 16 0))"
    by (simp add: LoadOrCreateDeviceID_def plain_paths os_ReadFile_def Let_def, subst writePrivate_plain)
      (simp_all add: plain_paths plain_world_def)
  then obtain w' where w: "LoadOrCreateDeviceID (Inr (replicate 16 0)) plain_world =
      (Inr (hex_EncodeToString (replicate 16 0)), w')"
    by (cases "LoadOrCreateDeviceID (Inr (replicate 16 0)) plain_world") auto
  have f: "fs_fault plain_world OpRead p = None" for p by (simp add: plain_world_def)
  from device_id_stable [OF w plain_paths(1) f, of "Inr (replicate 16 1)"] w show ?thesis by auto
qed

end
