(* ===== verification/Beyonder_Client.thy ===== *)
theory Beyonder_Client
  imports Beyonder_Messages Beyonder_Creds Go_Conn
begin

text \<open>
  \<open>internal/beyonder/client.go\<close> and \<open>session.go\<close>: the client of the beyonder protocol, with its
  reader, its keepalive and the operations that send a request and wait for the answer.

  The goroutines run interleaved. An operation that has to wait takes, one after the other, the
  events of a schedule: a step of the reader or of the keepalive, the passing of time, the end
  of the context, and the choices of its own \<open>select\<close>. A schedule that runs out before the
  operation is done means that it is still waiting.
\<close>

section \<open>State\<close>

datatype event =
    Ev_Reader bool
  | Ev_Ticker
  | Ev_TickerStop
  | Ev_Time int
  | Ev_Ctx goerr
  | Ev_Receive
  | Ev_Done

text \<open>
  The connection is what its reads will return, one chunk with an error or none each, and what
  was written, one element for each write; \<open>bl_room\<close> is how many more writes succeed, if that is
  limited. The reader's local state is the reassembler, the messages of the last chunk it has
  not delivered yet, and the error with which it will then end.
\<close>

record bey_client =
  bl_reads :: "(byte list \<times> goerr option) list"
  bl_closed :: bool
  bl_room :: "nat option"
  bl_writes :: "byte list list"
  bl_hooks :: "(string \<times> byte list) list"
  bl_reasm :: reassembler
  bl_pending :: "bey_message list"
  bl_failed :: "goerr option"
  bl_ended :: bool
  bl_msgs :: "bey_message list"
  bl_done :: bool
  bl_err :: "goerr option"
  bl_lastRTT :: int
  bl_level :: int32
  bl_caps :: int32
  bl_name :: string
  bl_keepalives :: nat
  bl_now :: int
  bl_ctx :: "goerr option"
  bl_sched :: "event list"

definition rttTick :: int where "rttTick = 3 * 1000000000"
definition rttIdle :: int where "rttIdle = 5 * 1000000000"
definition msgs_cap :: nat where "msgs_cap = 64"

definition context_Canceled :: goerr where "context_Canceled = Sentinel ''context canceled''"
definition context_DeadlineExceeded :: goerr where
  "context_DeadlineExceeded = Sentinel ''context deadline exceeded''"

text \<open>What dialling an address gives: what can be read and written, and the schedule of the future.\<close>

record bey_net =
  bn_Dial :: "string \<Rightarrow> tls_certificate option \<Rightarrow> ((byte list \<times> goerr option) list \<times> nat option \<times> event list) res"
  bn_now :: int
  bn_ctx :: "goerr option"

definition bey_Dial :: "bey_net \<Rightarrow> string \<Rightarrow> tls_certificate option \<Rightarrow> bey_client res" where
  "bey_Dial net addr cert =
     (case bn_Dial net addr cert of
        Inl err \<Rightarrow> Inl (Errorf ''beyonder: dial %s: %w'' [FS addr] (Some err))
      | Inr (reads, room, sched) \<Rightarrow>
          Inr \<lparr>bl_reads = reads, bl_closed = False, bl_room = room, bl_writes = [], bl_hooks = [],
            bl_reasm = new_reassembler, bl_pending = [], bl_failed = None, bl_ended = False,
            bl_msgs = [], bl_done = False, bl_err = None, bl_lastRTT = bn_now net, bl_level = 0,
            bl_caps = 0, bl_name = [], bl_keepalives = 0, bl_now = bn_now net, bl_ctx = bn_ctx net,
            bl_sched = sched\<rparr>)"

section \<open>The client\<close>

definition hook :: "string \<Rightarrow> byte list \<Rightarrow> bey_client \<Rightarrow> bey_client" where
  "hook dir b cl = cl\<lparr>bl_hooks := bl_hooks cl @ [(dir, b)]\<rparr>"

definition bl_setErr :: "goerr \<Rightarrow> bey_client \<Rightarrow> bey_client" where
  "bl_setErr err cl = (if bl_err cl = None then cl\<lparr>bl_err := Some err\<rparr> else cl)"

definition touchRTT :: "bey_client \<Rightarrow> bey_client" where
  "touchRTT cl = cl\<lparr>bl_lastRTT := bl_now cl\<rparr>"

text \<open>
  One step of \<open>readLoop\<close>: delivering the next message of the last chunk, ending, or reading.
  A message that cannot be delivered, because the channel is full, keeps the reader where it
  is. If the client is closed, the \<open>select\<close> may take that branch, which the argument says.
\<close>

definition reader_step :: "bey_codec \<Rightarrow> bool \<Rightarrow> bey_client \<Rightarrow> bey_client" where
  "reader_step c take_done cl =
     (if bl_ended cl then cl
      else
        (case bl_pending cl of
           m # ms \<Rightarrow>
             if IsRTT m then touchRTT (cl\<lparr>bl_pending := ms\<rparr>)
             else if bl_done cl \<and> take_done then cl\<lparr>bl_ended := True\<rparr>
             else if length (bl_msgs cl) < msgs_cap
             then cl\<lparr>bl_pending := ms, bl_msgs := bl_msgs cl @ [m]\<rparr>
             else cl
         | [] \<Rightarrow>
             (case bl_failed cl of
                Some err \<Rightarrow> (bl_setErr err cl)\<lparr>bl_ended := True\<rparr>
              | None \<Rightarrow>
                  if bl_closed cl then (bl_setErr err_ErrClosed cl)\<lparr>bl_ended := True\<rparr>
                  else
                    (case bl_reads cl of
                       [] \<Rightarrow> cl
                     | (chunk, err) # rest \<Rightarrow>
                         (let cl = cl\<lparr>bl_reads := rest\<rparr> in
                          if chunk = [] then cl\<lparr>bl_failed := err\<rparr>
                          else
                            (case Feed c chunk (bl_reasm cl) of
                               ((ms, ferr), r) \<Rightarrow>
                                 (hook ''rx'' chunk cl)\<lparr>bl_reasm := r, bl_pending := ms,
                                   bl_failed := (if ferr = None then err else ferr)\<rparr>))))))"

definition conn_write :: "byte list \<Rightarrow> bey_client \<Rightarrow> goerr option \<times> bey_client" where
  "conn_write b cl =
     (if bl_closed cl then (Some err_ErrClosed, cl)
      else
        (case bl_room cl of
           None \<Rightarrow> (None, cl\<lparr>bl_writes := bl_writes cl @ [b]\<rparr>)
         | Some 0 \<Rightarrow> (Some err_broken_pipe, cl)
         | Some (Suc n) \<Rightarrow> (None, cl\<lparr>bl_writes := bl_writes cl @ [b], bl_room := Some n\<rparr>)))"

fun send_frames :: "byte list list \<Rightarrow> bey_client \<Rightarrow> goerr option \<times> bey_client" where
  "send_frames [] cl = (None, cl)"
| "send_frames (f # fs) cl =
     (case conn_write f (hook ''tx'' f cl) of
        (Some err, cl) \<Rightarrow> (Some (wrap_err ''beyonder: send: %w'' err), cl)
      | (None, cl) \<Rightarrow> send_frames fs cl)"

definition bl_Send :: "bey_codec \<Rightarrow> byte list \<Rightarrow> bey_client \<Rightarrow> goerr option \<times> bey_client" where
  "bl_Send c f cl =
     (case bl_ctx cl of Some err \<Rightarrow> (Some err, cl) | None \<Rightarrow> send_frames (Frames c f) cl)"

definition bl_Close :: "bey_client \<Rightarrow> bey_client" where
  "bl_Close cl = (if bl_done cl then cl else cl\<lparr>bl_done := True, bl_closed := True\<rparr>)"

text \<open>
  A tick of the keepalive, and its end by the context or by \<open>Close\<close>. Times are in nanoseconds.
\<close>

definition keepalive_tick :: "bey_codec \<Rightarrow> bey_client \<Rightarrow> bey_client" where
  "keepalive_tick c cl =
     (if bl_keepalives cl = 0 \<or> bl_now cl - bl_lastRTT cl < rttIdle then cl
      else
        (case EncodeRTTProbe c (word_of_int (bl_now cl div 1000000)) of
           Inl _ \<Rightarrow> cl
         | Inr p \<Rightarrow>
             (case bl_Send c p cl of
                (Some err, cl) \<Rightarrow>
                  (if errors_is err context_Canceled then cl else bl_setErr err cl)
                    \<lparr>bl_keepalives := bl_keepalives cl - 1\<rparr>
              | (None, cl) \<Rightarrow> touchRTT cl)))"

definition keepalive_stop :: "bey_client \<Rightarrow> bey_client" where
  "keepalive_stop cl =
     (if bl_ctx cl \<noteq> None \<or> bl_done cl then cl\<lparr>bl_keepalives := bl_keepalives cl - 1\<rparr> else cl)"

definition StartKeepalive :: "bey_client \<Rightarrow> bey_client" where
  "StartKeepalive cl = cl\<lparr>bl_keepalives := bl_keepalives cl + 1\<rparr>"

section \<open>Waiting\<close>

text \<open>What happens beside the operation that waits; a context that has ended stays ended.\<close>

fun background :: "bey_codec \<Rightarrow> event \<Rightarrow> bey_client \<Rightarrow> bey_client" where
  "background c (Ev_Reader d) cl = reader_step c d cl"
| "background c Ev_Ticker cl = keepalive_tick c cl"
| "background c Ev_TickerStop cl = keepalive_stop cl"
| "background c (Ev_Time t) cl = cl\<lparr>bl_now := max t (bl_now cl)\<rparr>"
| "background c (Ev_Ctx err) cl = (if bl_ctx cl = None then cl\<lparr>bl_ctx := Some err\<rparr> else cl)"
| "background c Ev_Receive cl = cl"
| "background c Ev_Done cl = cl"

definition closed_error :: "bey_client \<Rightarrow> goerr" where
  "closed_error cl =
     (case bl_err cl of
        Some err \<Rightarrow> wrap_err ''beyonder: connection closed: %w'' err
      | None \<Rightarrow> new_err ''beyonder: connection closed'')"

fun wait_loop ::
  "bey_codec \<Rightarrow> (bey_message \<Rightarrow> bool) \<Rightarrow> event list \<Rightarrow> bey_client \<Rightarrow> bey_message res option \<times> bey_client" where
  "wait_loop c pred [] cl = (None, cl\<lparr>bl_sched := []\<rparr>)"
| "wait_loop c pred (Ev_Done # evs) cl =
     (case bl_ctx cl of
        Some err \<Rightarrow> (Some (Inl err), cl\<lparr>bl_sched := evs\<rparr>)
      | None \<Rightarrow> wait_loop c pred evs cl)"
| "wait_loop c pred (Ev_Receive # evs) cl =
     (case bl_msgs cl of
        m # ms \<Rightarrow>
          (let cl = cl\<lparr>bl_msgs := ms\<rparr> in
           if pred m then (Some (Inr m), cl\<lparr>bl_sched := evs\<rparr>) else wait_loop c pred evs cl)
      | [] \<Rightarrow>
          if bl_ended cl then (Some (Inl (closed_error cl)), cl\<lparr>bl_sched := evs\<rparr>)
          else wait_loop c pred evs cl)"
| "wait_loop c pred (ev # evs) cl = wait_loop c pred evs (background c ev cl)"

definition wait :: "bey_codec \<Rightarrow> (bey_message \<Rightarrow> bool) \<Rightarrow> bey_client \<Rightarrow> bey_message res option \<times> bey_client" where
  "wait c pred cl = wait_loop c pred (bl_sched cl) (cl\<lparr>bl_sched := []\<rparr>)"

section \<open>The operations of a session\<close>

definition CapRTTMessaging :: int32 where "CapRTTMessaging = 1024"
definition LevelVirtualInput :: int32 where "LevelVirtualInput = LEVEL_VIRTUAL_INPUT"

definition ErrNotPaired :: goerr where
  "ErrNotPaired = Sentinel ''beyonder: not paired (authorization level is not VIRTUAL_INPUT)''"

text \<open>The record \<open>AuthLevel\<close> is the one of the message. Only what is waited for can stay open.\<close>

definition not_nil :: "'a option \<Rightarrow> bool" where
  "not_nil p = (p \<noteq> None)"

definition Hello :: "bey_codec \<Rightarrow> string \<Rightarrow> bey_client \<Rightarrow> authorization_level res option \<times> bey_client" where
  "Hello c name cl =
     (case EncodeHello c name of
        Inl err \<Rightarrow> (Some (Inl err), cl)
      | Inr h \<Rightarrow>
          (case bl_Send c h cl of
             (Some err, cl) \<Rightarrow> (Some (Inl err), cl)
           | (None, cl) \<Rightarrow>
               (case wait c (\<lambda>m. not_nil (ms_AuthLevel m)) cl of
                  (None, cl) \<Rightarrow> (None, cl)
                | (Some (Inl err), cl) \<Rightarrow>
                    (Some (Inl (wrap_err ''beyonder: waiting authorization level: %w'' err)), cl)
                | (Some (Inr m), cl) \<Rightarrow>
                    (let al = the (ms_AuthLevel m);
                         cl = cl\<lparr>bl_level := al_Level al, bl_caps := al_Capability al,
                                bl_name := al_DeviceName al\<rparr>;
                         cl = (if al_Capability al AND CapRTTMessaging \<noteq> 0
                               then StartKeepalive (touchRTT cl) else cl)
                     in (Some (Inr al), cl)))))"

definition SendSpecialInput :: "bey_codec \<Rightarrow> int32 \<Rightarrow> bey_client \<Rightarrow> goerr option \<times> bey_client" where
  "SendSpecialInput c v cl =
     (if bl_level cl \<noteq> LevelVirtualInput then (Some ErrNotPaired, cl)
      else
        (case EncodeSpecialInput c v of
           Inl err \<Rightarrow> (Some err, cl)
         | Inr f \<Rightarrow> bl_Send c f cl))"

definition launch_error :: "string \<Rightarrow> int32 \<Rightarrow> goerr option" where
  "launch_error pkg result =
     (if result = LaunchResponse_SUCCESS then None
      else if result = LaunchResponse_ACTIVITY_NOT_FOUND
      then Some (Errorf ''beyonder: %s is not installed'' [FS pkg] None)
      else Some (Errorf ''beyonder: launch %s failed: %v'' [FS pkg, FI (sint result)] None))"

definition LaunchApp :: "bey_codec \<Rightarrow> string \<Rightarrow> bey_client \<Rightarrow> goerr option option \<times> bey_client" where
  "LaunchApp c pkg cl =
     (if bl_level cl \<noteq> LevelVirtualInput then (Some (Some ErrNotPaired), cl)
      else
        (case EncodeLaunch c pkg of
           Inl err \<Rightarrow> (Some (Some err), cl)
         | Inr f \<Rightarrow>
             (case bl_Send c f cl of
                (Some err, cl) \<Rightarrow> (Some (Some err), cl)
              | (None, cl) \<Rightarrow>
                  (case wait c (\<lambda>m. not_nil (ms_LaunchResult m)) cl of
                     (None, cl) \<Rightarrow> (None, cl)
                   | (Some (Inl err), cl) \<Rightarrow>
                       (Some (Some (wrap_err ''beyonder: waiting launch response: %w'' err)), cl)
                   | (Some (Inr m), cl) \<Rightarrow> (Some (launch_error pkg (the (ms_LaunchResult m))), cl)))))"

text \<open>
  The PIN prompt is given by what it returns and by the error of the context at that time.
\<close>

definition after_prompt :: "goerr option \<Rightarrow> bey_client \<Rightarrow> bey_client" where
  "after_prompt ctx cl = (if bl_ctx cl = None then cl\<lparr>bl_ctx := ctx\<rparr> else cl)"

definition pairing_outcome :: "bey_crypto \<Rightarrow> bey_pairing_result \<Rightarrow> tls_certificate res" where
  "pairing_outcome k pr =
     (if br_ResultType pr \<noteq> RESULT_SUCCESS
      then Inl (Errorf ''beyonder: pairing failed: %v (%q)'' [FI (sint (br_ResultType pr)), FS (br_ResultString pr)] None)
      else if length (br_PrivateKey pr) = 0 \<or> length (br_Certificate pr) = 0
      then Inl (new_err ''beyonder: pairing succeeded but key or certificate is missing'')
      else ParseCredentials k (string_of (br_Certificate pr)) (string_of (br_PrivateKey pr)))"

definition bl_Pair ::
  "bey_codec \<Rightarrow> bey_crypto \<Rightarrow> string res \<times> goerr option \<Rightarrow> string \<Rightarrow> bey_client \<Rightarrow>
    tls_certificate res option \<times> bey_client" where
  "bl_Pair c k pinPrompt deviceID cl =
     (case EncodePinRequest c of
        Inl err \<Rightarrow> (Some (Inl err), cl)
      | Inr req \<Rightarrow>
     (case bl_Send c req cl of
        (Some err, cl) \<Rightarrow> (Some (Inl err), cl)
      | (None, cl) \<Rightarrow>
     (case wait c ms_PinChallenge cl of
        (None, cl) \<Rightarrow> (None, cl)
      | (Some (Inl err), cl) \<Rightarrow> (Some (Inl (wrap_err ''beyonder: waiting PIN challenge: %w'' err)), cl)
      | (Some (Inr _), cl) \<Rightarrow>
          (let cl = after_prompt (snd pinPrompt) cl in
     case fst pinPrompt of
        Inl err \<Rightarrow> (Some (Inl (wrap_err ''beyonder: PIN prompt: %w'' err)), cl)
      | Inr pin \<Rightarrow>
     (case EncodePinCode c pin deviceID of
        Inl err \<Rightarrow> (Some (Inl err), cl)
      | Inr code \<Rightarrow>
     (case bl_Send c code cl of
        (Some err, cl) \<Rightarrow> (Some (Inl err), cl)
      | (None, cl) \<Rightarrow>
     (case wait c (\<lambda>m. not_nil (ms_PairingResult m)) cl of
        (None, cl) \<Rightarrow> (None, cl)
      | (Some (Inl err), cl) \<Rightarrow> (Some (Inl (wrap_err ''beyonder: waiting pairing result: %w'' err)), cl)
      | (Some (Inr m), cl) \<Rightarrow> (Some (pairing_outcome k (the (ms_PairingResult m))), cl))))))))"

section \<open>What arrives\<close>

text \<open>
  The messages that the reads will deliver, and those a caller of \<open>wait\<close> may still receive:
  what is in the channel, what the reader holds, and what arrives. RTT messages are not
  forwarded.
\<close>

fun arriving :: "bey_codec \<Rightarrow> (byte list \<times> goerr option) list \<Rightarrow> reassembler \<Rightarrow> bey_message list" where
  "arriving c [] r = []"
| "arriving c ((chunk, err) # reads) r =
     (if chunk = [] then (if err = None then arriving c reads r else [])
      else
        (case Feed c chunk r of
           ((ms, ferr), r) \<Rightarrow> ms @ (if ferr = None \<and> err = None then arriving c reads r else [])))"

definition incoming :: "bey_codec \<Rightarrow> bey_client \<Rightarrow> bey_message list" where
  "incoming c cl =
     bl_msgs cl @
     (if bl_ended cl then []
      else filter (\<lambda>m. \<not> IsRTT m)
        (bl_pending cl @ (if bl_failed cl = None then arriving c (bl_reads cl) (bl_reasm cl) else [])))"

definition bl_open :: "bey_client \<Rightarrow> bool" where
  "bl_open cl \<longleftrightarrow> \<not> bl_done cl \<and> \<not> bl_closed cl"

lemmas client_defs = hook_def bl_setErr_def touchRTT_def conn_write_def keepalive_stop_def StartKeepalive_def

text \<open>What sending leaves alone: all that belongs to the reader, and the session's level.\<close>

definition sending :: "bey_client \<Rightarrow> bey_client \<Rightarrow> bool" where
  "sending cl cl' \<longleftrightarrow>
     (bl_reads cl', bl_reasm cl', bl_pending cl', bl_failed cl', bl_ended cl', bl_msgs cl') =
       (bl_reads cl, bl_reasm cl, bl_pending cl, bl_failed cl, bl_ended cl, bl_msgs cl) \<and>
     (bl_done cl', bl_closed cl', bl_level cl', bl_caps cl', bl_name cl', bl_ctx cl', bl_sched cl') =
       (bl_done cl, bl_closed cl, bl_level cl, bl_caps cl, bl_name cl, bl_ctx cl, bl_sched cl)"

lemma sending_refl [simp]: "sending cl cl"
  by (simp add: sending_def)

lemma sending_trans: "sending a b \<Longrightarrow> sending b c \<Longrightarrow> sending a c"
  by (simp add: sending_def)

lemma sending_incoming: "sending cl cl' \<Longrightarrow> incoming c cl' = incoming c cl \<and> bl_open cl' = bl_open cl"
  by (auto simp: sending_def incoming_def bl_open_def)

lemma sending_write: "conn_write b cl = (r, cl') \<Longrightarrow> sending cl cl'"
  by (auto simp: conn_write_def sending_def split: if_splits option.splits nat.splits)

lemma sending_hook: "sending cl (hook d b cl)"
  by (simp add: sending_def hook_def)

lemma sending_frames: "send_frames fs cl = (r, cl') \<Longrightarrow> sending cl cl'"
proof (induction fs arbitrary: cl)
  case (Cons f fs)
  obtain r1 cl1 where w: "conn_write f (hook ''tx'' f cl) = (r1, cl1)" by fastforce
  have s: "sending cl cl1" using sending_trans [OF sending_hook sending_write [OF w]] .
  show ?case
  proof (cases r1)
    case None
    with Cons.prems w have "send_frames fs cl1 = (r, cl')" by simp
    from sending_trans [OF s Cons.IH [OF this]] show ?thesis .
  next
    case (Some e)
    with Cons.prems w s show ?thesis by simp
  qed
qed simp

lemma sending_Send: "bl_Send c f cl = (r, cl') \<Longrightarrow> sending cl cl'"
  by (auto simp: bl_Send_def split: option.splits dest: sending_frames)

lemma sending_setErr: "sending cl (bl_setErr e cl)"
  by (simp add: sending_def bl_setErr_def)

lemma sending_tick: "sending cl (keepalive_tick c cl)"
proof -
  have k: "sending a b \<Longrightarrow> sending a (b\<lparr>bl_keepalives := n\<rparr>)"
    "sending a b \<Longrightarrow> sending a (b\<lparr>bl_lastRTT := t\<rparr>)" for a b n t
    by (simp_all add: sending_def)
  have e: "bl_Send c p cl = (Some e, cl1) \<Longrightarrow> sending cl (bl_setErr e cl1)" for e p cl1
    using sending_trans [OF sending_Send sending_setErr] by blast
  then show ?thesis
    by (auto simp: keepalive_tick_def touchRTT_def split: sum.splits prod.splits option.splits
        intro!: k dest: sending_Send e)
qed

text \<open>Whatever runs in the background, no message is lost, duplicated or reordered.\<close>

lemma incoming_reader:
  assumes "bl_open cl"
  shows "incoming c (reader_step c d cl) = incoming c cl \<and> bl_open (reader_step c d cl)"
proof (cases "bl_ended cl")
  case True
  with assms show ?thesis by (simp add: reader_step_def)
next
  case run: False
  have o: "\<not> bl_done cl" "\<not> bl_closed cl" using assms by (auto simp: bl_open_def)
  show ?thesis
  proof (cases "bl_pending cl")
    case (Cons m ms)
    with run o show ?thesis by (auto simp: reader_step_def incoming_def bl_open_def touchRTT_def)
  next
    case Nil
    show ?thesis
    proof (cases "bl_failed cl")
      case (Some e)
      with run o Nil show ?thesis by (auto simp: reader_step_def incoming_def bl_open_def bl_setErr_def)
    next
      case None
      with run o Nil show ?thesis
        by (auto simp: reader_step_def incoming_def bl_open_def hook_def Let_def split: list.split prod.split)
    qed
  qed
qed

lemma incoming_background:
  assumes "bl_open cl"
  shows "incoming c (background c ev cl) = incoming c cl \<and> bl_open (background c ev cl)"
proof (cases ev)
  case (Ev_Reader d)
  with incoming_reader [OF assms] show ?thesis by simp
next
  case Ev_Ticker
  with sending_incoming [OF sending_tick] assms show ?thesis by simp
next
  case Ev_TickerStop
  with assms show ?thesis by (simp add: keepalive_stop_def incoming_def bl_open_def)
next
  case (Ev_Time t)
  with assms show ?thesis by (simp add: incoming_def bl_open_def)
next
  case (Ev_Ctx e)
  with assms show ?thesis by (simp add: incoming_def bl_open_def)
qed (use assms in simp_all)

lemma ctx_reader: "bl_ctx (reader_step c d cl) = bl_ctx cl"
  by (simp add: reader_step_def touchRTT_def bl_setErr_def hook_def Let_def split: list.split option.split prod.split)

lemma ctx_background: "bl_ctx (background c ev cl) = None \<Longrightarrow> bl_ctx cl = None"
  using sending_tick [of cl c]
  by (cases ev) (auto simp: ctx_reader keepalive_stop_def sending_def split: if_splits)

lemma incoming_receive:
  "bl_msgs cl = m # ms \<Longrightarrow> incoming c cl = m # incoming c (cl\<lparr>bl_msgs := ms\<rparr>)"
  by (simp add: incoming_def)

lemma incoming_ended: "bl_msgs cl = [] \<Longrightarrow> bl_ended cl \<Longrightarrow> incoming c cl = []"
  by (simp add: incoming_def)

lemma incoming_sched [simp]: "incoming c (cl\<lparr>bl_sched := evs\<rparr>) = incoming c cl"
  by (simp add: incoming_def)

lemma open_sched [simp]: "bl_open (cl\<lparr>bl_sched := evs\<rparr>) = bl_open cl" "bl_open (cl\<lparr>bl_msgs := ms\<rparr>) = bl_open cl"
  by (simp_all add: bl_open_def)

text \<open>
  \<open>wait\<close> takes messages from the front of what is coming until the first that is accepted; it
  fails only when the context has ended, or when nothing that was coming is accepted.
\<close>

definition wait_result ::
  "bey_codec \<Rightarrow> (bey_message \<Rightarrow> bool) \<Rightarrow> bey_client \<Rightarrow> bey_message res option \<Rightarrow> bey_client \<Rightarrow> bool" where
  "wait_result c pred cl r cl' \<longleftrightarrow>
     bl_open cl' \<and>
     (\<exists>pre. list_all (\<lambda>x. \<not> pred x) pre \<and>
        (case r of
           None \<Rightarrow> incoming c cl = pre @ incoming c cl'
         | Some (Inr m) \<Rightarrow> pred m \<and> incoming c cl = pre @ m # incoming c cl'
         | Some (Inl err) \<Rightarrow> incoming c cl = pre @ incoming c cl' \<and>
             (bl_ctx cl' = Some err \<or> incoming c cl' = [])))"

lemma wait_result_cong:
  "wait_result c pred cl1 r cl' \<Longrightarrow> incoming c cl1 = incoming c cl \<Longrightarrow> wait_result c pred cl r cl'"
  unfolding wait_result_def by (simp only:)

lemma wait_result_skip:
  assumes "wait_result c pred cl1 r cl'" "incoming c cl = m # incoming c cl1" "\<not> pred m"
  shows "wait_result c pred cl r cl'"
proof -
  from assms(1) obtain pre where "list_all (\<lambda>x. \<not> pred x) pre"
    "(case r of
           None \<Rightarrow> incoming c cl1 = pre @ incoming c cl'
         | Some (Inr m) \<Rightarrow> pred m \<and> incoming c cl1 = pre @ m # incoming c cl'
         | Some (Inl err) \<Rightarrow> incoming c cl1 = pre @ incoming c cl' \<and>
             (bl_ctx cl' = Some err \<or> incoming c cl' = []))" "bl_open cl'"
    by (auto simp: wait_result_def)
  with assms(2,3) show ?thesis
    unfolding wait_result_def
    by (intro conjI exI [of _ "m # pre"]) (auto split: option.split sum.split)
qed

lemma wait_background:
  assumes "\<And>r cl'. bl_open (background c ev cl) \<Longrightarrow> wait_loop c pred evs (background c ev cl) = (r, cl') \<Longrightarrow>
      wait_result c pred (background c ev cl) r cl'"
    and "bl_open cl" "wait_loop c pred evs (background c ev cl) = (r, cl')"
  shows "wait_result c pred cl r cl'"
proof -
  note i = incoming_background [OF assms(2), of c ev]
  from assms(1) [OF conjunct2 [OF i] assms(3)] conjunct1 [OF i] show ?thesis by (rule wait_result_cong)
qed

lemma wait_loop_result:
  "bl_open cl \<Longrightarrow> wait_loop c pred evs cl = (r, cl') \<Longrightarrow> wait_result c pred cl r cl'"
proof (induction c pred evs cl arbitrary: r cl' rule: wait_loop.induct)
  case (1 c pred cl)
  then show ?case by (auto simp: wait_result_def intro!: exI [of _ "[]"])
next
  case (2 c pred evs cl)
  then show ?case
    by (cases "bl_ctx cl") (auto simp: wait_result_def intro!: exI [of _ "[]"])
next
  case (3 c pred evs cl)
  show ?case
  proof (cases "bl_msgs cl")
    case Nil
    with 3 show ?thesis
      by (auto simp: wait_result_def incoming_ended intro!: exI [of _ "[]"] split: if_splits)
  next
    case (Cons m ms)
    note i = incoming_receive [OF Cons, of c]
    show ?thesis
    proof (cases "pred m")
      case True
      with 3(3,4) Cons have "r = Some (Inr m)" "cl' = cl\<lparr>bl_msgs := ms, bl_sched := evs\<rparr>" by auto
      with True i 3(3) show ?thesis by (auto simp: wait_result_def intro!: exI [of _ "[]"])
    next
      case False
      with 3(3,4) Cons 3(2) [OF Cons refl] have "wait_result c pred (cl\<lparr>bl_msgs := ms\<rparr>) r cl'" by auto
      from wait_result_skip [OF this i False] show ?thesis .
    qed
  qed
qed (rule wait_background, assumption, assumption, simp)+

lemma wait_spec:
  "bl_open cl \<Longrightarrow> wait c pred cl = (r, cl') \<Longrightarrow> wait_result c pred cl r cl'"
  using wait_loop_result [of "cl\<lparr>bl_sched := []\<rparr>"] wait_result_cong [of c pred "cl\<lparr>bl_sched := []\<rparr>" r cl' cl]
  by (simp add: wait_def)

text \<open>
  How much is left to do before the channel is empty for good: taking out what is in it, and, as
  long as the reader runs, ending it, its reads, and delivering and taking out what it holds
  or will read. A step of the reader does some of this, unless it is stuck: its channel is
  full, or nothing is coming any more.
\<close>

definition work :: "bey_codec \<Rightarrow> bey_client \<Rightarrow> nat" where
  "work c cl = length (bl_msgs cl) +
     (if bl_ended cl then 0
      else 1 + length (bl_reads cl) + 2 * (length (bl_pending cl) +
        (if bl_failed cl = None then length (arriving c (bl_reads cl) (bl_reasm cl)) else 0)))"

lemma reader_works:
  assumes "bl_open cl"
  shows "work c (reader_step c d cl) < work c cl \<or>
    work c (reader_step c d cl) = work c cl \<and> bl_msgs (reader_step c d cl) = bl_msgs cl \<and>
    (bl_msgs cl = [] \<longrightarrow> incoming c (reader_step c d cl) = [])"
proof (cases "bl_ended cl")
  case True
  then show ?thesis by (simp add: reader_step_def incoming_def)
next
  case run: False
  have o: "\<not> bl_closed cl" "\<not> bl_done cl" using assms by (auto simp: bl_open_def)
  show ?thesis
  proof (cases "bl_pending cl")
    case (Cons m ms)
    with run o show ?thesis by (auto simp: reader_step_def touchRTT_def work_def msgs_cap_def)
  next
    case Nil
    show ?thesis
    proof (cases "bl_failed cl")
      case (Some e)
      with run Nil show ?thesis by (simp add: reader_step_def work_def bl_setErr_def)
    next
      case None
      show ?thesis
      proof (cases "bl_reads cl")
        case (Cons ce rs)
        with run o Nil None show ?thesis
          by (cases ce) (auto simp: reader_step_def work_def hook_def Let_def split: prod.split)
      qed (use run o Nil None in \<open>simp add: reader_step_def incoming_def\<close>)
    qed
  qed
qed

text \<open>
  The rounds of a schedule: disjoint stretches in which the reader has a step and the waiting
  operation then tries to receive, whatever else happens before, between and after. The flag
  says that the reader had its step.
\<close>

fun rounds :: "bool \<Rightarrow> event list \<Rightarrow> nat" where
  "rounds b [] = 0"
| "rounds b (Ev_Reader d # evs) = rounds True evs"
| "rounds b (Ev_Receive # evs) = (if b then 1 else 0) + rounds False evs"
| "rounds b (ev # evs) = rounds b evs"

lemma sending_work: "sending cl cl' \<Longrightarrow> work c cl' = work c cl"
  by (simp add: sending_def work_def)

lemma work_positive: "x \<in> set (incoming c cl) \<Longrightarrow> 0 < work c cl"
  by (auto simp: incoming_def work_def split: if_splits)

lemma work_sched: "work c (cl\<lparr>bl_sched := evs\<rparr>) = work c cl"
  by (simp add: work_def)

text \<open>What is not the reader's leaves its work, the channel and the running context alone.\<close>

lemma background_rest:
  assumes "\<nexists>d. ev = Ev_Reader d" "\<nexists>err. ev = Ev_Ctx err" "bl_ctx cl = None"
  shows "work c (background c ev cl) = work c cl" "bl_msgs (background c ev cl) = bl_msgs cl"
    "bl_ctx (background c ev cl) = None"
  using assms sending_tick [of cl c]
  by (cases ev; simp add: sending_work sending_def keepalive_stop_def work_def; fail)+

text \<open>\<open>owed\<close>: the rounds that are needed, one more if the round that has begun will find nothing.\<close>

definition owed :: "bey_codec \<Rightarrow> bool \<Rightarrow> bey_client \<Rightarrow> nat" where
  "owed c b cl = work c cl + (if b \<and> bl_msgs cl = [] then 1 else 0)"

lemma owed_reader:
  assumes "bl_open cl" "\<exists>x \<in> set (incoming c cl). pred x"
  shows "owed c True (reader_step c d cl) \<le> owed c b cl"
proof -
  have "incoming c (reader_step c d cl) \<noteq> []" using incoming_reader [OF assms(1), of c d] assms(2) by auto
  with reader_works [OF assms(1), of c d] show ?thesis by (auto simp: owed_def)
qed

lemma wait_loop_fair:
  assumes "bl_open cl" "bl_ctx cl = None" "\<exists>x \<in> set (incoming c cl). pred x"
    and "\<forall>err. Ev_Ctx err \<notin> set evs" "owed c b cl \<le> rounds b evs"
  shows "\<exists>m cl'. wait_loop c pred evs cl = (Some (Inr m), cl')"
  using assms
proof (induction b evs arbitrary: cl rule: rounds.induct [case_names Done Reader Receive Ticker Stop Clock Ctx Over])
  case (Done b)
  then show ?case using work_positive by (fastforce simp: owed_def)
next
  case (Reader b d evs)
  have "owed c True (reader_step c d cl) \<le> owed c b cl" by (rule owed_reader [OF Reader(2,4)])
  with Reader incoming_reader [OF Reader(2), of c d] show ?case by (simp add: ctx_reader)
next
  case (Receive b evs)
  show ?case
  proof (cases "bl_msgs cl")
    case Nil
    have "\<not> bl_ended cl" using incoming_ended [OF Nil, of c] Receive(4) by auto
    moreover have "owed c False cl \<le> rounds False evs" using Receive(6) Nil by (simp add: owed_def split: if_splits)
    ultimately show ?thesis using Receive Nil by simp
  next
    case (Cons m ms)
    have w: "work c cl = Suc (work c (cl\<lparr>bl_msgs := ms\<rparr>))" using Cons by (simp add: work_def)
    show ?thesis
    proof (cases "pred m")
      case False
      with incoming_receive [OF Cons, of c] Receive(4) have "\<exists>x \<in> set (incoming c (cl\<lparr>bl_msgs := ms\<rparr>)). pred x" by auto
      moreover have "owed c False (cl\<lparr>bl_msgs := ms\<rparr>) \<le> rounds False evs"
        using Receive(6) Cons w by (simp add: owed_def split: if_splits)
      ultimately show ?thesis using Receive Cons False by simp
    qed (use Cons in simp)
  qed
next
  case (Ticker b evs)
  note r = background_rest [of Ev_Ticker cl c, OF _ _ Ticker(3), simplified]
  from Ticker r incoming_background [OF Ticker(2), of c Ev_Ticker] show ?case by (simp add: owed_def)
next
  case (Stop b evs)
  note r = background_rest [of Ev_TickerStop cl c, OF _ _ Stop(3), simplified]
  from Stop r incoming_background [OF Stop(2), of c Ev_TickerStop] show ?case by (simp add: owed_def)
next
  case (Clock b t evs)
  note r = background_rest [of "Ev_Time t" cl c, OF _ _ Clock(3), simplified]
  from Clock r incoming_background [OF Clock(2), of c "Ev_Time t"] show ?case by (simp add: owed_def)
next
  case (Ctx b e evs)
  then show ?case by auto
next
  case (Over b evs)
  then show ?case by (simp add: owed_def)
qed

definition turns :: "nat \<Rightarrow> event list" where
  "turns n = concat (replicate n [Ev_Reader False, Ev_Receive])"

lemma turns_simps [simp]: "turns 0 = []" "turns (Suc n) = Ev_Reader False # Ev_Receive # turns n"
  by (simp_all add: turns_def)

text \<open>What sending and waiting do to the client as a whole.\<close>

lemma Send_incoming: "bl_Send c f cl = (r, cl') \<Longrightarrow> incoming c cl' = incoming c cl \<and> bl_open cl' = bl_open cl"
  using sending_incoming [OF sending_Send] .

lemma wait_found:
  assumes "bl_open cl" "wait c pred cl = (Some (Inr m), cl')"
  shows "\<exists>pre. incoming c cl = pre @ m # incoming c cl' \<and> list_all (\<lambda>x. \<not> pred x) pre \<and> pred m \<and> bl_open cl'"
  using wait_spec [OF assms] by (auto simp: wait_result_def)

lemma Hello_incoming:
  "incoming c (cl\<lparr>bl_level := l, bl_caps := ca, bl_name := n\<rparr>) = incoming c cl"
  "incoming c (StartKeepalive cl) = incoming c cl" "incoming c (touchRTT cl) = incoming c cl"
  by (simp_all add: incoming_def StartKeepalive_def touchRTT_def)

lemma Hello_Inr:
  assumes "bl_open cl" "Hello c name cl = (Some (Inr al), cl')"
  obtains pre m where "incoming c cl = pre @ m # incoming c cl'"
    "list_all (\<lambda>x. ms_AuthLevel x = None) pre" "ms_AuthLevel m = Some al" "bl_level cl' = al_Level al" "name \<noteq> []"
proof -
  obtain h where h: "EncodeHello c name = Inr h"
    using assms(2) by (auto simp: Hello_def split: sum.splits)
  then have n: "name \<noteq> []" by (auto simp: EncodeHello_def)
  obtain cl1 where s: "bl_Send c h cl = (None, cl1)"
    using assms(2) h by (auto simp: Hello_def split: prod.splits option.splits)
  obtain m cl2 where w: "wait c (\<lambda>m. not_nil (ms_AuthLevel m)) cl1 = (Some (Inr m), cl2)"
    using assms(2) h s by (auto simp: Hello_def split: prod.splits option.splits sum.splits)
  from assms(2) have r: "al = the (ms_AuthLevel m)" "incoming c cl' = incoming c cl2" "bl_level cl' = al_Level al"
    by (auto simp: Hello_def h s w Let_def Hello_incoming) (simp_all add: StartKeepalive_def touchRTT_def)
  from Send_incoming [OF s] assms(1) have "bl_open cl1" "incoming c cl1 = incoming c cl" by auto
  with wait_found [OF this(1) w] obtain pre where "incoming c cl = pre @ m # incoming c cl'"
    "list_all (\<lambda>x. ms_AuthLevel x = None) pre" "not_nil (ms_AuthLevel m)" using r(2) by (auto simp: not_nil_def)
  with r n show thesis by (intro that [of pre m]) (auto simp: not_nil_def)
qed

text \<open>
  What is written. Sending writes frames from the front, all of them if it succeeds; what else
  runs, while an operation waits, only ever writes the RTT probes of the keepalive.
\<close>

definition probe_write :: "bey_codec \<Rightarrow> byte list \<Rightarrow> bool" where
  "probe_write c b \<longleftrightarrow> (\<exists>t p. EncodeRTTProbe c t = Inr p \<and> b \<in> set (Frames c p))"

definition added :: "(byte list \<Rightarrow> bool) \<Rightarrow> bey_client \<Rightarrow> bey_client \<Rightarrow> bool" where
  "added P cl cl' \<longleftrightarrow> (\<exists>ws. bl_writes cl' = bl_writes cl @ ws \<and> list_all P ws)"

lemma added_refl [simp]: "added P cl cl"
  by (simp add: added_def)

lemma added_trans: "added P a b \<Longrightarrow> added P b c \<Longrightarrow> added P a c"
  by (auto simp: added_def)

lemma added_mono: "added P a b \<Longrightarrow> (\<And>w. P w \<Longrightarrow> Q w) \<Longrightarrow> added Q a b"
  by (auto simp: added_def list_all_iff)

lemma added_same: "bl_writes cl' = bl_writes cl \<Longrightarrow> added P cl cl'"
  by (simp add: added_def)

lemma send_frames_writes:
  "send_frames fs cl = (r, cl') \<Longrightarrow>
    \<exists>sent rest. fs = sent @ rest \<and> bl_writes cl' = bl_writes cl @ sent \<and> (r = None \<longrightarrow> rest = [])"
proof (induction fs arbitrary: cl)
  case (Cons f fs)
  obtain r1 cl1 where w: "conn_write f (hook ''tx'' f cl) = (r1, cl1)" by fastforce
  show ?case
  proof (cases r1)
    case None
    then have 1: "bl_writes cl1 = bl_writes cl @ [f]"
      using w by (auto simp: conn_write_def hook_def split: if_splits option.splits nat.splits)
    from Cons.prems w None have "send_frames fs cl1 = (r, cl')" by simp
    from Cons.IH [OF this] obtain sent rest where "fs = sent @ rest" "bl_writes cl' = bl_writes cl1 @ sent"
      "r = None \<longrightarrow> rest = []" by blast
    with 1 show ?thesis by (intro exI [of _ "f # sent"] exI [of _ rest]) simp
  next
    case (Some e)
    then have "bl_writes cl1 = bl_writes cl"
      using w by (auto simp: conn_write_def hook_def split: if_splits option.splits nat.splits)
    with Cons.prems w Some show ?thesis by auto
  qed
qed simp

lemma Send_writes:
  assumes "bl_Send c f cl = (r, cl')"
  obtains sent rest where "Frames c f = sent @ rest" "bl_writes cl' = bl_writes cl @ sent" "r = None \<longrightarrow> rest = []"
proof (cases "bl_ctx cl")
  case None
  with assms that show thesis by (auto simp: bl_Send_def dest!: send_frames_writes)
next
  case (Some e)
  with assms have "r = Some e" "cl' = cl" by (auto simp: bl_Send_def)
  with that [of "[]" "Frames c f"] show thesis by simp
qed

lemma Send_wrote: "bl_Send c f cl = (None, cl') \<Longrightarrow> bl_writes cl' = bl_writes cl @ Frames c f"
  by (erule Send_writes) simp

lemma Send_added: "bl_Send c f cl = (r, cl') \<Longrightarrow> added (\<lambda>b. b \<in> set (Frames c f)) cl cl'"
  by (erule Send_writes) (auto simp: added_def list_all_iff)

lemma added_tick: "added (probe_write c) cl (keepalive_tick c cl)"
proof -
  have "added (probe_write c) cl cl'" if "bl_Send c p cl = (r, cl')" "EncodeRTTProbe c t = Inr p" for p r cl' t
    by (rule added_mono [OF Send_added [OF that(1)]]) (use that(2) in \<open>auto simp: probe_write_def\<close>)
  then show ?thesis
    by (auto simp: keepalive_tick_def Let_def bl_setErr_def touchRTT_def added_def
        split: sum.split prod.split option.split)
qed

lemma writes_reader: "bl_writes (reader_step c d cl) = bl_writes cl"
  by (simp add: reader_step_def touchRTT_def bl_setErr_def hook_def Let_def split: list.split option.split prod.split)

lemma added_background: "added (probe_write c) cl (background c ev cl)"
  using added_tick by (cases ev) (auto simp: added_def writes_reader keepalive_stop_def)

lemma added_wait_loop: "wait_loop c pred evs cl = (r, cl') \<Longrightarrow> added (probe_write c) cl cl'"
proof (induction c pred evs cl rule: wait_loop.induct)
  case (3 c pred evs cl)
  have m: "added P (cl\<lparr>bl_msgs := ms\<rparr>) x = added P cl x" for P ms x by (simp add: added_def)
  from 3 show ?case by (auto simp: m Let_def added_def split: list.splits if_splits)
qed (auto simp: added_def split: option.splits intro: added_trans [OF added_background, unfolded added_def]
    simp del: background.simps)

lemma added_wait: "wait c pred cl = (r, cl') \<Longrightarrow> added (probe_write c) cl cl'"
  by (auto simp: wait_def added_def dest: added_wait_loop)

text \<open>What a greeting writes: the frames of the hello, and probes.\<close>

definition greeting_write :: "bey_codec \<Rightarrow> string \<Rightarrow> byte list \<Rightarrow> bool" where
  "greeting_write c name b \<longleftrightarrow> (\<exists>h. EncodeHello c name = Inr h \<and> b \<in> set (Frames c h)) \<or> probe_write c b"

lemma Hello_added: "Hello c name cl = (r, cl') \<Longrightarrow> added (greeting_write c name) cl cl'"
proof (cases "EncodeHello c name")
  case (Inr h)
  assume "Hello c name cl = (r, cl')"
  obtain r1 cl1 where s: "bl_Send c h cl = (r1, cl1)" by fastforce
  obtain r2 cl2 where w: "wait c (\<lambda>m. not_nil (ms_AuthLevel m)) cl1 = (r2, cl2)" by fastforce
  have 1: "added (greeting_write c name) cl cl1"
    using added_mono [OF Send_added [OF s]] Inr by (simp add: greeting_write_def)
  have 2: "added (greeting_write c name) cl1 cl2"
    using added_mono [OF added_wait [OF w]] by (simp add: greeting_write_def)
  have same: "bl_writes cl' = bl_writes cl1 \<or> bl_writes cl' = bl_writes cl2"
    using \<open>Hello c name cl = (r, cl')\<close>
    by (auto simp: Hello_def Inr s w Let_def StartKeepalive_def touchRTT_def
        split: option.splits sum.splits if_splits)
  then show ?thesis
    using 1 added_trans [OF 1 2] by (auto simp: added_def)
qed (auto simp: Hello_def)

section \<open>Properties\<close>

text \<open>A codec and a conversation for the witnesses.\<close>

definition on_service :: "int32 \<Rightarrow> byte list \<Rightarrow> base_message" where
  "on_service svc p = zero_base\<lparr>bm_ServiceId := svc, bm_Payload := p\<rparr>"

definition demo_codec :: bey_codec where
  "demo_codec = (test_codec
     [(on_service 1 [7], [8]), (on_service 10 [1], [10]), (on_service 10 [3], [11]),
      (on_service 10 [4], [12]), (on_service 10 [5], [13]), (on_service 10 [6], [14])]
     [(hello_handshake, [7])])
     \<lparr>bc_auth := table_codec [(\<lparr>ap_Command = 1000, ap_Object = [2]\<rparr>, [1]), (\<lparr>ap_Command = 1101, ap_Object = []\<rparr>, [3]),
        (\<lparr>ap_Command = 1103, ap_Object = []\<rparr>, [4]), (\<lparr>ap_Command = 1105, ap_Object = [9]\<rparr>, [5]),
        (\<lparr>ap_Command = 2101, ap_Object = [20]\<rparr>, [6])],
      bc_level := table_codec [(\<lparr>al_Level = 1, al_DeviceName = ''tv'', al_Capability = 1024\<rparr>, [2])],
      bc_pin := table_codec [(\<lparr>pin_PinCode = ''1234'', pin_DeviceId = ''dev''\<rparr>, [9])],
      bc_result := table_codec [(\<lparr>br_ResultType = 1, br_ResultString = [], br_PrivateKey = [1], br_Certificate = [2]\<rparr>, [20])]\<rparr>"

definition demo_client :: "(byte list \<times> goerr option) list \<Rightarrow> event list \<Rightarrow> bey_client" where
  "demo_client reads sched =
     projr (bey_Dial \<lparr>bn_Dial = (\<lambda>_ _. Inr (reads, None, sched)), bn_now = 0, bn_ctx = None\<rparr> ''tv:8987'' None)"

lemma demo_open: "bl_open (demo_client reads sched)"
  by (simp add: demo_client_def bey_Dial_def bl_open_def)

text \<open>
  C9: Whatever the interleaving of the reader, the keepalive, the clock and the waiting
  operation, \<open>wait\<close> sees the messages in the order in which they arrive and none is lost: it
  returns the first one that is accepted, having taken exactly the ones before it. It fails
  only when the context has ended, with the context's error, or when nothing is coming any
  more, none of what came being accepted.
\<close>

theorem wait_in_order:
  assumes "bl_open cl" and "wait c pred cl = (r, cl')"
  shows "\<exists>taken. list_all (\<lambda>x. \<not> pred x) taken \<and>
    (case r of
       None \<Rightarrow> incoming c cl = taken @ incoming c cl'
     | Some (Inr m) \<Rightarrow> pred m \<and> incoming c cl = taken @ m # incoming c cl'
     | Some (Inl err) \<Rightarrow> incoming c cl = taken @ incoming c cl' \<and>
         (bl_ctx cl' = Some err \<or> incoming c cl' = []))"
  using wait_spec [OF assms] unfolding wait_result_def by (elim conjE)

theorem wait_in_order_witness:
  "\<exists>m. fst (wait demo_codec ms_PinChallenge
       (demo_client [([10], None), ([12], None)] [Ev_Reader False, Ev_Reader False, Ev_Receive, Ev_Time 5,
          Ev_Reader False, Ev_Reader False, Ev_Receive])) = Some (Inr m) \<and> ms_PinChallenge m"
proof -
  let ?cl = "demo_client [([10], None), ([12], None)] [Ev_Reader False, Ev_Reader False, Ev_Receive, Ev_Time 5,
          Ev_Reader False, Ev_Reader False, Ev_Receive]"
  have "\<exists>m. fst (wait demo_codec ms_PinChallenge ?cl) = Some (Inr m)" by (rule exI) code_simp
  then obtain m cl' where w: "wait demo_codec ms_PinChallenge ?cl = (Some (Inr m), cl')"
    by (metis prod.collapse)
  from wait_in_order [OF demo_open w] have "ms_PinChallenge m" by auto
  with w show ?thesis by simp
qed

text \<open>
  C24: Waiting ends, under every fair schedule. If a message that is accepted is coming, then
  every schedule in which the context does not end and the reader and the waiting operation
  get \<open>work\<close> rounds or more lets \<open>wait\<close> return the first such message, whatever the keepalive
  and the clock do between: neither a full channel nor the messages before it can block it.
\<close>

theorem wait_returns:
  assumes "bl_open cl" and "bl_ctx cl = None" and "\<exists>x \<in> set (incoming c cl). pred x"
    and "\<forall>err. Ev_Ctx err \<notin> set evs" and "work c cl \<le> rounds False evs"
  shows "\<exists>pre m cl'. wait c pred (cl\<lparr>bl_sched := evs\<rparr>) = (Some (Inr m), cl') \<and> pred m \<and>
    list_all (\<lambda>x. \<not> pred x) pre \<and> incoming c cl = pre @ m # incoming c cl'"
proof -
  let ?cl = "cl\<lparr>bl_sched := []\<rparr>"
  have "owed c False ?cl \<le> rounds False evs" using assms(5) unfolding owed_def by (simp add: work_sched)
  with wait_loop_fair [of ?cl c pred evs False] assms obtain m cl' where
    "wait_loop c pred evs ?cl = (Some (Inr m), cl')" by auto
  then have w: "wait c pred (cl\<lparr>bl_sched := evs\<rparr>) = (Some (Inr m), cl')" by (simp add: wait_def)
  from wait_found [OF _ this] assms(1) w show ?thesis by auto
qed

theorem wait_returns_witness:
  "\<exists>m cl'. wait demo_codec ms_PinChallenge ((demo_client [([10], None), ([12], None)] [])
       \<lparr>bl_sched := turns 4 @ [Ev_Ticker, Ev_Time 9, Ev_Done] @ turns 3\<rparr>) = (Some (Inr m), cl') \<and> ms_PinChallenge m"
proof -
  let ?cl = "demo_client [([10], None), ([12], None)] []"
  have "list_ex ms_PinChallenge (incoming demo_codec ?cl)" by code_simp
  then have "\<exists>x \<in> set (incoming demo_codec ?cl). ms_PinChallenge x" by (simp add: list_ex_iff)
  moreover have "work demo_codec ?cl = 7" "rounds False (turns 4 @ [Ev_Ticker, Ev_Time 9, Ev_Done] @ turns 3) = 7"
    by code_simp+
  moreover have "bl_ctx ?cl = None" by (simp add: demo_client_def bey_Dial_def)
  moreover have "\<forall>err. Ev_Ctx err \<notin> set (turns 4 @ [Ev_Ticker, Ev_Time 9, Ev_Done] @ turns 3)" by (simp add: turns_def)
  ultimately show ?thesis using wait_returns [OF demo_open] by (metis order_refl)
qed

text \<open>
  A session has the authorization that the server granted: the level after \<open>Hello\<close> is the
  one of the first authorization message that came. Unless it is \<open>VIRTUAL_INPUT\<close>, input and
  launches are refused, with \<open>ErrNotPaired\<close> and without anything being sent.
\<close>

theorem Hello_authorizes:
  assumes "bl_open cl" and "Hello c name cl = (Some (Inr al), cl')"
  shows "(\<exists>pre m. incoming c cl = pre @ m # incoming c cl' \<and> list_all (\<lambda>x. ms_AuthLevel x = None) pre \<and>
      ms_AuthLevel m = Some al) \<and>
    bl_level cl' = al_Level al \<and>
    (al_Level al \<noteq> 1000 \<longrightarrow> SendSpecialInput c v cl' = (Some ErrNotPaired, cl') \<and>
       LaunchApp c pkg cl' = (Some (Some ErrNotPaired), cl'))"
proof -
  obtain pre m where m: "incoming c cl = pre @ m # incoming c cl'" "list_all (\<lambda>x. ms_AuthLevel x = None) pre"
    "ms_AuthLevel m = Some al" and l: "bl_level cl' = al_Level al"
    using Hello_Inr [OF assms] by metis
  have "al_Level al \<noteq> 1000 \<longrightarrow> SendSpecialInput c v cl' = (Some ErrNotPaired, cl') \<and>
       LaunchApp c pkg cl' = (Some (Some ErrNotPaired), cl')"
    by (simp add: SendSpecialInput_def LaunchApp_def LevelVirtualInput_def LEVEL_VIRTUAL_INPUT_def l)
  with m l show ?thesis by blast
qed

theorem Hello_authorizes_witness:
  "\<exists>al cl'. Hello demo_codec ''shrmt'' (demo_client [([10], None)] (turns 2)) = (Some (Inr al), cl') \<and>
     al_Level al = 1 \<and> SendSpecialInput demo_codec ACTION_SLEEP_NOW cl' = (Some ErrNotPaired, cl')"
proof -
  let ?cl = "demo_client [([10], None)] (turns 2)"
  have "fst (Hello demo_codec ''shrmt'' ?cl) =
      Some (Inr \<lparr>al_Level = 1, al_DeviceName = ''tv'', al_Capability = 1024\<rparr>)" by code_simp
  then obtain cl' where h: "Hello demo_codec ''shrmt'' ?cl =
      (Some (Inr \<lparr>al_Level = 1, al_DeviceName = ''tv'', al_Capability = 1024\<rparr>), cl')" by (metis prod.collapse)
  from Hello_authorizes [OF demo_open h] h show ?thesis by simp
qed

lemma Pair_Inr:
  assumes "bl_open cl" and "bl_Pair c k prompt deviceID cl = (Some (Inr t), cl')"
  shows "\<exists>pin pre challenge between m pr req code mid k1 k2.
    EncodePinRequest c = Inr req \<and> incoming c cl = pre @ challenge # incoming c mid \<and>
    bl_writes mid = bl_writes cl @ Frames c req @ k1 \<and>
    ms_PinChallenge challenge \<and> list_all (\<lambda>x. \<not> ms_PinChallenge x) pre \<and>
    fst prompt = Inr pin \<and> EncodePinCode c pin deviceID = Inr code \<and>
    incoming c mid = between @ m # incoming c cl' \<and> bl_writes cl' = bl_writes mid @ Frames c code @ k2 \<and>
    list_all (probe_write c) (k1 @ k2) \<and>
    ms_PairingResult m = Some pr \<and> list_all (\<lambda>x. ms_PairingResult x = None) between \<and>
    br_ResultType pr = 1 \<and> br_PrivateKey pr \<noteq> [] \<and> br_Certificate pr \<noteq> [] \<and>
    ParseCredentials k (string_of (br_Certificate pr)) (string_of (br_PrivateKey pr)) = Inr t"
proof -
  obtain req where req: "EncodePinRequest c = Inr req"
    using assms(2) by (cases "EncodePinRequest c") (auto simp: bl_Pair_def)
  obtain cl1 where s1: "bl_Send c req cl = (None, cl1)"
    using assms(2) req by (auto simp: bl_Pair_def split: prod.splits option.splits)
  obtain ch cl2 where w1: "wait c ms_PinChallenge cl1 = (Some (Inr ch), cl2)"
    using assms(2) req s1 by (auto simp: bl_Pair_def split: prod.splits option.splits sum.splits)
  let ?cl3 = "after_prompt (snd prompt) cl2"
  obtain pin where pin: "fst prompt = Inr pin"
    using assms(2) req s1 w1 by (cases "fst prompt") (auto simp: bl_Pair_def Let_def)
  obtain code where code: "EncodePinCode c pin deviceID = Inr code"
    using assms(2) req s1 w1 pin by (cases "EncodePinCode c pin deviceID") (auto simp: bl_Pair_def Let_def)
  obtain cl4 where s2: "bl_Send c code ?cl3 = (None, cl4)"
    using assms(2) req s1 w1 pin code by (auto simp: bl_Pair_def Let_def split: prod.splits option.splits)
  obtain m cl5 where w2: "wait c (\<lambda>m. not_nil (ms_PairingResult m)) cl4 = (Some (Inr m), cl5)"
    using assms(2) req s1 w1 pin code s2
    by (auto simp: bl_Pair_def Let_def split: prod.splits option.splits sum.splits)
  have fin: "cl' = cl5" "pairing_outcome k (the (ms_PairingResult m)) = Inr t"
    using assms(2) by (simp_all add: bl_Pair_def Let_def req s1 w1 pin code s2 w2)
  from Send_incoming [OF s1] assms(1) have o1: "bl_open cl1" "incoming c cl1 = incoming c cl" by auto
  from wait_found [OF o1(1) w1] obtain pre where
    1: "incoming c cl = pre @ ch # incoming c cl2" "list_all (\<lambda>x. \<not> ms_PinChallenge x) pre" "ms_PinChallenge ch" "bl_open cl2"
    using o1(2) by metis
  have o3: "bl_open ?cl3" "incoming c ?cl3 = incoming c cl2"
    using 1(4) by (simp_all add: after_prompt_def bl_open_def incoming_def)
  from Send_incoming [OF s2] o3 have o4: "bl_open cl4" "incoming c cl4 = incoming c cl2" by auto
  from wait_found [OF o4(1) w2] obtain pre2 where
    2: "incoming c cl2 = pre2 @ m # incoming c cl'" "list_all (\<lambda>x. ms_PairingResult x = None) pre2"
      "ms_PairingResult m \<noteq> None"
    using o4(2) fin(1) by (auto simp: not_nil_def)
  then obtain pr where pr: "ms_PairingResult m = Some pr" by auto
  with fin(2) have ok: "br_ResultType pr = 1" "br_PrivateKey pr \<noteq> []" "br_Certificate pr \<noteq> []"
    "ParseCredentials k (string_of (br_Certificate pr)) (string_of (br_PrivateKey pr)) = Inr t"
    by (auto simp: pairing_outcome_def RESULT_SUCCESS_def split: if_splits)
  obtain k1 where k1: "bl_writes cl2 = bl_writes cl @ Frames c req @ k1" "list_all (probe_write c) k1"
    using added_wait [OF w1] Send_wrote [OF s1] unfolding added_def by auto
  have "bl_writes ?cl3 = bl_writes cl2" by (simp add: after_prompt_def)
  then obtain k2 where k2: "bl_writes cl' = bl_writes cl2 @ Frames c code @ k2" "list_all (probe_write c) k2"
    using added_wait [OF w2] Send_wrote [OF s2] fin(1) unfolding added_def by auto
  have "list_all (probe_write c) (k1 @ k2)" using k1(2) k2(2) by simp
  note facts = req 1(1) k1(1) 1(3,2) pin code 2(1) k2(1) this pr 2(2) ok
  show ?thesis by (intro exI conjI) (rule facts)+
qed

text \<open>
  C17: \<open>Pair\<close> returns a certificate only when the whole exchange took place, in this order: the
  PIN request was written; a PIN challenge came, the first; the user gave the PIN; after that
  the PIN, for this device id, was written; and then a pairing result came, the first such
  message, that says success and carries a key and a certificate, of which the certificate
  returned is made. Nothing else is written but the probes of the keepalive.
\<close>

theorem Pair_sound:
  assumes "bl_open cl" and "bl_Pair c k prompt deviceID cl = (Some (Inr t), cl')"
  shows "\<exists>pin pre challenge between m pr req code mid k1 k2.
    EncodePinRequest c = Inr req \<and> incoming c cl = pre @ challenge # incoming c mid \<and>
    bl_writes mid = bl_writes cl @ Frames c req @ k1 \<and>
    ms_PinChallenge challenge \<and> list_all (\<lambda>x. \<not> ms_PinChallenge x) pre \<and>
    fst prompt = Inr pin \<and> EncodePinCode c pin deviceID = Inr code \<and>
    incoming c mid = between @ m # incoming c cl' \<and> bl_writes cl' = bl_writes mid @ Frames c code @ k2 \<and>
    list_all (probe_write c) (k1 @ k2) \<and>
    ms_PairingResult m = Some pr \<and> list_all (\<lambda>x. ms_PairingResult x = None) between \<and>
    br_ResultType pr = 1 \<and> br_PrivateKey pr \<noteq> [] \<and> br_Certificate pr \<noteq> [] \<and>
    ParseCredentials k (string_of (br_Certificate pr)) (string_of (br_PrivateKey pr)) = Inr t"
  using Pair_Inr [OF assms] .

theorem Pair_sound_witness:
  "\<exists>pr :: bey_pairing_result. br_ResultType pr = 1 \<and> ParseCredentials plain_crypto (string_of (br_Certificate pr)) (string_of (br_PrivateKey pr)) =
     Inr \<lparr>tc_Certificate = [string_of [2]], tc_PrivateKey = Some (string_of [1]), tc_Leaf = Some (string_of [2])\<rparr>"
proof -
  let ?cl = "demo_client [([12], None), ([14], None)] (turns 4)"
  have "fst (bl_Pair demo_codec plain_crypto (Inr ''1234'', None) ''dev'' ?cl) =
      Some (Inr \<lparr>tc_Certificate = [string_of [2]], tc_PrivateKey = Some (string_of [1]), tc_Leaf = Some (string_of [2])\<rparr>)"
    by code_simp
  then obtain cl' where p: "bl_Pair demo_codec plain_crypto (Inr ''1234'', None) ''dev'' ?cl =
      (Some (Inr \<lparr>tc_Certificate = [string_of [2]], tc_PrivateKey = Some (string_of [1]),
         tc_Leaf = Some (string_of [2])\<rparr>), cl')" by (metis prod.collapse)
  show ?thesis
    using Pair_sound [OF demo_open p] by blast
qed

end
