(* ===== verification/Power_Sender.thy ===== *)
theory Power_Sender
  imports Android_Tv Beyonder_Client
begin

text \<open>
  Package \<open>adapters/out/beyonder\<close>: the sender that routes the power action and the launch of
  apps through the beyonder protocol when its credentials are stored, and everything else to
  the sender it wraps. The client it connects lives for one operation, under a context with a
  deadline of \<open>stepBudget\<close>: every schedule ends with the end of that context.
\<close>

section \<open>Operations\<close>

definition beyonder_Port :: int where "beyonder_Port = 8987"
definition helloName :: string where "helloName = ''shrmt''"
definition stepBudget :: int where "stepBudget = 5 * 1000000000"
definition flushDelay :: int where "flushDelay = 300 * 1000000"

record 'w inner_sender =
  in_Send :: "'w send_fun"
  in_Warmup :: "'w warmup_fun"
  in_Launch :: "'w launch_fun"

text \<open>The network is asked at the times that the world of the sender counts.\<close>

record power_env =
  pe_codec :: bey_codec
  pe_crypto :: bey_crypto
  pe_net :: "nat \<Rightarrow> bey_net"

text \<open>\<open>context.WithTimeout\<close>: after what happens in time, the context ends and is noticed.\<close>

definition deadline :: "event list" where
  "deadline = [Ev_Ctx context_DeadlineExceeded, Ev_Done]"

definition WithTimeout :: "bey_net \<Rightarrow> bey_net" where
  "WithTimeout net = net\<lparr>bn_Dial := (\<lambda>addr cert.
     case bn_Dial net addr cert of
       Inl err \<Rightarrow> Inl err
     | Inr (reads, room, sched) \<Rightarrow> Inr (reads, room, sched @ deadline))\<rparr>"

text \<open>
  The operations keep what they leave of the connection: the client as it is when the operation
  returns, if one was dialled. One that does not return is None.
\<close>

definition bey_connect ::
  "bey_codec \<Rightarrow> bey_net \<Rightarrow> target \<Rightarrow> tls_certificate \<Rightarrow> (goerr \<times> bey_client option + bey_client) option" where
  "bey_connect c net t cert =
     (case bey_Dial net (JoinHostPort (t_Host t) (Itoa beyonder_Port)) (Some cert) of
        Inl err \<Rightarrow> Some (Inl (err, None))
      | Inr cl \<Rightarrow>
          (case Hello c helloName cl of
             (None, _) \<Rightarrow> None
           | (Some (Inl err), cl) \<Rightarrow> Some (Inl (err, Some (bl_Close cl)))
           | (Some (Inr _), cl) \<Rightarrow> Some (Inr cl)))"

definition not_paired :: "goerr \<Rightarrow> goerr" where
  "not_paired err =
     (if errors_is err ErrNotPaired then wrap_err ''%w: run beyonderprobe pair'' err else err)"

text \<open>The \<open>select\<close> on the context and a timer, while the goroutines of the client go on.\<close>

fun flush :: "bey_codec \<Rightarrow> int \<Rightarrow> event list \<Rightarrow> bey_client \<Rightarrow> bey_client option" where
  "flush c t [] cl = None"
| "flush c t (Ev_Done # evs) cl =
     (if bl_ctx cl \<noteq> None \<or> t \<le> bl_now cl then Some (cl\<lparr>bl_sched := evs\<rparr>) else flush c t evs cl)"
| "flush c t (ev # evs) cl = flush c t evs (background c ev cl)"

definition bey_sleep ::
  "bey_codec \<Rightarrow> bey_net \<Rightarrow> target \<Rightarrow> tls_certificate \<Rightarrow> action \<Rightarrow> (send_result res \<times> bey_client option) option" where
  "bey_sleep c net t cert act =
     (case bey_connect c (WithTimeout net) t cert of
        None \<Rightarrow> None
      | Some (Inl (err, conn)) \<Rightarrow> Some (Inl err, conn)
      | Some (Inr cl) \<Rightarrow>
          (case SendSpecialInput c ACTION_SLEEP_NOW cl of
             (Some err, cl) \<Rightarrow> Some (Inl (not_paired err), Some (bl_Close cl))
           | (None, cl) \<Rightarrow>
               (case flush c (bl_now cl + flushDelay) (bl_sched cl) cl of
                  None \<Rightarrow> None
                | Some cl \<Rightarrow>
                    Some (Inr \<lparr>sr_Action = act, sr_SupportedFeatures = 0, sr_ActiveFeatures = 0,
                            sr_Powered = None\<rparr>, Some (bl_Close cl)))))"

definition bey_launch ::
  "bey_codec \<Rightarrow> bey_net \<Rightarrow> target \<Rightarrow> tls_certificate \<Rightarrow> string \<Rightarrow> (goerr option \<times> bey_client option) option" where
  "bey_launch c net t cert link =
     (case bey_connect c (WithTimeout net) t cert of
        None \<Rightarrow> None
      | Some (Inl (err, conn)) \<Rightarrow> Some (Some err, conn)
      | Some (Inr cl) \<Rightarrow>
          (case LaunchApp c link cl of
             (None, _) \<Rightarrow> None
           | (Some (Some err), cl) \<Rightarrow> Some (Some (not_paired err), Some (bl_Close cl))
           | (Some None, cl) \<Rightarrow> Some (None, Some (bl_Close cl))))"

text \<open>
  An operation that never returns has no result; \<open>bey_returns\<close> below shows that there is none,
  so that the error \<open>blocked\<close> never occurs.
\<close>

definition blocked :: goerr where "blocked = Sentinel ''blocked''"

definition power_Send :: "power_env \<Rightarrow> 'a atv_world_scheme inner_sender \<Rightarrow> 'a atv_world_scheme send_fun" where
  "power_Send env inner t creds act w =
     (if act \<noteq> Power then in_Send inner t creds act w
      else
        (case LoadCredentials (pe_crypto env) w of
           Inl err \<Rightarrow> (Inl (wrap_err ''load beyonder credentials: %w'' err), w)
         | Inr None \<Rightarrow> in_Send inner t creds act w
         | Inr (Some cert) \<Rightarrow>
             (case bey_sleep (pe_codec env) (pe_net env (aw_now w)) t cert act of
                None \<Rightarrow> (Inl blocked, w)
              | Some (r, _) \<Rightarrow> (r, w\<lparr>aw_now := aw_now w + 1\<rparr>))))"

definition power_Warmup :: "'w inner_sender \<Rightarrow> 'w warmup_fun" where
  "power_Warmup inner t creds w = in_Warmup inner t creds w"

definition power_Launch :: "power_env \<Rightarrow> 'a atv_world_scheme inner_sender \<Rightarrow> 'a atv_world_scheme launch_fun" where
  "power_Launch env inner t creds link w =
     (if Contains link ''://'' then in_Launch inner t creds link w
      else
        (case LoadCredentials (pe_crypto env) w of
           Inl err \<Rightarrow> (Some (wrap_err ''load beyonder credentials: %w'' err), w)
         | Inr None \<Rightarrow> in_Launch inner t creds link w
         | Inr (Some cert) \<Rightarrow>
             (case bey_launch (pe_codec env) (pe_net env (aw_now w)) t cert link of
                None \<Rightarrow> (Some blocked, w)
              | Some (r, _) \<Rightarrow> (r, w\<lparr>aw_now := aw_now w + 1\<rparr>))))"

definition power_sender :: "power_env \<Rightarrow> 'a atv_world_scheme inner_sender \<Rightarrow> 'a atv_world_scheme sender" where
  "power_sender env inner = \<lparr>sn_Send = power_Send env inner, sn_Warmup = Some (power_Warmup inner),
     sn_Launch = Some (power_Launch env inner)\<rparr>"

section \<open>Lemmas\<close>

text \<open>Under a deadline, waiting ends, and a wait that succeeds leaves the deadline ahead.\<close>

lemma wait_loop_deadline:
  "wait_loop c pred (evs @ deadline) cl = (r, cl') \<Longrightarrow>
    r \<noteq> None \<and> (\<forall>m. r = Some (Inr m) \<longrightarrow> (\<exists>evs'. bl_sched cl' = evs' @ deadline))"
proof (induction evs arbitrary: cl)
  case Nil
  then show ?case by (auto simp: deadline_def split: if_splits)
next
  case (Cons ev evs)
  show ?case
  proof (cases ev)
    case Ev_Receive
    with Cons show ?thesis
      by (cases "bl_msgs cl") (auto simp: Let_def split: if_splits)
  next
    case Ev_Done
    with Cons show ?thesis by (auto split: option.splits)
  qed (use Cons in auto)
qed

definition bounded :: "bey_client \<Rightarrow> bool" where
  "bounded cl \<longleftrightarrow> (\<exists>evs. bl_sched cl = evs @ deadline)"

lemma wait_bounded:
  assumes "bounded cl" "wait c pred cl = (r, cl')"
  shows "r \<noteq> None" "r = Some (Inr m) \<Longrightarrow> bounded cl'"
proof -
  from assms(1) obtain evs where "bl_sched cl = evs @ deadline" by (auto simp: bounded_def)
  with assms(2) have "wait_loop c pred (evs @ deadline) (cl\<lparr>bl_sched := []\<rparr>) = (r, cl')" by (simp add: wait_def)
  from wait_loop_deadline [OF this] show "r \<noteq> None" "r = Some (Inr m) \<Longrightarrow> bounded cl'"
    by (auto simp: bounded_def)
qed

lemma Send_bounded: "bl_Send c f cl = (r, cl') \<Longrightarrow> bounded cl \<Longrightarrow> bounded cl'"
  using sending_Send [of c f cl r cl'] by (simp add: sending_def bounded_def)

lemma Hello_bounded:
  assumes "bounded cl" "Hello c name cl = (r, cl')"
  shows "r \<noteq> None" "r = Some (Inr al) \<Longrightarrow> bounded cl'"
proof -
  have "r \<noteq> None \<and> (r = Some (Inr al) \<longrightarrow> bounded cl')"
  proof (cases "EncodeHello c name")
    case (Inl e)
    with assms show ?thesis by (auto simp: Hello_def)
  next
    case (Inr h)
    obtain r1 cl1 where s: "bl_Send c h cl = (r1, cl1)" by fastforce
    obtain r2 cl2 where w: "wait c (\<lambda>m. not_nil (ms_AuthLevel m)) cl1 = (r2, cl2)" by fastforce
    have b: "bounded cl1" using Send_bounded [OF s assms(1)] .
    note wb = wait_bounded [OF b w]
    from wb(1) obtain x where x: "r2 = Some x" by auto
    have b2: "x = Inr m \<Longrightarrow> bounded cl2" for m using wb(2) x by auto
    have k: "bounded (StartKeepalive (touchRTT a)) = bounded a"
      "bounded (a\<lparr>bl_level := l, bl_caps := ca, bl_name := n\<rparr>) = bounded a" for a l ca n
      by (simp_all add: bounded_def StartKeepalive_def touchRTT_def)
    from assms(2) show ?thesis
      by (cases r1; cases x) (auto simp: Hello_def Inr s w x Let_def k b2 split: if_splits)
  qed
  then show "r \<noteq> None" "r = Some (Inr al) \<Longrightarrow> bounded cl'" by auto
qed

lemma LaunchApp_bounded: "bounded cl \<Longrightarrow> LaunchApp c pkg cl = (r, cl') \<Longrightarrow> r \<noteq> None"
  by (auto simp: LaunchApp_def dest: Send_bounded wait_bounded(1)
      split: if_splits sum.splits prod.splits option.splits)

lemma Dial_bounded: "bey_Dial (WithTimeout net) addr cert = Inr cl \<Longrightarrow> bounded cl \<and> bl_open cl"
  by (auto simp: bey_Dial_def WithTimeout_def bounded_def bl_open_def split: sum.splits prod.splits)

definition left_closed :: "bey_client option \<Rightarrow> bool" where
  "left_closed left = (case left of None \<Rightarrow> True | Some cl \<Rightarrow> bl_done cl)"

lemma left_closed_simps [simp]: "left_closed None" "left_closed (Some (bl_Close cl))"
  by (simp_all add: left_closed_def bl_Close_def)

lemma connect_bounded:
  shows "bey_connect c (WithTimeout net) t cert \<noteq> None"
    and "bey_connect c (WithTimeout net) t cert = Some (Inr cl) \<Longrightarrow> bounded cl"
    and "bey_connect c (WithTimeout net) t cert = Some (Inl (err, left)) \<Longrightarrow> left_closed left"
proof -
  have "bey_connect c (WithTimeout net) t cert \<noteq> None \<and>
    (bey_connect c (WithTimeout net) t cert = Some (Inr cl) \<longrightarrow> bounded cl) \<and>
    (bey_connect c (WithTimeout net) t cert = Some (Inl (err, left)) \<longrightarrow> left_closed left)"
  proof (cases "bey_Dial (WithTimeout net) (JoinHostPort (t_Host t) (Itoa beyonder_Port)) (Some cert)")
    case (Inl e)
    then show ?thesis by (auto simp: bey_connect_def)
  next
    case (Inr cl0)
    obtain r cl1 where h: "Hello c helloName cl0 = (r, cl1)" by fastforce
    note hb = Hello_bounded [OF conjunct1 [OF Dial_bounded [OF Inr]] h]
    from hb(1) obtain x where "r = Some x" by auto
    with hb(2) Inr h show ?thesis by (cases x) (auto simp: bey_connect_def)
  qed
  then show "bey_connect c (WithTimeout net) t cert \<noteq> None"
    "bey_connect c (WithTimeout net) t cert = Some (Inr cl) \<Longrightarrow> bounded cl"
    "bey_connect c (WithTimeout net) t cert = Some (Inl (err, left)) \<Longrightarrow> left_closed left" by auto
qed

lemma flush_deadline: "\<exists>cl'. flush c t (evs @ deadline) cl = Some cl'"
proof (induction evs arbitrary: cl)
  case Nil
  then show ?case by (simp add: deadline_def)
next
  case (Cons ev evs)
  then show ?case by (cases ev) auto
qed

lemma bey_end:
  "(\<exists>r left. bey_sleep c net t cert act = Some (r, left) \<and> left_closed left) \<and>
   (\<exists>r left. bey_launch c net t cert link = Some (r, left) \<and> left_closed left)"
proof -
  from connect_bounded(1) obtain x where x: "bey_connect c (WithTimeout net) t cert = Some x" by blast
  show ?thesis
  proof (cases x)
    case (Inl e)
    obtain err left where e: "e = (err, left)" by fastforce
    have "left_closed left" using connect_bounded(3) x Inl e by simp
    with x Inl e show ?thesis by (simp add: bey_sleep_def bey_launch_def)
  next
    case (Inr cl)
    have b: "bounded cl" using connect_bounded(2) x Inr by simp
    obtain r cl' where l: "LaunchApp c link cl = (r, cl')" by fastforce
    from LaunchApp_bounded [OF b l] obtain y where y: "r = Some y" by blast
    obtain r2 cl2 where s: "SendSpecialInput c ACTION_SLEEP_NOW cl = (r2, cl2)" by fastforce
    have "bounded cl2" using s Send_bounded b
      by (auto simp: SendSpecialInput_def split: if_splits sum.splits)
    then obtain cl3 where f: "flush c (bl_now cl2 + flushDelay) (bl_sched cl2) cl2 = Some cl3"
      using flush_deadline unfolding bounded_def by metis
    show ?thesis
      using x Inr l y s f by (auto simp: bey_sleep_def bey_launch_def split: option.splits)
  qed
qed

section \<open>Properties\<close>

text \<open>
  C16: Sleeping and launching through the beyonder protocol always return, whatever the device
  sends and whenever it sends it: the deadline ends every wait, so that the sender is never
  left blocked. The connection, if one was made, is closed then.
\<close>

theorem bey_returns:
  "(\<exists>r left. bey_sleep c net t cert act = Some (r, left) \<and> left_closed left) \<and>
   (\<exists>r left. bey_launch c net t cert link = Some (r, left) \<and> left_closed left)"
  by (rule bey_end)

text \<open>What an operation writes on its connection, whatever its result.\<close>

lemma added_flush: "flush c t evs cl = Some cl' \<Longrightarrow> added (probe_write c) cl cl'"
proof (induction evs arbitrary: cl)
  case (Cons ev evs)
  show ?case
  proof (cases "ev = Ev_Done")
    case True
    with Cons show ?thesis by (auto simp: added_def split: if_splits)
  next
    case False
    then have "flush c t (ev # evs) cl = flush c t evs (background c ev cl)" by (cases ev) auto
    with Cons added_trans [OF added_background] show ?thesis by metis
  qed
qed simp

lemma Dial_writes: "bey_Dial net addr cert = Inr cl \<Longrightarrow> bl_writes cl = []"
  by (auto simp: bey_Dial_def split: sum.splits prod.splits)

lemma Close_kept [simp]: "bl_done (bl_Close cl)" "bl_writes (bl_Close cl) = bl_writes cl"
  by (simp_all add: bl_Close_def)

lemma beyonder_port: "Itoa beyonder_Port = ''8987''"
  by (simp add: beyonder_Port_def Itoa_def digit_char_def nat_digits.simps [of "numeral _"]) code_simp

text \<open>A connection that was dialled, and the greeting on it.\<close>

definition greets :: "bey_net \<Rightarrow> target \<Rightarrow> tls_certificate \<Rightarrow> bey_client \<Rightarrow> bool" where
  "greets net t cert cl0 \<longleftrightarrow> bey_Dial (WithTimeout net) (JoinHostPort (t_Host t) ''8987'') (Some cert) = Inr cl0"

lemma connect_failed:
  assumes "bey_connect c (WithTimeout net) t cert = Some (Inl (err, Some cl))"
  shows "\<exists>cl0. greets net t cert cl0 \<and> bl_done cl \<and> list_all (greeting_write c ''shrmt'') (bl_writes cl)"
proof -
  obtain cl0 cl1 x where d: "bey_Dial (WithTimeout net) (JoinHostPort (t_Host t) ''8987'') (Some cert) = Inr cl0"
    and h: "Hello c ''shrmt'' cl0 = (x, cl1)" and cl: "cl = bl_Close cl1"
    using assms by (auto simp: bey_connect_def beyonder_port helloName_def split: sum.splits prod.splits option.splits)
  from Hello_added [OF h] Dial_writes [OF d] have "list_all (greeting_write c ''shrmt'') (bl_writes cl1)"
    by (auto simp: added_def)
  with d cl show ?thesis by (auto simp: greets_def)
qed

lemma connect_greets:
  assumes "bey_connect c (WithTimeout net) t cert = Some (Inr cl)"
  shows "\<exists>cl0 pre m al. greets net t cert cl0 \<and> incoming c cl0 = pre @ m # incoming c cl \<and>
    list_all (\<lambda>x. ms_AuthLevel x = None) pre \<and> ms_AuthLevel m = Some al \<and> bl_level cl = al_Level al \<and>
    list_all (greeting_write c ''shrmt'') (bl_writes cl)"
proof -
  obtain cl0 al where d: "bey_Dial (WithTimeout net) (JoinHostPort (t_Host t) ''8987'') (Some cert) = Inr cl0"
    and h: "Hello c ''shrmt'' cl0 = (Some (Inr al), cl)"
    using assms by (auto simp: bey_connect_def beyonder_port helloName_def split: sum.splits prod.splits option.splits)
  from Hello_added [OF h] Dial_writes [OF d] have "list_all (greeting_write c ''shrmt'') (bl_writes cl)"
    by (auto simp: added_def)
  with Hello_Inr [OF conjunct2 [OF Dial_bounded [OF d]] h] d show ?thesis unfolding greets_def by metis
qed

lemma SendSpecialInput_writes:
  assumes "SendSpecialInput c v cl = (r, cl')"
  shows "r \<noteq> None \<and> cl' = cl \<or>
    bl_level cl = 1000 \<and> (\<exists>f sent unsent. EncodeSpecialInput c v = Inr f \<and> Frames c f = sent @ unsent \<and>
      bl_writes cl' = bl_writes cl @ sent \<and> (r = None \<longrightarrow> unsent = []))"
proof (cases "bl_level cl = 1000")
  case True
  show ?thesis
  proof (cases "EncodeSpecialInput c v")
    case (Inl e)
    with assms True show ?thesis by (simp add: SendSpecialInput_def LevelVirtualInput_def LEVEL_VIRTUAL_INPUT_def) auto
  next
    case (Inr f)
    with assms True have "bl_Send c f cl = (r, cl')"
      by (simp add: SendSpecialInput_def LevelVirtualInput_def LEVEL_VIRTUAL_INPUT_def)
    from Send_writes [OF this] Inr True show ?thesis by metis
  qed
next
  case False
  with assms show ?thesis by (auto simp: SendSpecialInput_def LevelVirtualInput_def LEVEL_VIRTUAL_INPUT_def)
qed

text \<open>
  What sleeping writes once the connection is greeted: with the level, the frames of the input, or
  the first of them when one fails, and then probes while the connection is flushed; without it nothing.
\<close>

lemma sleep_writes:
  assumes "bey_connect c (WithTimeout net) t cert = Some (Inr mid)" "bey_sleep c net t cert act = Some (r, left)"
  obtains (refused) "isl r" "left = Some (bl_Close mid)"
  | (asked) f sent unsent probes cl where "left = Some (bl_Close cl)" "bl_level mid = 1000"
      "EncodeSpecialInput c ACTION_SLEEP_NOW = Inr f" "Frames c f = sent @ unsent"
      "bl_writes cl = bl_writes mid @ sent @ probes" "list_all (probe_write c) probes"
      "\<not> isl r \<longrightarrow> unsent = []"
proof -
  obtain e cl1 where s: "SendSpecialInput c ACTION_SLEEP_NOW mid = (e, cl1)" by fastforce
  obtain cl2 where left: "left = Some (bl_Close cl2)" and re: "isl r \<longleftrightarrow> e \<noteq> None"
    and pr: "added (probe_write c) cl1 cl2" "e \<noteq> None \<Longrightarrow> cl2 = cl1"
  proof (cases e)
    case None
    with assms s obtain cl2 where "flush c (bl_now cl1 + flushDelay) (bl_sched cl1) cl1 = Some cl2"
      "left = Some (bl_Close cl2)" "\<not> isl r" by (auto simp: bey_sleep_def split: option.splits)
    with that added_flush None show thesis by blast
  next
    case (Some err)
    with assms s have "left = Some (bl_Close cl1)" "isl r" by (auto simp: bey_sleep_def)
    with that Some show thesis by simp
  qed
  from SendSpecialInput_writes [OF s] show thesis
  proof (elim disjE conjE exE)
    assume "e \<noteq> None" "cl1 = mid"
    with left re pr(2) refused show thesis by simp
  next
    fix f sent unsent
    assume f: "bl_level mid = 1000" "EncodeSpecialInput c ACTION_SLEEP_NOW = Inr f" "Frames c f = sent @ unsent"
      "bl_writes cl1 = bl_writes mid @ sent" "e = None \<longrightarrow> unsent = []"
    obtain probes where p: "bl_writes cl2 = bl_writes cl1 @ probes" "list_all (probe_write c) probes"
      using pr(1) unfolding added_def by blast
    have w: "bl_writes cl2 = bl_writes mid @ sent @ probes" using p(1) f(4) by simp
    have u: "\<not> isl r \<longrightarrow> unsent = []" using re f(5) by blast
    show thesis by (rule asked [OF left f(1-3) w p(2) u])
  qed
qed

text \<open>
  C5: The device is only put to sleep by who may. Whatever the result of sending the power action
  through the beyonder protocol, on a connection to the device's beyonder port nothing is
  written but the hello and the probes of the keepalive, unless the first authorization level
  that the server sent on it was \<open>VIRTUAL_INPUT\<close>; then, after that message was received, the
  frames of \<open>ACTION_SLEEP_NOW\<close> are written, all of them when the result is a success, and
  after them only probes. Without a connection the result is an error. The connection is
  closed.
\<close>

theorem sleep_authorized:
  assumes "bey_sleep c net t cert act = Some (r, left)"
  shows "case left of
      None \<Rightarrow> isl r
    | Some cl \<Rightarrow> bl_done cl \<and>
        (\<exists>cl0. bey_Dial (WithTimeout net) (JoinHostPort (t_Host t) ''8987'') (Some cert) = Inr cl0 \<and>
          (isl r \<and> list_all (greeting_write c ''shrmt'') (bl_writes cl) \<or>
           (\<exists>pre m al mid f sent unsent probes.
              incoming c cl0 = pre @ m # incoming c mid \<and> list_all (\<lambda>x. ms_AuthLevel x = None) pre \<and>
              ms_AuthLevel m = Some al \<and> al_Level al = 1000 \<and>
              list_all (greeting_write c ''shrmt'') (bl_writes mid) \<and>
              EncodeSpecialInput c ACTION_SLEEP_NOW = Inr f \<and> Frames c f = sent @ unsent \<and>
              bl_writes cl = bl_writes mid @ sent @ probes \<and> list_all (probe_write c) probes \<and>
              (\<not> isl r \<longrightarrow> unsent = []))))"
proof -
  obtain x where x: "bey_connect c (WithTimeout net) t cert = Some x"
    using assms by (cases "bey_connect c (WithTimeout net) t cert") (auto simp: bey_sleep_def)
  show ?thesis
  proof (cases x)
    case (Inl e)
    with x assms obtain err where "r = Inl err" "bey_connect c (WithTimeout net) t cert = Some (Inl (err, left))"
      by (cases e) (auto simp: bey_sleep_def)
    with connect_failed show ?thesis by (fastforce simp: greets_def split: option.split)
  next
    case (Inr mid)
    obtain cl0 pre m al where g: "greets net t cert cl0" "incoming c cl0 = pre @ m # incoming c mid"
      "list_all (\<lambda>x. ms_AuthLevel x = None) pre" "ms_AuthLevel m = Some al" "bl_level mid = al_Level al"
      "list_all (greeting_write c ''shrmt'') (bl_writes mid)"
      using connect_greets x Inr by metis
    from x Inr have c: "bey_connect c (WithTimeout net) t cert = Some (Inr mid)" by simp
    from c assms show ?thesis
    proof (cases rule: sleep_writes)
      case refused
      with g(1,6) show ?thesis by (auto simp: greets_def)
    next
      case (asked f sent unsent probes cl)
      have d: "bey_Dial (WithTimeout net) (JoinHostPort (t_Host t) ''8987'') (Some cert) = Inr cl0"
        using g(1) by (simp add: greets_def)
      have l: "al_Level al = 1000" using g(5) asked(2) by simp
      have w: "bl_writes (bl_Close cl) = bl_writes mid @ sent @ probes" using asked(5) by simp
      note facts = g(2-4) l g(6) asked(3,4) w asked(6,7)
      have "\<exists>pre m al mid f sent unsent probes.
              incoming c cl0 = pre @ m # incoming c mid \<and> list_all (\<lambda>x. ms_AuthLevel x = None) pre \<and>
              ms_AuthLevel m = Some al \<and> al_Level al = 1000 \<and>
              list_all (greeting_write c ''shrmt'') (bl_writes mid) \<and>
              EncodeSpecialInput c ACTION_SLEEP_NOW = Inr f \<and> Frames c f = sent @ unsent \<and>
              bl_writes (bl_Close cl) = bl_writes mid @ sent @ probes \<and> list_all (probe_write c) probes \<and>
              (\<not> isl r \<longrightarrow> unsent = [])"
        by (intro exI conjI) (rule facts)+
      with asked(1) d show ?thesis by auto
    qed
  qed
qed

text \<open>A codec and a network for the witness.\<close>

definition sleep_codec :: bey_codec where
  "sleep_codec = demo_codec\<lparr>
     bc_base := table_codec [(on_service 1 [7], [8]), (on_service 10 [1], [10]), (on_service 1001 [30], [40])],
     bc_level := table_codec [(\<lparr>al_Level = 1000, al_DeviceName = ''tv'', al_Capability = 0\<rparr>, [2])],
     bc_virtual := table_codec [(\<lparr>vi_Request = REQUEST_COMMAND, vi_AccessoryType = ACCESSORY_CONTROLLER,
          vi_InputType = INPUT_SPECIAL, vi_KeyState = 0, vi_Value = [], vi_Text = [], vi_SpecialInput = 30\<rparr>, [30])]\<rparr>"

definition sleep_net :: bey_net where
  "sleep_net = \<lparr>bn_Dial = (\<lambda>_ _. Inr ([([10], None)], None, turns 2)), bn_now = 0, bn_ctx = None\<rparr>"

definition tv_target :: target where
  "tv_target = \<lparr>t_Host = ''tv'', t_Port = 6466, t_DeviceID = [], t_Label = ''tv''\<rparr>"

lemma sleep_example:
  "\<exists>left. bey_sleep sleep_codec sleep_net tv_target plain_certificate Power =
     Some (Inr \<lparr>sr_Action = Power, sr_SupportedFeatures = 0, sr_ActiveFeatures = 0, sr_Powered = None\<rparr>, left)"
proof -
  have "bey_Dial (WithTimeout sleep_net) a (Some plain_certificate) =
      Inr (demo_client [([10], None)] (turns 2 @ deadline))" for a
    by (simp add: bey_Dial_def WithTimeout_def sleep_net_def demo_client_def)
  moreover have "case Hello sleep_codec ''shrmt'' (demo_client [([10], None)] (turns 2 @ deadline)) of (r, x) \<Rightarrow>
      r = Some (Inr \<lparr>al_Level = 1000, al_DeviceName = ''tv'', al_Capability = 0\<rparr>) \<and>
      (case SendSpecialInput sleep_codec ACTION_SLEEP_NOW x of (e, y) \<Rightarrow>
         e = None \<and> (case flush sleep_codec (bl_now y + flushDelay) (bl_sched y) y of None \<Rightarrow> False | Some _ \<Rightarrow> True))"
    by code_simp
  ultimately show ?thesis
    by (auto simp: bey_sleep_def bey_connect_def helloName_def split: prod.splits option.splits)
qed

theorem sleep_authorized_witness:
  "\<exists>left f. bey_sleep sleep_codec sleep_net tv_target plain_certificate Power =
       Some (Inr \<lparr>sr_Action = Power, sr_SupportedFeatures = 0, sr_ActiveFeatures = 0, sr_Powered = None\<rparr>, Some left) \<and>
     EncodeSpecialInput sleep_codec ACTION_SLEEP_NOW = Inr f \<and>
     (\<exists>before after. bl_writes left = before @ Frames sleep_codec f @ after \<and> list_all (probe_write sleep_codec) after)"
proof -
  obtain left where s: "bey_sleep sleep_codec sleep_net tv_target plain_certificate Power =
     Some (Inr \<lparr>sr_Action = Power, sr_SupportedFeatures = 0, sr_ActiveFeatures = 0, sr_Powered = None\<rparr>, left)"
    using sleep_example by blast
  from sleep_authorized [OF s] obtain cl where cl: "left = Some cl" by (cases left) auto
  from sleep_authorized [OF s [unfolded cl]] have "\<exists>f before probes. EncodeSpecialInput sleep_codec ACTION_SLEEP_NOW = Inr f \<and>
    bl_writes cl = before @ Frames sleep_codec f @ probes \<and> list_all (probe_write sleep_codec) probes"
    by clarsimp blast
  with s cl show ?thesis by blast
qed

end
