(* ===== verification/Discovery.thy ===== *)
theory Discovery
  imports Go_Strings Devices "HOL-Library.AList" "HOL-Library.Product_Lexorder"
begin

text \<open>
  \<open>internal/discovery/discovery.go\<close> and the adapter \<open>adapters/out/zeroconf\<close>: the devices that
  mDNS entries announce, merged and sorted. The library \<open>zeroconf\<close> is a parameter: the entries
  it delivers, in the order in which the goroutines that receive them get hold of the mutex.
  So are the iteration order of the Go map and \<open>sort.Slice\<close>, which need not be stable.
\<close>

section \<open>Data\<close>

record found =
  fd_Service :: string
  fd_Instance :: string
  fd_HostName :: string
  fd_Port :: int
  fd_IPv4 :: "string list"
  fd_IPv6 :: "string list"
  fd_Text :: "string list"

text \<open>An address is its bytes, or nil.\<close>

type_synonym ip = "byte list option"

record service_entry =
  se_Instance :: string
  se_HostName :: string
  se_Port :: int
  se_AddrIPv4 :: "ip list"
  se_AddrIPv6 :: "ip list"
  se_Text :: "string list"

record scan_env =
  sv_ip_String :: "byte list \<Rightarrow> string"
  sv_Error :: "goerr \<Rightarrow> string"
  sv_NewResolver :: "string \<Rightarrow> goerr option"
  sv_Browse :: "string \<Rightarrow> string \<Rightarrow> goerr option"
  sv_goroutines :: "string list \<Rightarrow> string list"
  sv_entries :: "(string \<times> service_entry option) list"
  sv_map_order :: "string list \<Rightarrow> string list"
  sv_sort :: "(found \<Rightarrow> found \<Rightarrow> bool) \<Rightarrow> found list \<Rightarrow> found list"

definition DefaultServices :: "string list" where
  "DefaultServices = [''_nv_shield_remote._tcp'', ''_androidtvremote._tcp'', ''_androidtvremote2._tcp'']"

section \<open>Normalisation\<close>

definition normalizeDomain :: "string \<Rightarrow> string" where
  "normalizeDomain domain =
     (let domain = TrimSuffix (TrimSpace domain) ''.'' in if domain = [] then ''local'' else domain)"

definition normalizeService :: "string \<Rightarrow> string" where
  "normalizeService service =
     TrimSuffix (TrimSuffix (TrimSuffix (TrimSpace service) ''.'') ''.local'') ''.local.''"

definition ipStrings :: "(byte list \<Rightarrow> string) \<Rightarrow> ip list \<Rightarrow> string list" where
  "ipStrings ip_String ips = sort (unseen {} (map ip_String (List.map_filter id ips)))"

definition sortedStrings :: "string list \<Rightarrow> string list" where
  "sortedStrings values = sort values"

definition fromEntry :: "(byte list \<Rightarrow> string) \<Rightarrow> string \<Rightarrow> service_entry \<Rightarrow> found" where
  "fromEntry ip_String service entry =
     \<lparr>fd_Service = service, fd_Instance = se_Instance entry, fd_HostName = TrimSuffix (se_HostName entry) ''.'',
      fd_Port = se_Port entry, fd_IPv4 = ipStrings ip_String (se_AddrIPv4 entry),
      fd_IPv6 = ipStrings ip_String (se_AddrIPv6 entry), fd_Text = sortedStrings (se_Text entry)\<rparr>"

definition recordKey :: "found \<Rightarrow> string" where
  "recordKey d = JoinStr ''|'' [fd_Service d, fd_Instance d, fd_HostName d, Itoa (fd_Port d),
     JoinStr '','' (fd_IPv4 d), JoinStr '','' (fd_IPv6 d)]"

section \<open>\<open>Scan\<close>\<close>

definition joinErrors :: "(goerr \<Rightarrow> string) \<Rightarrow> goerr list \<Rightarrow> goerr option" where
  "joinErrors Error errs =
     (case errs of
        [] \<Rightarrow> None
      | [err] \<Rightarrow> Some err
      | _ \<Rightarrow> Some (new_err (JoinStr ''; '' (map Error errs))))"

definition found_less :: "found \<Rightarrow> found \<Rightarrow> bool" where
  "found_less a b =
     (if fd_Service a \<noteq> fd_Service b then fd_Service a < fd_Service b
      else if fd_Instance a \<noteq> fd_Instance b then fd_Instance a < fd_Instance b
      else if fd_HostName a \<noteq> fd_HostName b then fd_HostName a < fd_HostName b
      else fd_Port a < fd_Port b)"

text \<open>The map of the records, as an association list, after the entries so far.\<close>

fun add_entries ::
  "(byte list \<Rightarrow> string) \<Rightarrow> (string \<times> service_entry option) list \<Rightarrow> (string \<times> found) list \<Rightarrow> (string \<times> found) list" where
  "add_entries s [] records = records"
| "add_entries s ((service, None) # es) records = add_entries s es records"
| "add_entries s ((service, Some entry) # es) records =
     (let d = fromEntry s service entry in add_entries s es (AList.update (recordKey d) d records))"

definition scan_errors :: "scan_env \<Rightarrow> string \<Rightarrow> string \<Rightarrow> goerr list" where
  "scan_errors env domain service =
     (case sv_NewResolver env service of
        Some err \<Rightarrow> [Errorf ''create zeroconf resolver for %s: %w'' [FS service] (Some err)]
      | None \<Rightarrow>
          (case sv_Browse env service domain of
             Some err \<Rightarrow> [Errorf ''browse %s: %w'' [FS service] (Some err)]
           | None \<Rightarrow> []))"

definition Scan :: "scan_env \<Rightarrow> string list \<Rightarrow> string \<Rightarrow> found list \<times> goerr option" where
  "Scan env services domain =
     (let domain = normalizeDomain domain;
          started = sv_goroutines env (filter (\<lambda>s. s \<noteq> []) (map normalizeService services));
          errs = concat (map (scan_errors env domain) started);
          running = filter (\<lambda>s. sv_NewResolver env s = None) started;
          records = add_entries (sv_ip_String env) (filter (\<lambda>(s, _). s \<in> set running) (sv_entries env)) [];
          results = map (\<lambda>k. the (map_of records k)) (sv_map_order env (map fst records))
      in (sv_sort env found_less results, joinErrors (sv_Error env) errs))"

section \<open>The adapter\<close>

definition androidTVRemoteV2Service :: string where
  "androidTVRemoteV2Service = ''_androidtvremote2._tcp''"

definition zeroconf_New :: "string \<Rightarrow> string" where
  "zeroconf_New domain = (if TrimSpace domain = [] then ''local'' else domain)"

definition idFor :: "string \<Rightarrow> string \<Rightarrow> string \<Rightarrow> int \<Rightarrow> string" where
  "idFor service inst host port = service @ ''|'' @ inst @ ''|'' @ host @ ''|'' @ Itoa port"

definition zeroconf_device :: "found \<Rightarrow> device" where
  "zeroconf_device r =
     \<lparr>dev_ID = idFor (fd_Service r) (fd_Instance r) (fd_HostName r) (fd_Port r), dev_Service = fd_Service r,
      dev_Instance = fd_Instance r, dev_HostName = fd_HostName r, dev_Port = fd_Port r,
      dev_IPv4 = fd_IPv4 r, dev_IPv6 = fd_IPv6 r, dev_Text = fd_Text r\<rparr>"

definition zeroconf_Discover :: "scan_env \<Rightarrow> string \<Rightarrow> device list res" where
  "zeroconf_Discover env domain =
     (case Scan env [androidTVRemoteV2Service] domain of
        (_, Some err) \<Rightarrow> Inl err
      | (results, None) \<Rightarrow> Inr (map zeroconf_device results))"

section \<open>Lemmas\<close>

text \<open>What the map holds for a key: the device of the last entry with that key.\<close>

definition announced :: "(byte list \<Rightarrow> string) \<Rightarrow> (string \<times> service_entry option) list \<Rightarrow> found list" where
  "announced s es = List.map_filter (\<lambda>(svc, e). map_option (fromEntry s svc) e) es"

lemma announced_simps [simp]:
  "announced s [] = []" "announced s ((svc, None) # es) = announced s es"
  "announced s ((svc, Some e) # es) = fromEntry s svc e # announced s es"
  by (simp_all add: announced_def List.map_filter_simps)

lemma map_of_add_entries:
  "map_of (add_entries s es records) k =
     (case filter (\<lambda>d. recordKey d = k) (rev (announced s es)) of
        [] \<Rightarrow> map_of records k
      | d # _ \<Rightarrow> Some d)"
proof (induction s es records rule: add_entries.induct)
  case (3 s service entry es records)
  then show ?case
    by (auto simp: Let_def update_conv' split: list.split)
qed simp_all

lemma distinct_add_entries: "distinct (map fst records) \<Longrightarrow> distinct (map fst (add_entries s es records))"
  by (induction s es records rule: add_entries.induct) (simp_all add: Let_def distinct_update)

text \<open>\<open>sort.Slice\<close> orders its argument by the comparison; its result is some such order.\<close>

definition sorts :: "((found \<Rightarrow> found \<Rightarrow> bool) \<Rightarrow> found list \<Rightarrow> found list) \<Rightarrow> bool" where
  "sorts f \<longleftrightarrow> (\<forall>xs. mset (f found_less xs) = mset xs \<and>
     sorted_wrt (\<lambda>a b. \<not> found_less b a) (f found_less xs))"

definition permutes :: "(string list \<Rightarrow> string list) \<Rightarrow> bool" where
  "permutes f \<longleftrightarrow> (\<forall>xs. mset (f xs) = mset xs)"

text \<open>The devices of the entries that reach the map, in the order in which they do.\<close>

definition heard :: "scan_env \<Rightarrow> string list \<Rightarrow> found list" where
  "heard env services =
     (let started = sv_goroutines env (filter (\<lambda>s. s \<noteq> []) (map normalizeService services));
          running = filter (\<lambda>s. sv_NewResolver env s = None) started
      in announced (sv_ip_String env) (filter (\<lambda>(s, _). s \<in> set running) (sv_entries env)))"

text \<open>The last device of each key.\<close>

definition last_of_key :: "found list \<Rightarrow> found \<Rightarrow> bool" where
  "last_of_key ds d \<longleftrightarrow> (\<exists>earlier later. ds = earlier @ d # later \<and> (\<forall>d' \<in> set later. recordKey d' \<noteq> recordKey d))"

lemma filter_rev_last:
  "filter (\<lambda>d. recordKey d = k) (rev ds) = d # rest \<Longrightarrow> last_of_key ds d \<and> recordKey d = k"
proof -
  assume "filter (\<lambda>d. recordKey d = k) (rev ds) = d # rest"
  then obtain us vs where u: "rev ds = us @ d # vs" "\<forall>u \<in> set us. recordKey u \<noteq> k" "recordKey d = k"
    by (auto simp: filter_eq_Cons_iff)
  then have "ds = rev vs @ d # rev us" by (metis append.assoc append_Cons append_Nil rev.simps(2) rev_append rev_rev_ident)
  with u show ?thesis unfolding last_of_key_def by (metis set_rev)
qed

lemma last_of_key_mem: "last_of_key ds d \<Longrightarrow> d \<in> set ds"
  unfolding last_of_key_def by (metis in_set_conv_decomp)

lemma last_of_key_filter:
  assumes "last_of_key ds d"
  shows "\<exists>rest. filter (\<lambda>d'. recordKey d' = recordKey d) (rev ds) = d # rest"
proof -
  from assms obtain earlier later where "ds = earlier @ d # later" "\<forall>d' \<in> set later. recordKey d' \<noteq> recordKey d"
    by (auto simp: last_of_key_def)
  then show ?thesis by (auto simp: filter_empty_conv)
qed

lemma records_props:
  assumes "distinct (map fst records)" "\<And>k. map_of records k =
      (case filter (\<lambda>d. recordKey d = k) (rev ds) of [] \<Rightarrow> None | d # _ \<Rightarrow> Some d)"
    and "mset ks = mset (map fst records)"
  shows "map recordKey (map (\<lambda>k. the (map_of records k)) ks) = ks" "distinct ks"
    "set (map (\<lambda>k. the (map_of records k)) ks) = {d. last_of_key ds d}"
proof -
  show d: "distinct ks" using assms(1,3) by (metis mset_eq_imp_distinct_iff)
  have keys: "k \<in> set ks \<longleftrightarrow> (\<exists>d. map_of records k = Some d)" for k
  proof -
    have "set ks = fst ` set records" using mset_eq_setD [OF assms(3)] by (simp only: set_map)
    then have "k \<in> set ks \<longleftrightarrow> k \<in> dom (map_of records)" by (simp only: dom_map_of_conv_image_fst)
    then show ?thesis by (simp only: domIff not_None_eq)
  qed
  have val: "recordKey d = k \<and> last_of_key ds d" if "map_of records k = Some d" for k d
  proof (cases "filter (\<lambda>d. recordKey d = k) (rev ds)")
    case Nil
    with that assms(2) [of k] show ?thesis by simp
  next
    case (Cons d' rest)
    with that assms(2) [of k] have "d' = d" by simp
    with filter_rev_last [OF Cons] show ?thesis by simp
  qed
  have "recordKey (the (map_of records k)) = k" if "k \<in> set ks" for k
    using keys val that by (metis option.sel)
  then show "map recordKey (map (\<lambda>k. the (map_of records k)) ks) = ks" by (simp add: map_idI)
  show "set (map (\<lambda>k. the (map_of records k)) ks) = {d. last_of_key ds d}"
  proof (intro equalityI subsetI)
    fix d assume "d \<in> set (map (\<lambda>k. the (map_of records k)) ks)"
    with keys val show "d \<in> {d. last_of_key ds d}" by fastforce
  next
    fix d assume "d \<in> {d. last_of_key ds d}"
    then obtain rest where "filter (\<lambda>d'. recordKey d' = recordKey d) (rev ds) = d # rest"
      using last_of_key_filter by blast
    with assms(2) [of "recordKey d"] have "map_of records (recordKey d) = Some d" by simp
    with keys show "d \<in> set (map (\<lambda>k. the (map_of records k)) ks)" by (force intro: rev_image_eqI)
  qed
qed

lemma Scan_props:
  assumes "sorts (sv_sort env)" "permutes (sv_map_order env)"
  shows "sorted_wrt (\<lambda>a b. \<not> found_less b a) (fst (Scan env services domain))"
    "distinct (map recordKey (fst (Scan env services domain)))"
    "set (fst (Scan env services domain)) = {d. last_of_key (heard env services) d}"
proof -
  let ?started = "sv_goroutines env (filter (\<lambda>s. s \<noteq> []) (map normalizeService services))"
  let ?es = "filter (\<lambda>(s, _). s \<in> set (filter (\<lambda>s. sv_NewResolver env s = None) ?started)) (sv_entries env)"
  let ?records = "add_entries (sv_ip_String env) ?es []"
  let ?ks = "sv_map_order env (map fst ?records)"
  let ?vs = "map (\<lambda>k. the (map_of ?records k)) ?ks"
  have r: "fst (Scan env services domain) = sv_sort env found_less ?vs" by (simp add: Scan_def Let_def)
  have h: "heard env services = announced (sv_ip_String env) ?es" by (simp add: heard_def Let_def)
  have ms: "mset (sv_sort env found_less ?vs) = mset ?vs" and
    "sorted_wrt (\<lambda>a b. \<not> found_less b a) (sv_sort env found_less ?vs)"
    using assms(1) by (simp_all add: sorts_def)
  then show "sorted_wrt (\<lambda>a b. \<not> found_less b a) (fst (Scan env services domain))" by (simp add: r)
  have m: "map_of ?records k = (case filter (\<lambda>d. recordKey d = k) (rev (heard env services)) of
      [] \<Rightarrow> None | d # _ \<Rightarrow> Some d)" for k
    by (simp add: map_of_add_entries h split: list.split)
  have dr: "distinct (map fst ?records)" by (rule distinct_add_entries) simp
  have mk: "mset ?ks = mset (map fst ?records)" using assms(2) by (simp add: permutes_def)
  note p = records_props [OF dr m mk]
  have "mset (map recordKey (sv_sort env found_less ?vs)) = mset (map recordKey ?vs)"
    using ms by (simp only: mset_map)
  then have "distinct (map recordKey (sv_sort env found_less ?vs))" using p(1,2) by (metis mset_eq_imp_distinct_iff)
  then show "distinct (map recordKey (fst (Scan env services domain)))" by (simp only: r)
  show "set (fst (Scan env services domain)) = {d. last_of_key (heard env services) d}"
    unfolding r mset_eq_setD [OF ms] by (rule p(3))
qed

text \<open>A list without ties has one sorted order.\<close>

lemma sorted_unique:
  assumes "sorted_wrt (\<lambda>a b. \<not> lt b a) xs" "sorted_wrt (\<lambda>a b. \<not> lt b a) ys"
    and "set xs = set ys" "distinct xs" "distinct ys"
    and "\<And>a b. a \<in> set xs \<Longrightarrow> b \<in> set xs \<Longrightarrow> \<not> lt a b \<Longrightarrow> \<not> lt b a \<Longrightarrow> a = b"
  shows "xs = ys"
  using assms
proof (induction xs arbitrary: ys)
  case (Cons x xs)
  then obtain y ys' where ys: "ys = y # ys'" by (cases ys) auto
  have xy: "x = y"
  proof (rule ccontr)
    assume "x \<noteq> y"
    then have "x \<in> set ys'" "y \<in> set xs" using Cons.prems(3) ys by auto
    then have "\<not> lt x y" "\<not> lt y x" using Cons.prems(1,2) ys by auto
    with Cons.prems(6) \<open>y \<in> set xs\<close> \<open>x \<noteq> y\<close> show False by simp
  qed
  have "set xs = set ys'" using Cons.prems(3-5) ys xy by auto
  then have "xs = ys'" using Cons.prems ys by (intro Cons.IH) auto
  with xy ys show ?case by simp
qed simp

section \<open>The order of the results\<close>

text \<open>
  The comparison of \<open>Scan\<close> is the linear order of the four fields that it looks at: devices
  that differ in no other field are the ties that \<open>sort.Slice\<close> may leave in any order.
\<close>

datatype found_key = Found_key string string string int

fun key_tuple :: "found_key \<Rightarrow> string \<times> string \<times> string \<times> int" where
  "key_tuple (Found_key s i h p) = (s, i, h, p)"

lemma key_tuple_eq: "key_tuple a = key_tuple b \<longleftrightarrow> a = b"
  by (cases a; cases b) simp

instantiation found_key :: linorder
begin

definition less_eq_found_key :: "found_key \<Rightarrow> found_key \<Rightarrow> bool" where
  "less_eq_found_key a b = (key_tuple a \<le> key_tuple b)"

definition less_found_key :: "found_key \<Rightarrow> found_key \<Rightarrow> bool" where
  "less_found_key a b = (key_tuple a < key_tuple b)"

instance
  by standard (auto simp: less_eq_found_key_def less_found_key_def key_tuple_eq order.strict_iff_order)

end

definition sort_fields :: "found \<Rightarrow> found_key" where
  "sort_fields d = Found_key (fd_Service d) (fd_Instance d) (fd_HostName d) (fd_Port d)"

lemma found_less_iff: "found_less a b \<longleftrightarrow> sort_fields a < sort_fields b"
  by (auto simp: found_less_def sort_fields_def less_found_key_def)

lemma sorts_sort_key: "sorts (\<lambda>_ xs. sort_key sort_fields xs)"
proof -
  have "sorted_wrt (\<lambda>a b. \<not> found_less b a) (sort_key sort_fields xs)" for xs
    using sorted_sort_key [of sort_fields xs]
    by (auto simp: sorted_map found_less_iff not_less elim: sorted_wrt_mono_rel [rotated])
  then show ?thesis by (simp add: sorts_def)
qed

section \<open>Properties\<close>

text \<open>
  C23: A scan lists exactly the devices it heard of: for every key the one announced last, none
  twice, and sorted by service, instance, host and port. This holds for every iteration order
  of the map and for every sorting function.
\<close>

theorem Scan_results:
  assumes "sorts (sv_sort env)" and "permutes (sv_map_order env)"
  shows "sorted (map sort_fields (fst (Scan env services domain))) \<and>
    distinct (map recordKey (fst (Scan env services domain))) \<and>
    (\<forall>d. d \<in> set (fst (Scan env services domain)) \<longleftrightarrow> last_of_key (heard env services) d)"
  using Scan_props [OF assms]
  by (auto simp: sorted_map found_less_iff not_less)

text \<open>
  The result of a scan does not depend on how the goroutines interleave. If two scans hear
  of the same devices, in any order, no two of which share a key or tie in the order, they
  return the same list, whatever the orders of the map and the sorting functions.
\<close>

theorem Scan_deterministic:
  assumes "sorts (sv_sort env)" "permutes (sv_map_order env)"
    and "sorts (sv_sort env')" "permutes (sv_map_order env')"
    and "set (heard env services) = set (heard env' services)"
    and "\<And>a b. a \<in> set (heard env services) \<Longrightarrow> b \<in> set (heard env services) \<Longrightarrow>
      recordKey a = recordKey b \<or> sort_fields a = sort_fields b \<Longrightarrow> a = b"
  shows "fst (Scan env services domain) = fst (Scan env' services domain)"
proof (rule sorted_unique [where lt = found_less])
  have last: "last_of_key ds d \<longleftrightarrow> d \<in> set ds"
    if "\<And>a b. a \<in> set ds \<Longrightarrow> b \<in> set ds \<Longrightarrow> recordKey a = recordKey b \<Longrightarrow> a = b" for ds d
  proof
    assume "d \<in> set ds"
    then obtain earlier later where ds: "ds = earlier @ d # later" "d \<notin> set later"
      by (metis split_list_last)
    then have "\<forall>d' \<in> set later. recordKey d' \<noteq> recordKey d" using that [of _ d] by auto
    with ds(1) show "last_of_key ds d" by (auto simp: last_of_key_def)
  qed (rule last_of_key_mem)
  have s: "set (fst (Scan env services domain)) = set (heard env services)"
    unfolding Scan_props(3) [OF assms(1,2)] using last [of "heard env services"] assms(6) by blast
  have s': "set (fst (Scan env' services domain)) = set (heard env services)"
    unfolding Scan_props(3) [OF assms(3,4)] using last [of "heard env' services"] assms(5,6) by blast
  show "set (fst (Scan env services domain)) = set (fst (Scan env' services domain))" using s s' by simp
  show "a = b" if "a \<in> set (fst (Scan env services domain))" "b \<in> set (fst (Scan env services domain))"
    "\<not> found_less a b" "\<not> found_less b a" for a b
  proof -
    have "sort_fields a = sort_fields b" using that(3,4) unfolding found_less_iff by (simp add: not_less)
    with assms(6) [of a b] that(1,2) s show ?thesis by blast
  qed
qed (use Scan_props(1,2) [OF assms(1,2)] Scan_props(1,2) [OF assms(3,4)] in \<open>auto simp: distinct_map\<close>)

text \<open>Two devices, announced in one order or the other, for the witnesses.\<close>

definition entry_of :: "string \<Rightarrow> service_entry" where
  "entry_of n = \<lparr>se_Instance = n, se_HostName = n @ ''.local.'', se_Port = 6466, se_AddrIPv4 = [],
     se_AddrIPv6 = [], se_Text = []\<rparr>"

definition two_devices :: "(string list \<Rightarrow> string list) \<Rightarrow> string list \<Rightarrow> scan_env" where
  "two_devices order names = \<lparr>sv_ip_String = string_of, sv_Error = (\<lambda>_. []), sv_NewResolver = (\<lambda>_. None),
     sv_Browse = (\<lambda>_ _. None), sv_goroutines = id,
     sv_entries = map (\<lambda>n. (androidTVRemoteV2Service, Some (entry_of n))) names,
     sv_map_order = order, sv_sort = (\<lambda>_ xs. sort_key sort_fields xs)\<rparr>"

lemma service_normal: "normalizeService androidTVRemoteV2Service = androidTVRemoteV2Service"
proof -
  have "TrimSpace androidTVRemoteV2Service = androidTVRemoteV2Service"
    by (rule TrimSpace_same) (simp add: androidTVRemoteV2Service_def edge_char_def)
  moreover have "TrimSuffix (TrimSuffix (TrimSuffix androidTVRemoteV2Service ''.'') ''.local'') ''.local.'' =
      androidTVRemoteV2Service" by code_simp
  ultimately show ?thesis by (simp add: normalizeService_def)
qed

lemma heard_two:
  "heard (two_devices order names) [androidTVRemoteV2Service] =
     map (\<lambda>n. fromEntry string_of androidTVRemoteV2Service (entry_of n)) names"
proof -
  have "androidTVRemoteV2Service \<noteq> []" by (simp add: androidTVRemoteV2Service_def)
  then have "heard (two_devices order names) [androidTVRemoteV2Service] =
      announced string_of (map (\<lambda>n. (androidTVRemoteV2Service, Some (entry_of n))) names)"
    by (simp add: heard_def service_normal two_devices_def)
  also have "\<dots> = map (\<lambda>n. fromEntry string_of androidTVRemoteV2Service (entry_of n)) names"
    by (induction names) simp_all
  finally show ?thesis .
qed

lemma two_keys:
  "recordKey (fromEntry string_of androidTVRemoteV2Service (entry_of ''a'')) \<noteq>
     recordKey (fromEntry string_of androidTVRemoteV2Service (entry_of ''b''))"
  "sort_fields (fromEntry string_of androidTVRemoteV2Service (entry_of ''a'')) \<noteq>
     sort_fields (fromEntry string_of androidTVRemoteV2Service (entry_of ''b''))"
  by (simp_all add: recordKey_def sort_fields_def fromEntry_def entry_of_def)

theorem Scan_results_witness:
  "set (fst (Scan (two_devices rev [''b'', ''a'', ''b'']) [androidTVRemoteV2Service] [])) =
     {fromEntry string_of androidTVRemoteV2Service (entry_of ''a''), fromEntry string_of androidTVRemoteV2Service (entry_of ''b'')}"
proof -
  let ?d = "\<lambda>n. fromEntry string_of androidTVRemoteV2Service (entry_of n)"
  let ?e = "two_devices rev [''b'', ''a'', ''b'']"
  have e: "sorts (sv_sort ?e)" "permutes (sv_map_order ?e)"
    by (simp_all add: two_devices_def sorts_sort_key permutes_def)
  have k: "recordKey (?d ''a'') \<noteq> recordKey (?d ''b'')" by (rule two_keys)
  have h: "heard ?e [androidTVRemoteV2Service] = [?d ''b'', ?d ''a'', ?d ''b'']" by (simp add: heard_two)
  have "last_of_key [?d ''b'', ?d ''a'', ?d ''b''] d \<longleftrightarrow> d = ?d ''a'' \<or> d = ?d ''b''" for d
  proof
    assume "d = ?d ''a'' \<or> d = ?d ''b''"
    then show "last_of_key [?d ''b'', ?d ''a'', ?d ''b''] d"
    proof
      assume "d = ?d ''a''"
      with k show ?thesis unfolding last_of_key_def
        by (intro exI [of _ "[?d ''b'']"] exI [of _ "[?d ''b'']"]) auto
    next
      assume "d = ?d ''b''"
      then show ?thesis unfolding last_of_key_def
        by (intro exI [of _ "[?d ''b'', ?d ''a'']"] exI [of _ "[]"]) auto
    qed
  next
    assume "last_of_key [?d ''b'', ?d ''a'', ?d ''b''] d"
    then have "d \<in> set [?d ''b'', ?d ''a'', ?d ''b'']" by (rule last_of_key_mem)
    then show "d = ?d ''a'' \<or> d = ?d ''b''" by auto
  qed
  with Scan_results [OF e, of "[androidTVRemoteV2Service]" "[]"] h show ?thesis by auto
qed

theorem Scan_deterministic_witness:
  "fst (Scan (two_devices rev [''b'', ''a'']) [androidTVRemoteV2Service] []) =
   fst (Scan (two_devices id [''a'', ''b'', ''a'']) [androidTVRemoteV2Service] [])"
proof -
  let ?d = "\<lambda>n. fromEntry string_of androidTVRemoteV2Service (entry_of n)"
  have k: "recordKey (?d ''a'') \<noteq> recordKey (?d ''b'')" "sort_fields (?d ''a'') \<noteq> sort_fields (?d ''b'')"
    by (rule two_keys)+
  show ?thesis
  proof (rule Scan_deterministic)
    show "set (heard (two_devices rev [''b'', ''a'']) [androidTVRemoteV2Service]) =
        set (heard (two_devices id [''a'', ''b'', ''a'']) [androidTVRemoteV2Service])" by (auto simp: heard_two)
    show "a = b" if "a \<in> set (heard (two_devices rev [''b'', ''a'']) [androidTVRemoteV2Service])"
      "b \<in> set (heard (two_devices rev [''b'', ''a'']) [androidTVRemoteV2Service])"
      "recordKey a = recordKey b \<or> sort_fields a = sort_fields b" for a b
      using that k by (auto simp: heard_two)
  qed (simp_all add: two_devices_def sorts_sort_key permutes_def)
qed

end
