(* ===== verification/Shrmt_Main.thy ===== *)
theory Shrmt_Main
  imports Cli Xdg_Store Power_Sender Discovery
begin

text \<open>
  \<open>cmd/shrmt/main.go\<close>: the controller that the program builds from its adapters, and what holds
  of all of them together. The world is that of the Android TV sender: the file system, the
  sender's session, and a counter that stands for the time at which the network and the context
  are asked.
\<close>

section \<open>The program\<close>

record app_env =
  ae_atv :: atv_env
  ae_remote :: "remote_message pb"
  ae_pair_lib :: pair_lib
  ae_cert_lib :: cert_lib
  ae_polo :: "outer_message pb"
  ae_power :: power_env
  ae_json :: target_json
  ae_zeroconf :: "nat \<Rightarrow> scan_env"

definition clientName :: string where "clientName = ''shrmt''"
definition serviceName :: string where "serviceName = DefaultServiceName"

definition app_discoverer :: "app_env \<Rightarrow> 'a atv_world_scheme discoverer" where
  "app_discoverer E w =
     (zeroconf_Discover (ae_zeroconf E (aw_now w)) (zeroconf_New ''local''), w\<lparr>aw_now := aw_now w + 1\<rparr>)"

definition app_devices :: "app_env \<Rightarrow> 'a atv_world_scheme device_service" where
  "app_devices E =
     new_device_service (Some (app_discoverer E)) (Some (xdg_TargetStore (ae_json E))) DefaultRemotePort"

definition app_pairer :: "app_env \<Rightarrow> 'a atv_world_scheme pairer" where
  "app_pairer E req w =
     pairer_Pair (ae_atv E) (ae_pair_lib E) (ae_cert_lib E) (ae_polo E) DefaultPairingPort (aw_now w) req w"

definition app_pairing :: "app_env \<Rightarrow> 'a atv_world_scheme pairing_service" where
  "app_pairing E = new_pairing_service (Some (app_pairer E)) (Some xdg_CredentialStore) clientName serviceName"

definition app_sender :: "app_env \<Rightarrow> 'a atv_world_scheme sender" where
  "app_sender E = power_sender (ae_power E)
     \<lparr>in_Send = atv_Send (ae_atv E) (ae_remote E), in_Warmup = atv_Warmup (ae_atv E) (ae_remote E),
      in_Launch = atv_Launch (ae_atv E) (ae_remote E)\<rparr>"

definition buildController :: "app_env \<Rightarrow> 'a atv_world_scheme controller" where
  "buildController E =
     (let deviceService = app_devices E;
          pairingService = app_pairing E;
          remoteService = new_remote_service (Some deviceService) (Some pairingService) (Some (app_sender E))
      in new_controller deviceService pairingService remoteService)"

definition shouldRunCLI :: "unicode \<Rightarrow> string list \<Rightarrow> bool" where
  "shouldRunCLI u args =
     (case args of
        [] \<Rightarrow> False
      | arg # _ \<Rightarrow>
          if ToLower u arg \<in> set [''discover'', ''pair'', ''key'', ''power'', ''help'', ''completion''] then True
          else HasPrefix arg ''-'')"

section \<open>The contracts of the stores, at work\<close>

interpretation xdg_remote: remote_stores "xdg_TargetStore js" "target_storable js" target_readable
    "new_device_service disc (Some (xdg_TargetStore js)) port"
  for js disc port
  by unfold_locales (simp add: new_device_service_def)

lemma app_devices_simps [simp]:
  "ds_defaultPort (app_devices E) = DefaultRemotePort"
  "ds_targetStore (app_devices E) = Some (xdg_TargetStore (ae_json E))"
  by (simp_all add: app_devices_def new_device_service_def)

lemma app_simps [simp]:
  "ct_devices (buildController E) = app_devices E" "ct_pairing (buildController E) = app_pairing E"
  "rm_devices (ct_remote (buildController E)) = Some (app_devices E)"
  "rm_pairing (ct_remote (buildController E)) = Some (app_pairing E)"
  "rm_sender (ct_remote (buildController E)) = Some (app_sender E)"
  "pv_clientName (app_pairing E) = clientName" "pv_serviceName (app_pairing E) = serviceName"
  "pv_store (app_pairing E) = Some xdg_CredentialStore" "pv_pairer (app_pairing E) = Some (app_pairer E)"
  by (simp_all add: buildController_def Let_def new_controller_def new_remote_service_def app_pairing_def
      new_pairing_service_def)

text \<open>
  That a sender is only called on certain arguments is said by exchanging it: two senders that
  answer alike on every usable target with credentials that name two files, and in any way, with
  any change of the world, on everything else.
\<close>

definition agree_usable :: "'w sender \<Rightarrow> 'w sender \<Rightarrow> bool" where
  "agree_usable sn sn' \<longleftrightarrow> (\<forall>t c. usable 6466 t \<and> \<not> creds_IsZero c \<longrightarrow>
     sn_Send sn t c = sn_Send sn' t c \<and>
     map_option (\<lambda>f. f t c) (sn_Warmup sn) = map_option (\<lambda>f. f t c) (sn_Warmup sn') \<and>
     map_option (\<lambda>f. f t c) (sn_Launch sn) = map_option (\<lambda>f. f t c) (sn_Launch sn'))"

definition with_sender :: "app_env \<Rightarrow> 'a atv_world_scheme sender \<Rightarrow> 'a atv_world_scheme controller" where
  "with_sender E sn = new_controller (app_devices E) (app_pairing E)
     (new_remote_service (Some (app_devices E)) (Some (app_pairing E)) (Some sn))"

lemma with_app_sender: "with_sender E (app_sender E) = buildController E"
  by (simp add: with_sender_def buildController_def Let_def)

lemma agree_usableD:
  assumes "agree_usable sn sn'" "usable 6466 t" "\<not> creds_IsZero c"
  shows "sn_Send sn t c = sn_Send sn' t c"
    "map_option (\<lambda>f. f t c) (sn_Warmup sn) = map_option (\<lambda>f. f t c) (sn_Warmup sn')"
    "map_option (\<lambda>f. f t c) (sn_Launch sn) = map_option (\<lambda>f. f t c) (sn_Launch sn')"
  using assms unfolding agree_usable_def by blast+

lemma app_resolved:
  assumes "resolveTargetAndCredentials (app_devices E) (app_pairing E) explicit w = (Inr (t, c), w')"
  shows "usable 6466 t" "\<not> creds_IsZero c"
  using xdg_remote.resolveTargetAndCredentials_ok [OF assms [unfolded app_devices_def]]
  by (simp_all add: new_device_service_def DefaultRemotePort_def)

lemma with_sender_Send:
  assumes "agree_usable sn sn'"
  shows "ctl_Send (with_sender E sn) req w = ctl_Send (with_sender E sn') req w"
proof -
  have "sn_Send sn t c = sn_Send sn' t c"
    if "resolveTargetAndCredentials (app_devices E) (app_pairing E) (sq_Target req) w = (Inr (t, c), w1)" for t c w1
    using agree_usableD(1) [OF assms app_resolved [OF that]] .
  then show ?thesis
    by (auto simp: ctl_Send_def remote_Send_def with_sender_def new_controller_def new_remote_service_def
        split: prod.split sum.split)
qed

lemma with_sender_Launch:
  assumes "agree_usable sn sn'"
  shows "ctl_Launch (with_sender E sn) req w = ctl_Launch (with_sender E sn') req w"
proof -
  have n: "sn_Launch sn = None \<longleftrightarrow> sn_Launch sn' = None"
  proof -
    have "usable 6466 \<lparr>t_Host = ''h'', t_Port = 6466, t_DeviceID = [], t_Label = ''h''\<rparr>"
      "\<not> creds_IsZero \<lparr>cr_CertPath = ''c'', cr_KeyPath = ''k'', cr_Source = []\<rparr>"
      by (simp_all add: usable_def creds_IsZero_def)
    from agree_usableD(3) [OF assms this] show ?thesis by (metis map_option_is_None)
  qed
  have "f t c = g t c"
    if "resolveTargetAndCredentials (app_devices E) (app_pairing E) (lq_Target req) w = (Inr (t, c), w1)"
      "sn_Launch sn = Some f" "sn_Launch sn' = Some g" for t c w1 f g
    using agree_usableD(3) [OF assms app_resolved [OF that(1)]] that(2,3) by simp
  with n show ?thesis
    by (auto simp: ctl_Launch_def remote_Launch_def with_sender_def new_controller_def new_remote_service_def
        split: prod.split sum.split option.split)
qed

lemma warmup_agrees:
  assumes "agree_usable sn sn'" "usable 6466 t" "\<not> creds_IsZero c"
  shows "(case sn_Warmup sn of None \<Rightarrow> w | Some f \<Rightarrow> snd (f t c w)) =
    (case sn_Warmup sn' of None \<Rightarrow> w | Some f \<Rightarrow> snd (f t c w))"
  using agree_usableD(2) [OF assms] by (auto split: option.split)

lemma Resolve_app_usable:
  "Resolve (app_devices E) explicit w = (Inr t, w1) \<Longrightarrow> usable 6466 t"
  using xdg_targets.Resolve_usable [of "app_devices E"]
  by (metis app_devices_def app_devices_simps DefaultRemotePort_def)

lemma with_sender_Load:
  assumes "agree_usable sn sn'"
  shows "ctl_Load (with_sender E sn) req w = ctl_Load (with_sender E sn') req w"
proof -
  obtain s s' where s: "s = new_remote_service (Some (app_devices E)) (Some (app_pairing E)) (Some sn)"
    "s' = new_remote_service (Some (app_devices E)) (Some (app_pairing E)) (Some sn')" by blast
  have lp: "load_pairing s w = load_pairing s' w" and d: "rm_devices s = rm_devices s'" "rm_devices s' = Some (app_devices E)"
    by (simp_all add: s load_pairing_def new_remote_service_def)
  have lw: "load_warmup s explicit st w2 = load_warmup s' explicit st w2"
    if "load_pairing s' w = (Inr (rs_Pairing st), w0)" "usable 6466 (rs_Target st)" for explicit st w0 w2
    using warmup_agrees [OF assms that(2)] load_pairing_Available [OF that(1)]
    by (auto simp: load_warmup_def Let_def s new_remote_service_def)
  have "remote_Load s (lr_Target req) w = remote_Load s' (lr_Target req) w"
    by (auto simp: remote_Load_def lp d Let_def intro!: lw dest: Resolve_app_usable split: prod.split sum.split)
  then show ?thesis by (simp add: ctl_Load_def with_sender_def new_controller_def s)
qed

text \<open>
  C2: Whatever the command line or the window asks for, the program's sender only ever gets a
  target with a host and a port to connect to, and credentials that name two files. On every
  run, failed ones included, nothing that \<open>Send\<close>, \<open>Launch\<close> or \<open>Load\<close> with its warm-up returns,
  and nothing they leave in the world, depends on what the sender would do with any other
  target or credentials: it can be exchanged for one that answers differently there. And a send
  that succeeds is the sender's success on such a target.
\<close>

theorem app_send_usable:
  fixes w :: "'a atv_world_scheme"
  assumes "agree_usable sn (app_sender E)"
  shows "ctl_Send (with_sender E sn) req w = ctl_Send (buildController E) req w \<and>
    ctl_Launch (with_sender E sn) lreq w = ctl_Launch (buildController E) lreq w \<and>
    ctl_Load (with_sender E sn) oreq w = ctl_Load (buildController E) oreq w \<and>
    (\<forall>r w'. ctl_Send (buildController E) req w = (Inr r, w') \<longrightarrow>
      (\<exists>t creds w1. usable 6466 t \<and> t_Port t \<noteq> 0 \<and> \<not> creds_IsZero creds \<and>
        sn_Send (app_sender E) t creds (sq_Action req) w1 = (Inr r, w')))"
proof -
  have "\<exists>t creds w1. usable 6466 t \<and> t_Port t \<noteq> 0 \<and> \<not> creds_IsZero creds \<and>
      sn_Send (app_sender E) t creds (sq_Action req) w1 = (Inr r, w')"
    if ok: "ctl_Send (buildController E) req w = (Inr r, w')" for r w'
  proof -
    obtain t creds w1 where
      rt: "resolveTargetAndCredentials (app_devices E) (app_pairing E) (sq_Target req) w = (Inr (t, creds), w1)"
      and s: "sn_Send (app_sender E) t creds (sq_Action req) w1 = (Inr r, w')"
      using ok by (auto simp: ctl_Send_def remote_Send_def split: prod.splits sum.splits)
    from app_resolved [OF rt] s show ?thesis by (auto simp: usable_def)
  qed
  then show ?thesis
    unfolding with_app_sender [symmetric]
    using with_sender_Send [OF assms] with_sender_Launch [OF assms] with_sender_Load [OF assms] by blast
qed

section \<open>Pairing, then using\<close>

lemma Ensure_frame:
  assumes "EnsureClientCertificate lib cp kp name w = (None, w')"
  shows "only_files {cp, kp} w w'"
proof (cases "fileExists w cp = Inr False \<and> fileExists w kp = Inr False")
  case True
  with Ensure_writes [OF assms] show ?thesis by simp
next
  case False
  with assms have "w' = w" by (auto simp: EnsureClientCertificate_def split: sum.splits if_splits)
  then show ?thesis by simp
qed

definition files_only :: "'w code_provider option \<Rightarrow> bool" where
  "files_only provider \<longleftrightarrow> (\<forall>p w. provider = Some p \<longrightarrow> snd (p w) = w)"

lemma files_onlyD: "files_only (Some p) \<Longrightarrow> p w = (r, w') \<Longrightarrow> w' = w"
  unfolding files_only_def by (metis snd_conv)

lemma files_only_wrap: "files_only p \<Longrightarrow> files_only (map_option (wrap_provider u) p)"
  by (auto simp: files_only_def wrap_provider_def split: option.splits prod.splits sum.splits) (metis snd_conv)+

text \<open>A pairing that succeeds leaves both files of the credentials it was asked to make.\<close>

lemma atv_Pair_files:
  assumes "atv_Pair env lib clib pb params n w = (Inr r, w')" "files_only (pa_CodeProvider params)"
  shows "fileExists w' (pa_CertPath params) = Inr True" "fileExists w' (pa_KeyPath params) = Inr True"
    "prs_CertPath r = pa_CertPath params" "prs_KeyPath r = pa_KeyPath params"
    "only_files {pa_CertPath params, pa_KeyPath params} w w'"
proof -
  let ?p = "normalizePairParams params"
  have p: "pa_CertPath ?p = pa_CertPath params" "pa_KeyPath ?p = pa_KeyPath params"
    "pa_CodeProvider ?p = pa_CodeProvider params"
    by (simp_all add: normalizePairParams_def Let_def)
  have h: "pa_Host ?p \<noteq> []" using assms(1) by (auto simp: atv_Pair_def Let_def)
  obtain w1 where e: "EnsureClientCertificate clib (pa_CertPath params) (pa_KeyPath params) (pa_ClientName ?p) w = (None, w1)"
    using assms(1) h p by (auto simp: atv_Pair_def Let_def split: prod.splits option.splits)
  let ?load = "en_LoadX509KeyPair env n (pa_CertPath params) (pa_KeyPath params)"
  note def = atv_Pair_def Let_def h p e
  obtain cert where l: "?load = Inr cert" using assms(1) by (cases ?load) (simp_all add: def)
  let ?dial = "en_Dial env (Suc n) cert (inferServerName (en_isIP env) (pa_Host ?p)) (endpoint (pa_Host ?p) (pa_Port ?p))"
  obtain cn where d: "?dial = Inr cn" using assms(1) by (cases ?dial) (simp_all add: def l)
  let ?start = "pc_start pb (newPairingClient cn (pa_ServiceName ?p) (pa_ClientName ?p))"
  obtain x client where st: "?start = (x, client)" by fastforce
  with assms(1) have x: "x = None" by (cases x) (simp_all add: def l d)
  obtain y w2 where pc: "pair_code ?p w1 = (y, w2)" by fastforce
  with assms(1) st x obtain c where y: "y = Inr c" by (cases y) (simp_all add: def l d)
  let ?norm = "NormalizePairingCode (en_unicode env) c"
  obtain c' where nc: "?norm = Inr c'" using assms(1) st x pc y by (cases ?norm) (simp_all add: def l d)
  obtain z client' where fi: "pc_finish (en_unicode env) lib pb c' cert (n + 2) client = (z, client')" by fastforce
  have "z = None" using assms(1) st x pc y nc fi by (cases z) (simp_all add: def l d)
  with assms(1) st x pc y nc fi
  have c: "pair_code ?p w1 = (Inr c, w')"
    and r: "prs_CertPath r = pa_CertPath params" "prs_KeyPath r = pa_KeyPath params"
    by (auto simp: def l d)
  have "w' = w1" using c assms(2) p(3)
    by (auto simp: pair_code_def dest: files_onlyD split: if_splits option.splits)
  with Ensure_exists [OF e] Ensure_frame [OF e] r
  show "fileExists w' (pa_CertPath params) = Inr True" "fileExists w' (pa_KeyPath params) = Inr True"
    "prs_CertPath r = pa_CertPath params" "prs_KeyPath r = pa_KeyPath params"
    "only_files {pa_CertPath params, pa_KeyPath params} w w'" by auto
qed

lemma app_Pair_files:
  assumes "pairing_Pair u (app_pairing E) t c provider w = (Inr st, w')" "files_only provider"
  obtains creds where "creds_Default w' = Inr creds" "st = \<lparr>ps_Available = True, ps_Credentials = creds\<rparr>"
    "creds_Exists creds w' = Inr True" "\<not> target_IsZero t"
proof -
  have t: "\<not> target_IsZero t" using assms(1) by (auto simp: pairing_Pair_def)
  obtain code where ch: "pair_checked u (app_pairing E) t code provider w = (Inr st, w')"
    using assms(1) t by (auto simp: pairing_Pair_def split: if_splits sum.splits)
  obtain creds where cd: "creds_Default w = Inr creds"
    using ch by (auto simp: pair_checked_def xdg_CredentialStore_def split: sum.splits)
  let ?q = "\<lparr>pq_Target = t, pq_Code = code, pq_CodeProvider = map_option (wrap_provider u) provider,
     pq_Credentials = creds, pq_ClientName = clientName,
     pq_ServiceName = serviceName\<rparr>"
  obtain creds' where pp: "app_pairer E ?q w = (Inr creds', w')"
    and st: "st = \<lparr>ps_Available = True, ps_Credentials = creds'\<rparr>"
    using ch cd by (auto simp: pair_checked_def xdg_CredentialStore_def split: sum.splits prod.splits)
  let ?params = "\<lparr>pa_Host = t_Host t, pa_Port = DefaultPairingPort, pa_ClientName = clientName,
     pa_ServiceName = serviceName, pa_PairingCode = code,
     pa_CodeProvider = map_option (wrap_provider u) provider,
     pa_CertPath = cr_CertPath creds, pa_KeyPath = cr_KeyPath creds\<rparr>"
  obtain r where a: "atv_Pair (ae_atv E) (ae_pair_lib E) (ae_cert_lib E) (ae_polo E) ?params (aw_now w) w = (Inr r, w')"
    and r: "creds' = \<lparr>cr_CertPath = prs_CertPath r, cr_KeyPath = prs_KeyPath r, cr_Source = ''shrmt''\<rparr>"
    using pp by (auto simp: app_pairer_def pairer_Pair_def Let_def split: sum.splits prod.splits)
  have fo: "files_only (pa_CodeProvider ?params)" using files_only_wrap [OF assms(2)] by simp
  note f = atv_Pair_files [OF a fo]
  have src: "cr_Source creds = ''shrmt''"
    using cd by (auto simp: creds_Default_def credentialsForApp_eq appDirName_def)
  then have "creds' = creds" using r f(3,4) by simp
  moreover have "creds_Default w' = Inr creds"
    using cd paths_cong(2) [OF only_filesD(1) [OF f(5)]] by (simp add: creds_Default_def)
  moreover have "creds_Exists creds w' = Inr True" using f(1,2) by (simp add: creds_Exists_True)
  ultimately show thesis using that st t by simp
qed

text \<open>Saving a target keeps the credentials loadable, and makes it the default.\<close>

lemma saved_credentials:
  assumes "creds_Default w = Inr creds" "creds_Exists creds w = Inr True"
    and "target_Save js t w = (None, w')"
  shows "creds_Load w' = (Inr creds, w')" "\<not> creds_IsZero creds" "creds_Exists creds w' = Inr True"
    "creds_Default w' = Inr creds"
proof -
  from assms(1) obtain d where d: "fs_configDir w = Inr d" and c: "creds = app_creds d appDirName"
    by (auto simp: creds_Default_def credentialsForApp_eq app_creds_def)
  let ?path = "path_Join [path_Join [d, appDirName], targetFile]"
  have "targetPath w = Inr ?path" using d by (simp add: targetPath_def configPath_def)
  from target_Save_frame [OF assms(3) this] have f: "only_files {?path} w w'" .
  have ne: "certFile \<noteq> targetFile" "keyFile \<noteq> targetFile" by (simp_all add: xdg_names)
  have "cr_CertPath creds \<notin> {?path}" "cr_KeyPath creds \<notin> {?path}"
    using ne by (simp_all add: c app_creds_def app_path_inj)
  then show ex: "creds_Exists creds w' = Inr True"
    using assms(2) fileExists_only [OF f] by (simp add: creds_Exists_True)
  moreover show "creds_Default w' = Inr creds"
    using assms(1) paths_cong(2) [OF only_filesD(1) [OF f]] by (simp add: creds_Default_def)
  ultimately show "creds_Load w' = (Inr creds, w')" by (simp add: creds_Load_def)
  show "\<not> creds_IsZero creds" by (simp add: c app_creds_props)
qed

text \<open>What a pairing that succeeded leaves: the credentials it made, and the saved target.\<close>

lemma ctl_Pair_leaves:
  assumes "ctl_Pair u (buildController E) req w = ((st, None), w')" "files_only (pr_CodeProvider req)"
  obtains t w1 w2 creds where "Resolve (app_devices E) (pr_Target req) w = (Inr t, w1)"
    "creds_Default w2 = Inr creds" "st = \<lparr>ps_Available = True, ps_Credentials = creds\<rparr>"
    "creds_Exists creds w2 = Inr True" "\<not> target_IsZero t"
    "target_Save (ae_json E) (normalizeTarget t DefaultRemotePort) w2 = (None, w')" "usable 6466 t"
proof -
  obtain t w1 where r: "Resolve (app_devices E) (pr_Target req) w = (Inr t, w1)"
    using assms(1) by (auto simp: ctl_Pair_def split: prod.splits sum.splits)
  obtain st2 w2 where p: "pairing_Pair u (app_pairing E) t (pr_Code req) (pr_CodeProvider req) w1 = (Inr st2, w2)"
    using assms(1) r by (auto simp: ctl_Pair_def split: prod.splits sum.splits)
  have sv: "SaveDefault (app_devices E) t w2 = (None, w')" and st: "st2 = st"
    using assms(1) r p by (auto simp: ctl_Pair_def split: prod.splits option.splits)
  from sv have "target_Save (ae_json E) (normalizeTarget t DefaultRemotePort) w2 = (None, w')"
    by (simp add: SaveDefault_def xdg_TargetStore_def)
  moreover have "usable 6466 t"
    using xdg_targets.Resolve_usable [OF _ r [unfolded app_devices_def]]
    by (simp add: new_device_service_def DefaultRemotePort_def)
  ultimately show thesis using that r app_Pair_files [OF p assms(2)] st by metis
qed

text \<open>
  C1: Once paired, always ready: after a pairing that succeeded, with whatever target was given,
  saved or discovered, loading the remote with no target finds it paired, with the credentials
  the pairing made, and pointed at the device that was paired, with the default port where none
  was given. The hypotheses: asking for the code does not touch the files, the target survives
  the JSON encoding, and the saved file can be read.
\<close>

theorem pair_then_load:
  assumes "ctl_Pair u (buildController E) req w = ((st, None), w')"
    and "files_only (pr_CodeProvider req)"
    and "\<And>t w1. Resolve (app_devices E) (pr_Target req) w = (Inr t, w1) \<Longrightarrow>
      target_storable (ae_json E) (normalizeTarget t 6466)"
    and "target_readable w'"
  shows "\<exists>t w1. Resolve (app_devices E) (pr_Target req) w = (Inr t, w1) \<and> usable 6466 t \<and>
    ps_Available st \<and>
    fst (ctl_Load (buildController E) \<lparr>lr_Target = None\<rparr> w') =
      (\<lparr>rs_Target = normalizeTarget t 6466, rs_HasTarget = True, rs_SavedTarget = True, rs_Pairing = st\<rparr>, None)"
proof -
  obtain t w1 w2 creds where r: "Resolve (app_devices E) (pr_Target req) w = (Inr t, w1)"
    and c: "creds_Default w2 = Inr creds" "st = \<lparr>ps_Available = True, ps_Credentials = creds\<rparr>"
      "creds_Exists creds w2 = Inr True" "\<not> target_IsZero t"
    and sv: "target_Save (ae_json E) (normalizeTarget t DefaultRemotePort) w2 = (None, w')" and us: "usable 6466 t"
    by (rule ctl_Pair_leaves [OF assms(1,2)])
  let ?t = "normalizeTarget t DefaultRemotePort"
  note k = saved_credentials [OF c(1,3) sv]
  have "ts_Load (xdg_TargetStore (ae_json E)) w' = (Inr ?t, w')"
    using xdg_targets.load_save [OF _ _ _ assms(4)] sv assms(3) [OF r] c(4)
    by (simp add: DefaultRemotePort_def xdg_TargetStore_def)
  then have ld: "LoadDefault (app_devices E) w' = (Inr ?t, w')"
    and rs: "Resolve (app_devices E) None w' = (Inr ?t, w')"
    by (simp_all add: LoadDefault_def Resolve_def)
  have pc: "load_pairing (ct_remote (buildController E)) w' = (Inr st, w')"
    using k c(2) by (simp add: load_pairing_def pairing_State_def pairing_Credentials_def xdg_CredentialStore_def)
  have "fst (ctl_Load (buildController E) \<lparr>lr_Target = None\<rparr> w') =
      (\<lparr>rs_Target = ?t, rs_HasTarget = True, rs_SavedTarget = True, rs_Pairing = st\<rparr>, None)"
    using c(4) by (simp add: ctl_Load_def remote_Load_def pc load_saved_def ld rs zero_remote_state_def Let_def)
  with r us c(2) show ?thesis by (auto simp: DefaultRemotePort_def)
qed

text \<open>A device that pairs, and a world that has the files, for the witnesses.\<close>

definition demo_conn :: conn where
  "demo_conn = \<lparr>cn_in = [1, 1, 1, 1, 1, 1, 1, 1], cn_end = err_EOF, cn_closed = False, cn_out = [], cn_room = None\<rparr>"

definition paired_target :: target where
  "paired_target = \<lparr>t_Host = ''tv'', t_Port = 6466, t_DeviceID = [], t_Label = ''tv''\<rparr>"

definition demo_app :: app_env where
  "demo_app = \<lparr>ae_atv = test_env\<lparr>en_Dial := (\<lambda>_ _ _ _. Inr demo_conn), en_unicode := ascii_unicode\<rparr>,
     ae_remote = few_pb, ae_pair_lib = finish_lib, ae_cert_lib = test_lib, ae_polo = finish_pb,
     ae_power = \<lparr>pe_codec = sleep_codec, pe_crypto = plain_crypto\<lparr>by_X509KeyPair := (\<lambda>_ _. Inr plain_certificate)\<rparr>, pe_net = (\<lambda>_. sleep_net)\<rparr>,
     ae_json = \<lparr>tj_MarshalIndent = (\<lambda>t. Inr (t_Host t)), tj_Unmarshal = (\<lambda>_. Inr paired_target)\<rparr>,
     ae_zeroconf = (\<lambda>_. two_devices id [])\<rparr>"

definition demo_files :: atv_world where
  "demo_files = \<lparr>fs_configDir = Inr ''/c'',
     fs_files = [''/c/shrmt/androidtv-client-cert.pem'' \<mapsto> (''c'', 384), ''/c/shrmt/androidtv-client-key.pem'' \<mapsto> (''k'', 384)],
     fs_dirs = (\<lambda>p. if p = ''/'' \<or> p = ''/c'' \<or> p = ''/c/shrmt'' then Some 493 else None),
     fs_fault = (\<lambda>_ _. None), fs_short = (\<lambda>_. 0), aw_now = 0, aw_session = None, aw_config = zero_config\<rparr>"

definition demo_request :: "atv_world ctl_pair_request" where
  "demo_request = \<lparr>pr_Target = Some \<lparr>t_Host = ''tv'', t_Port = 0, t_DeviceID = [], t_Label = []\<rparr>,
     pr_Code = ''A1B2C3'', pr_CodeProvider = None\<rparr>"

lemma demo_start:
  "case pc_start finish_pb (newPairingClient demo_conn ''atvremote'' ''shrmt'') of (e, p) \<Rightarrow> e = None \<and>
     (case pc_writeMessage finish_pb (secret_message [0xA1, 5, 3, 7]) p of (e, p) \<Rightarrow> e = None \<and>
     (case pc_readMessage finish_pb p of (r, p) \<Rightarrow> r = Inr defaultPairingMessage))"
  by code_simp

lemma demo_talk:
  "\<exists>client. pc_start finish_pb (newPairingClient demo_conn ''atvremote'' ''shrmt'') = (None, client) \<and>
    (\<forall>cert n. fst (pc_finish ascii_unicode finish_lib finish_pb ''A1B2C3'' cert n client) = None)"
proof -
  obtain e p where 1: "pc_start finish_pb (newPairingClient demo_conn ''atvremote'' ''shrmt'') = (e, p)" by fastforce
  obtain e2 p2 where 2: "pc_writeMessage finish_pb (secret_message [0xA1, 5, 3, 7]) p = (e2, p2)" by fastforce
  obtain r p3 where 3: "pc_readMessage finish_pb p2 = (r, p3)" by fastforce
  have k: "pl_ParseCertificate finish_lib cert = Inr (RSA_PublicKey 5 3)"
    "pl_PeerCertificates finish_lib n = [RSA_PublicKey 7 3]" for cert n by (simp_all add: finish_lib_def)
  have e: "ensureStatusOK defaultPairingMessage ''pair secret ack'' = None" by code_simp
  from demo_start 1 2 3 have "e = None" "e2 = None" "r = Inr defaultPairingMessage" by simp_all
  with 1 2 3 show ?thesis by (intro exI [of _ p]) (simp add: pc_finish_def k secret_example e)
qed

definition demo_creds :: credentials where
  "demo_creds = \<lparr>cr_CertPath = ''/c/shrmt/androidtv-client-cert.pem'',
     cr_KeyPath = ''/c/shrmt/androidtv-client-key.pem'', cr_Source = ''shrmt''\<rparr>"

lemma demo_joins:
  "path_Join [''/c'', appDirName] = ''/c/shrmt''"
  "path_Join [''/c/shrmt'', certFile] = ''/c/shrmt/androidtv-client-cert.pem''"
  "path_Join [''/c/shrmt'', keyFile] = ''/c/shrmt/androidtv-client-key.pem''"
  "path_Join [''/c/shrmt'', targetFile] = ''/c/shrmt/target.json''"
  "path_Dir ''/c/shrmt/target.json'' = ''/c/shrmt''"
  by code_simp+

lemma demo_paths:
  "creds_Default demo_files = Inr demo_creds" "targetPath demo_files = Inr ''/c/shrmt/target.json''"
  "fileExists demo_files (cr_CertPath demo_creds) = Inr True"
  "fileExists demo_files (cr_KeyPath demo_creds) = Inr True"
  by (simp_all add: creds_Default_def credentialsForApp_def targetPath_def configPath_def demo_joins
      demo_creds_def demo_files_def fileExists_def os_Stat_def) (simp add: appDirName_def)

lemma demo_save:
  "\<exists>w'. target_Save js t demo_files = (None, w') \<and> fs_fault w' = fs_fault demo_files" if "tj_MarshalIndent js t = Inr raw"
  using that
  by (simp add: target_Save_def demo_paths demo_joins os_MkdirAll_def os_WriteFile_def)
    (simp add: demo_files_def os_WriteFile_def demo_joins)

lemma demo_pairs:
  "\<exists>st w'. ctl_Pair ascii_unicode (buildController demo_app) demo_request demo_files = ((st, None), w') \<and>
    fs_fault w' = fs_fault demo_files"
proof -
  let ?u = "ascii_unicode" and ?E = demo_app
  have pc: "ParseCode ?u ''A1B2C3'' = Inr ''A1B2C3''"
    by (subst ParseCode_def, subst TrimSpace_all) (simp add: edge_char_def, code_simp)
  have tr: "TrimSpace ''A1B2C3'' = ''A1B2C3''" by (rule TrimSpace_all) (simp add: edge_char_def)
  obtain client where t: "pc_start finish_pb (newPairingClient demo_conn ''atvremote'' ''shrmt'') = (None, client)"
    "\<And>cert n. fst (pc_finish ascii_unicode finish_lib finish_pb ''A1B2C3'' cert n client) = None"
    using demo_talk by blast
  let ?t = "\<lparr>t_Host = ''tv'', t_Port = 6466, t_DeviceID = [], t_Label = ''tv''\<rparr>"
  let ?params = "\<lparr>pa_Host = ''tv'', pa_Port = DefaultPairingPort, pa_ClientName = ''shrmt'',
     pa_ServiceName = ''atvremote'', pa_PairingCode = ''A1B2C3'', pa_CodeProvider = None,
     pa_CertPath = cr_CertPath demo_creds, pa_KeyPath = cr_KeyPath demo_creds\<rparr>"
  have np: "normalizePairParams ?params = ?params"
    by (simp add: normalizePairParams_def DefaultPairingPort_def)
  obtain client' where f: "pc_finish ascii_unicode finish_lib finish_pb ''A1B2C3'' [] (Suc (Suc 0)) client = (None, client')"
    using t(2) [of "[]" "Suc (Suc 0)"] by (metis prod.collapse)
  have "\<exists>r. atv_Pair (ae_atv ?E) finish_lib test_lib finish_pb ?params 0 demo_files = (Inr r, demo_files) \<and>
      prs_CertPath r = cr_CertPath demo_creds \<and> prs_KeyPath r = cr_KeyPath demo_creds"
    using NormalizePairingCode_example f
    by (simp add: atv_Pair_def np Let_def EnsureClientCertificate_def demo_paths t(1) pair_code_def tr
        demo_app_def test_env_def)
  then obtain r where r: "atv_Pair (ae_atv ?E) finish_lib test_lib finish_pb ?params 0 demo_files = (Inr r, demo_files)"
    "prs_CertPath r = cr_CertPath demo_creds" "prs_KeyPath r = cr_KeyPath demo_creds" by blast
  have "\<exists>st. pairing_Pair ?u (app_pairing ?E) ?t ''A1B2C3'' None demo_files = (Inr st, demo_files)"
    using r by (simp add: pairing_Pair_def target_IsZero_def pc pair_checked_def demo_paths
        xdg_CredentialStore_def app_pairer_def pairer_Pair_def Let_def clientName_def serviceName_def
        DefaultServiceName_def) (simp add: demo_app_def demo_files_def DefaultPairingPort_def)
  then obtain st where st: "pairing_Pair ?u (app_pairing ?E) ?t ''A1B2C3'' None demo_files = (Inr st, demo_files)" by blast
  have rs: "Resolve (app_devices ?E) (pr_Target demo_request) demo_files = (Inr ?t, demo_files)"
    by (simp add: Resolve_def demo_request_def target_IsZero_def normalizeTarget_def DefaultRemotePort_def)
  have "tj_MarshalIndent (ae_json ?E) ?t = Inr ''tv''" by (simp add: demo_app_def)
  from demo_save [OF this] obtain w' where sv: "target_Save (ae_json ?E) ?t demo_files = (None, w')"
    "fs_fault w' = fs_fault demo_files" by blast
  have "SaveDefault (app_devices ?E) ?t demo_files = (None, w')"
    by (simp add: SaveDefault_def xdg_TargetStore_def sv normalizeTarget_def)
  with st rs sv(2) show ?thesis by (simp add: ctl_Pair_def demo_request_def)
qed

theorem pair_then_load_witness:
  "\<exists>st w'. ctl_Pair ascii_unicode (buildController demo_app) demo_request demo_files = ((st, None), w') \<and>
    rs_Target (fst (fst (ctl_Load (buildController demo_app) \<lparr>lr_Target = None\<rparr> w'))) = paired_target"
proof -
  obtain st w' where p: "ctl_Pair ascii_unicode (buildController demo_app) demo_request demo_files = ((st, None), w')"
    "fs_fault w' = fs_fault demo_files"
    using demo_pairs by blast
  have r: "Resolve (app_devices demo_app) (pr_Target demo_request) demo_files = (Inr paired_target, demo_files)"
    by (simp add: Resolve_def demo_request_def target_IsZero_def normalizeTarget_def DefaultRemotePort_def
        paired_target_def)
  have n: "normalizeTarget paired_target 6466 = paired_target" by (simp add: normalizeTarget_def paired_target_def)
  have fo: "files_only (pr_CodeProvider demo_request)" by (simp add: files_only_def demo_request_def)
  have sb: "target_storable (ae_json demo_app) (normalizeTarget t 6466)"
    if "Resolve (app_devices demo_app) (pr_Target demo_request) demo_files = (Inr t, w1)" for t w1
    using that r by (simp add: n target_storable_def demo_app_def)
  have rd: "target_readable w'" using p(2) by (simp add: target_readable_def demo_files_def split: sum.split)
  from pair_then_load [OF p(1) fo sb rd] p(1) r show ?thesis by (auto simp: n)
qed

definition sleepy_files :: atv_world where
  "sleepy_files = demo_files\<lparr>fs_files := (fs_files demo_files)(''/c/shrmt/beyonder-client-cert.pem'' \<mapsto> (''c'', 384),
     ''/c/shrmt/beyonder-client-key.pem'' \<mapsto> (''k'', 384))\<rparr>"

text \<open>A sender that fails, and breaks the session, on every call the program never makes.\<close>

definition picky_sender :: "app_env \<Rightarrow> atv_world sender" where
  "picky_sender E = (let sn = app_sender E in
     sn\<lparr>sn_Send := (\<lambda>t c a w. if usable 6466 t \<and> \<not> creds_IsZero c then sn_Send sn t c a w
          else (Inl ErrRemoteNotReady, w\<lparr>aw_session := None\<rparr>))\<rparr>)"

theorem app_send_usable_witness:
  "\<exists>t creds w1 r w'. usable 6466 t \<and> \<not> creds_IsZero creds \<and>
    sn_Send (app_sender demo_app) t creds Power w1 = (Inr r, w' :: atv_world) \<and>
    ctl_Send (with_sender demo_app (picky_sender demo_app)) \<lparr>sq_Target = Some tv_target, sq_Action = Power\<rparr> sleepy_files
      = (Inr r, w')"
proof -
  have ag: "agree_usable (picky_sender demo_app) (app_sender demo_app)"
    by (simp add: agree_usable_def picky_sender_def Let_def)
  let ?r = "\<lparr>sr_Action = Power, sr_SupportedFeatures = 0, sr_ActiveFeatures = 0, sr_Powered = None\<rparr>"
  have cr: "creds_Load sleepy_files = (Inr demo_creds, sleepy_files)" "creds_Exists demo_creds sleepy_files = Inr True"
    "\<not> creds_IsZero demo_creds"
    by (simp_all add: creds_IsZero_def creds_Load_def creds_Exists_def creds_Default_def credentialsForApp_def configPath_def demo_joins
        demo_creds_def demo_files_def sleepy_files_def fileExists_def os_Stat_def) (simp add: appDirName_def)
  have j: "path_Join [''/c'', ''shrmt''] = ''/c/shrmt''" using demo_joins(1) by (simp add: appDirName_def)
  have ld: "LoadCredentials (pe_crypto (ae_power demo_app)) sleepy_files = Inr (Some plain_certificate)"
    by (simp add: LoadCredentials_def sleepy_files_def demo_files_def bey_configDir_def os_ReadFile_def
        demo_app_def j plain_paths)
  have rs: "Resolve (app_devices demo_app) (Some tv_target) sleepy_files = (Inr tv_target, sleepy_files)"
    by (simp add: Resolve_def target_IsZero_def normalizeTarget_def tv_target_def)
  have s: "ctl_Send (buildController demo_app) \<lparr>sq_Target = Some tv_target, sq_Action = Power\<rparr> sleepy_files =
      (Inr ?r, sleepy_files\<lparr>aw_now := aw_now sleepy_files + 1\<rparr>)"
    using sleep_example
    by (simp add: ctl_Send_def remote_Send_def resolveTargetAndCredentials_def rs pairing_Credentials_def
        xdg_CredentialStore_def cr app_sender_def power_sender_def power_Send_def ld) (auto simp: demo_app_def)
  from app_send_usable [OF ag, where req = "\<lparr>sq_Target = Some tv_target, sq_Action = Power\<rparr>" and w = sleepy_files]
  show ?thesis unfolding s send_request.simps by blast
qed

end
