(* ===== verification/Shrmt_Program.thy ===== *)
theory Shrmt_Program
  imports Shrmt_Main
begin

text \<open>
  The program as a process: \<open>main\<close> of \<open>cmd/shrmt/main.go\<close> with the command tree of \<open>NewRoot\<close>. What the
  library \<open>cobra\<close> makes of the arguments is one call of a command, or its own doing (a help text, a usage
  error); the window is what its run leaves. A process starts with a sender that has no session, so that
  only the files outlive it.
\<close>

datatype cli_call =
    Call_discover bool
  | Call_pair string int string
  | Call_key string int string
  | Call_power string int
  | Call_library "printed \<times> goerr option"

record 'w program =
  pg_app :: app_env
  pg_unicode :: unicode
  pg_Encode :: "device list \<Rightarrow> string res"
  pg_stdin :: "'w line_reader"
  pg_cobra :: "string list \<Rightarrow> cli_call"
  pg_gtk :: "'w controller \<Rightarrow> 'w \<Rightarrow> int \<times> 'w"
  pg_Error :: "goerr \<Rightarrow> string"

definition new_process :: "'a atv_world_scheme \<Rightarrow> 'a atv_world_scheme" where
  "new_process w = w\<lparr>aw_session := None, aw_config := zero_config\<rparr>"

definition root_Execute ::
  "'w program \<Rightarrow> 'w controller \<Rightarrow> cli_call \<Rightarrow> 'w \<Rightarrow> (printed \<times> goerr option) \<times> 'w" where
  "root_Execute P ctrl call w =
     (case call of
        Call_discover asJSON \<Rightarrow> cmd_discover (pg_Encode P) ctrl asJSON w
      | Call_pair host port c \<Rightarrow> cmd_pair (pg_unicode P) (pg_stdin P) ctrl host port c w
      | Call_key host port arg \<Rightarrow> cmd_key (pg_unicode P) ctrl host port arg w
      | Call_power host port \<Rightarrow> cmd_power ctrl host port w
      | Call_library r \<Rightarrow> (r, w))"

text \<open>The exit code, what was printed, and the world that is left.\<close>

definition shrmt_main ::
  "'a atv_world_scheme program \<Rightarrow> string list \<Rightarrow> 'a atv_world_scheme \<Rightarrow> (int \<times> printed) \<times> 'a atv_world_scheme" where
  "shrmt_main P args w =
     (let w = new_process w; ctrl = buildController (pg_app P) in
      if shouldRunCLI (pg_unicode P) args
      then (case root_Execute P ctrl (pg_cobra P args) w of
              ((out, Some err), w) \<Rightarrow> ((1, out @ [(''%v'', [FS (pg_Error P err)])]), w)
            | ((out, None), w) \<Rightarrow> ((0, out), w))
      else (case pg_gtk P ctrl w of (code, w) \<Rightarrow> ((code, []), w)))"

section \<open>Lemmas\<close>

lemma shouldRunCLI_commands:
  "shouldRunCLI u (''pair'' # rest)" "shouldRunCLI u (''key'' # rest)" "shouldRunCLI u (''power'' # rest)"
proof -
  have "is_ascii s \<and> map lower_char s = s" if "s \<in> set [''pair'', ''key'', ''power'']" for s
  proof -
    have "list_all (\<lambda>s. is_ascii s \<and> map lower_char s = s) [''pair'', ''key'', ''power'']" by code_simp
    with that show ?thesis unfolding list_all_iff by blast
  qed
  then have "ToLower u ''pair'' = ''pair''" "ToLower u ''key'' = ''key''" "ToLower u ''power'' = ''power''"
    by (simp_all add: ToLower_def del: list.map)
  then show "shouldRunCLI u (''pair'' # rest)" "shouldRunCLI u (''key'' # rest)" "shouldRunCLI u (''power'' # rest)"
    by (simp_all add: shouldRunCLI_def)
qed

lemma main_Call:
  assumes "shrmt_main P args w = ((0, out), w')" "shouldRunCLI (pg_unicode P) args" "pg_cobra P args = call"
  shows "root_Execute P (buildController (pg_app P)) call (new_process w) = ((out, None), w')"
  using assms by (auto simp: shrmt_main_def Let_def split: prod.splits option.splits)

text \<open>A \<open>pair\<close> command that succeeds is a pairing of the controller that succeeded.\<close>

lemma cmd_pair_ok:
  assumes "root_Execute P ctrl (Call_pair host port c) w = ((out, None), w')" "\<And>w. snd (pg_stdin P w) = w"
  shows "\<exists>req st. pr_Target req = explicitTarget host port \<and> files_only (pr_CodeProvider req) \<and>
    ctl_Pair (pg_unicode P) ctrl req w = ((st, None), w')"
proof -
  let ?req = "\<lparr>pr_Target = explicitTarget host port, pr_Code = [], pr_CodeProvider = None\<rparr>"
  let ?rc = "readCode (pg_unicode P) (pg_stdin P)"
  have rc: "snd (?rc raw v) = v" for raw v
    using assms(2) [of v] by (auto simp: readCode_def split: prod.split option.split)
  show ?thesis
  proof (cases "TrimSpace c = []")
    case True
    let ?r = "?req\<lparr>pr_CodeProvider := Some (?rc [])\<rparr>"
    have "files_only (pr_CodeProvider ?r)" using rc by (simp add: files_only_def)
    moreover have "\<exists>st. ctl_Pair (pg_unicode P) ctrl ?r w = ((st, None), w')"
      using assms(1) True by (auto simp: root_Execute_def cmd_pair_def Let_def split: prod.splits option.splits)
    ultimately show ?thesis by (intro exI [of _ ?r]) auto
  next
    case False
    then obtain code where "?rc c w = (Inr code, w)"
      using assms(1) by (auto simp: root_Execute_def cmd_pair_def Let_def readCode_def split: prod.splits sum.splits)
    with False assms(1) have "\<exists>st. ctl_Pair (pg_unicode P) ctrl (?req\<lparr>pr_Code := code\<rparr>) w = ((st, None), w')"
      by (auto simp: root_Execute_def cmd_pair_def Let_def split: prod.splits option.splits)
    then show ?thesis by (intro exI [of _ "?req\<lparr>pr_Code := code\<rparr>"]) (auto simp: files_only_def)
  qed
qed

text \<open>What of the world says that the remote is ready: the saved target and the credentials.\<close>

definition ready :: "app_env \<Rightarrow> target \<Rightarrow> credentials \<Rightarrow> 'a atv_world_scheme \<Rightarrow> bool" where
  "ready E t creds w \<longleftrightarrow>
     (\<exists>path. targetPath w = Inr path \<and> loadTarget (ae_json E) w path = Inr t) \<and>
     creds_Default w = Inr creds \<and> creds_Exists creds w = Inr True \<and> \<not> creds_IsZero creds"

lemma new_process_fs:
  "fs_configDir (new_process w) = fs_configDir w" "fs_files (new_process w) = fs_files w"
  "fs_dirs (new_process w) = fs_dirs w" "fs_fault (new_process w) = fs_fault w"
  by (simp_all add: new_process_def)

lemma ready_new_process: "ready E t creds (new_process w) \<longleftrightarrow> ready E t creds w"
  unfolding ready_def targetPath_def configPath_def loadTarget_def os_ReadFile_def creds_Default_def
    credentialsForApp_def creds_Exists_def fileExists_def os_Stat_def new_process_fs ..

lemma ready_resolves:
  assumes "ready E t creds w"
  shows "resolveTargetAndCredentials (app_devices E) (app_pairing E) None w =
    (Inr (normalizeTarget t DefaultRemotePort, creds), w)"
proof -
  from assms have "target_Load (ae_json E) w = (Inr t, w)" and c: "creds_Load w = (Inr creds, w)"
    by (auto simp: ready_def creds_Load_def intro: target_Load_primary)
  then have "Resolve (app_devices E) None w = (Inr (normalizeTarget t DefaultRemotePort), w)"
    by (simp add: Resolve_def xdg_TargetStore_def)
  with assms c show ?thesis
    by (simp add: resolveTargetAndCredentials_def pairing_Credentials_def xdg_CredentialStore_def ready_def)
qed

lemma pair_ready:
  assumes "ctl_Pair u (buildController E) req w = ((st, None), w')" "files_only (pr_CodeProvider req)"
    and "\<And>t w1. Resolve (app_devices E) (pr_Target req) w = (Inr t, w1) \<Longrightarrow>
      target_storable (ae_json E) (normalizeTarget t 6466)"
    and "target_readable w'"
  shows "\<exists>t w1 creds. Resolve (app_devices E) (pr_Target req) w = (Inr t, w1) \<and> usable 6466 t \<and>
    st = \<lparr>ps_Available = True, ps_Credentials = creds\<rparr> \<and> ready E (normalizeTarget t 6466) creds w'"
proof -
  obtain t w1 w2 creds where r: "Resolve (app_devices E) (pr_Target req) w = (Inr t, w1)"
    and c: "creds_Default w2 = Inr creds" "st = \<lparr>ps_Available = True, ps_Credentials = creds\<rparr>"
      "creds_Exists creds w2 = Inr True" "\<not> target_IsZero t"
    and sv: "target_Save (ae_json E) (normalizeTarget t DefaultRemotePort) w2 = (None, w')" and us: "usable 6466 t"
    by (rule ctl_Pair_leaves [OF assms(1,2)])
  have "\<exists>path. targetPath w' = Inr path \<and> loadTarget (ae_json E) w' path = Inr (normalizeTarget t 6466)"
    using target_save_reads [OF _ _ _ assms(4)] sv assms(3) [OF r] c(4) by (simp add: DefaultRemotePort_def)
  then have "ready E (normalizeTarget t 6466) creds w'"
    using saved_credentials(2-4) [OF c(1,3) sv] unfolding ready_def by simp
  with r us c(2) show ?thesis by blast
qed

section \<open>Properties\<close>

text \<open>
  C3: Pair once, then use: after \<open>shrmt pair\<close> ended with exit code 0, with whatever target it was given or
  found, a later \<open>shrmt key\<close> with no target of its own is never refused for want of a target or of a pairing.
  In a new process, which knows nothing but the files, it gives the paired device and the credentials of the
  pairing to the sender, once, and its exit code and output are what the sender says.
\<close>

theorem pair_then_key:
  assumes "shrmt_main P (''pair'' # flags) w = ((0, out), w')"
    and "pg_cobra P (''pair'' # flags) = Call_pair host port c"
    and "pg_cobra P (''key'' # args) = Call_key [] 0 name" and "Parse (pg_unicode P) name = Inr act"
    and "\<And>w. snd (pg_stdin P w) = w"
    and "\<And>t w1. Resolve (app_devices (pg_app P)) (explicitTarget host port) (new_process w) = (Inr t, w1) \<Longrightarrow>
      target_storable (ae_json (pg_app P)) (normalizeTarget t 6466)"
    and "target_readable w'"
  shows "\<exists>t w1 creds. Resolve (app_devices (pg_app P)) (explicitTarget host port) (new_process w) = (Inr t, w1) \<and>
    usable 6466 t \<and> creds_Default w' = Inr creds \<and> creds_Exists creds w' = Inr True \<and>
    shrmt_main P (''key'' # args) w' =
      (case sn_Send (app_sender (pg_app P)) (normalizeTarget t 6466) creds act (new_process w') of
         (Inl err, w2) \<Rightarrow> ((1, [(''%v'', [FS (pg_Error P err)])]), w2)
       | (Inr r, w2) \<Rightarrow> ((0, sent_lines r), w2))"
proof -
  let ?u = "pg_unicode P" and ?E = "pg_app P"
  obtain req st where req: "pr_Target req = explicitTarget host port" "files_only (pr_CodeProvider req)"
    and p: "ctl_Pair ?u (buildController ?E) req (new_process w) = ((st, None), w')"
    using cmd_pair_ok [OF main_Call(1) [OF assms(1) shouldRunCLI_commands(1) assms(2)] assms(5)] by metis
  from pair_ready [OF p req(2) _ assms(7)] assms(6) req(1)
  obtain t w1 creds where t: "Resolve (app_devices ?E) (explicitTarget host port) (new_process w) = (Inr t, w1)"
    "usable 6466 t" "ready ?E (normalizeTarget t 6466) creds w'" by auto
  have "resolveTargetAndCredentials (app_devices ?E) (app_pairing ?E) None (new_process w') =
      (Inr (normalizeTarget t 6466, creds), new_process w')"
    using ready_resolves [of ?E "normalizeTarget t 6466" creds "new_process w'"] t(3)
    by (simp add: ready_new_process DefaultRemotePort_def)
  then have "shrmt_main P (''key'' # args) w' =
      (case sn_Send (app_sender ?E) (normalizeTarget t 6466) creds act (new_process w') of
         (Inl err, w2) \<Rightarrow> ((1, [(''%v'', [FS (pg_Error P err)])]), w2)
       | (Inr r, w2) \<Rightarrow> ((0, sent_lines r), w2))"
    by (simp add: shrmt_main_def shouldRunCLI_commands root_Execute_def assms(3,4) cmd_key_def send_command_def
        explicitTarget_def ctl_Send_def remote_Send_def split: prod.split sum.split)
  with t show ?thesis unfolding ready_def by blast
qed

definition demo_program :: "atv_world program" where
  "demo_program = \<lparr>pg_app = demo_app, pg_unicode = ascii_unicode, pg_Encode = (\<lambda>_. Inr []),
     pg_stdin = (\<lambda>w. (([], None), w)),
     pg_cobra = (\<lambda>args. if hd args = ''pair'' then Call_pair ''tv'' 0 ''A1B2C3'' else Call_key [] 0 ''home''),
     pg_gtk = (\<lambda>_ w. (0, w)), pg_Error = (\<lambda>_. [])\<rparr>"

lemma demo_new: "new_process demo_files = demo_files"
  by (simp add: new_process_def demo_files_def)

lemma demo_explicit: "explicitTarget ''tv'' 0 = Some \<lparr>t_Host = ''tv'', t_Port = 0, t_DeviceID = [], t_Label = ''tv''\<rparr>"
proof -
  have "TrimSpace ''tv'' = ''tv''" by (rule TrimSpace_all) (simp add: edge_char_def)
  then show ?thesis by (simp add: explicitTarget_def Let_def)
qed

lemma demo_resolve:
  "Resolve (app_devices E) (explicitTarget ''tv'' 0) (w :: atv_world) = (Inr paired_target, w)"
  "Resolve (app_devices E) (pr_Target demo_request) w = (Inr paired_target, w)"
  by (simp_all add: demo_explicit Resolve_def target_IsZero_def normalizeTarget_def DefaultRemotePort_def
      paired_target_def demo_request_def)

lemma demo_pair_run:
  "\<exists>out w'. shrmt_main demo_program [''pair''] demo_files = ((0, out), w') \<and> fs_fault w' = fs_fault demo_files"
proof -
  obtain st w' where p: "ctl_Pair ascii_unicode (buildController demo_app) demo_request demo_files = ((st, None), w')"
    "fs_fault w' = fs_fault demo_files"
    using demo_pairs by blast
  let ?req = "\<lparr>pr_Target = explicitTarget ''tv'' 0, pr_Code = ''A1B2C3'', pr_CodeProvider = None\<rparr>"
  have "ctl_Pair ascii_unicode (buildController demo_app) ?req demo_files = ((st, None), w')"
    using p(1) demo_resolve by (simp add: ctl_Pair_def demo_request_def)
  moreover have "TrimSpace ''A1B2C3'' = ''A1B2C3''" by (rule TrimSpace_all) (simp add: edge_char_def)
  moreover have "ParseCode ascii_unicode ''A1B2C3'' = Inr ''A1B2C3''"
    by (subst ParseCode_def, subst TrimSpace_all) (simp add: edge_char_def, code_simp)
  ultimately show ?thesis
    using p(2) by (simp add: shrmt_main_def shouldRunCLI_commands demo_new Let_def root_Execute_def cmd_pair_def
        readCode_def demo_program_def)
qed

theorem pair_then_key_witness:
  "\<exists>out w' creds. shrmt_main demo_program [''pair''] demo_files = ((0, out), w') \<and> creds_Exists creds w' = Inr True \<and>
    shrmt_main demo_program [''key'', ''home''] w' =
      (case sn_Send (app_sender demo_app) paired_target creds Home (new_process w') of
         (Inl err, w2) \<Rightarrow> ((1, [(''%v'', [FS []])]), w2)
       | (Inr r, w2) \<Rightarrow> ((0, sent_lines r), w2))"
proof -
  obtain out w' where m: "shrmt_main demo_program [''pair''] demo_files = ((0, out), w')"
    "fs_fault w' = fs_fault demo_files" using demo_pair_run by blast
  have n: "normalizeTarget paired_target 6466 = paired_target" by (simp add: normalizeTarget_def paired_target_def)
  have c: "pg_cobra demo_program [''pair''] = Call_pair ''tv'' 0 ''A1B2C3''"
    "pg_cobra demo_program [''key'', ''home''] = Call_key [] 0 ''home''"
    "pg_app demo_program = demo_app" "pg_Error demo_program = (\<lambda>_. [])"
    by (simp_all add: demo_program_def)
  have a: "Parse (pg_unicode demo_program) ''home'' = Inr Home" unfolding demo_program_def program.simps by code_simp
  have i: "snd (pg_stdin demo_program w) = w" for w by (simp add: demo_program_def)
  have sb: "target_storable (ae_json demo_app) (normalizeTarget paired_target 6466)"
    by (simp add: n target_storable_def) (simp add: demo_app_def)
  have rd: "target_readable w'" using m(2) by (simp add: target_readable_def demo_files_def split: sum.split)
  have "\<exists>t w1 creds. Resolve (app_devices demo_app) (explicitTarget ''tv'' 0) (new_process demo_files) = (Inr t, w1) \<and>
    usable 6466 t \<and> creds_Default w' = Inr creds \<and> creds_Exists creds w' = Inr True \<and>
    shrmt_main demo_program [''key'', ''home''] w' =
      (case sn_Send (app_sender demo_app) (normalizeTarget t 6466) creds Home (new_process w') of
         (Inl err, w2) \<Rightarrow> ((1, [(''%v'', [FS []])]), w2)
       | (Inr r, w2) \<Rightarrow> ((0, sent_lines r), w2))"
    by (rule pair_then_key [OF m(1) c(1,2) a i _ rd, unfolded c]) (use sb demo_resolve in simp)
  with m(1) n demo_resolve show ?thesis by auto
qed

end
