(* ===== verification/Gtk_App.thy ===== *)
theory Gtk_App
  imports Remote_Core Go_Net
begin

text \<open>
  \<open>adapters/in/gtk/app.go\<close>: the remote in a window. The widgets are GTK's; what the program
  keeps in them (texts, visibility, sensitivity) is the state of the model, from \<open>activate\<close> on,
  when all of them exist. The program's goroutines, the queue of actions with its worker, and
  the callbacks they post to the main loop are steps of a transition relation; a call of the
  controller is one step.
\<close>

section \<open>Texts\<close>

text \<open>The two characters outside ASCII of the status texts, in UTF-8.\<close>

definition ellipsis :: string where "ellipsis = [CHR 0xE2, CHR 0x80, CHR 0xA6]"
definition middot :: string where "middot = '' '' @ [CHR 0xC2, CHR 0xB7] @ '' ''"

definition app_shortcuts :: "(string \<times> string) list" where
  "app_shortcuts = [(''YouTube'', ''com.google.android.youtube.tv''), (''Twitch'', ''tv.twitch.android.app''),
     (''Plex'', ''com.plexapp.android'')]"

fun firstNonEmpty :: "string list \<Rightarrow> string" where
  "firstNonEmpty [] = []"
| "firstNonEmpty (v # vs) = (if TrimSpace v \<noteq> [] then v else firstNonEmpty vs)"

definition targetLabel :: "target \<Rightarrow> string" where
  "targetLabel t =
     (if t_Label t \<noteq> [] \<and> t_Label t \<noteq> t_Host t
      then t_Label t @ '' ('' @ t_Host t @ '':'' @ Itoa (t_Port t) @ '')''
      else t_Host t @ '':'' @ Itoa (t_Port t))"

definition hostPort :: "string \<Rightarrow> (string \<times> int) res" where
  "hostPort raw =
     (case SplitHostPort raw of
        Inl err \<Rightarrow> Inl err
      | Inr (host, portText) \<Rightarrow>
          (case Atoi portText of Inl err \<Rightarrow> Inl err | Inr port \<Rightarrow> Inr (host, port)))"

text \<open>The text of the host entry, or None for no entry.\<close>

definition ui_explicitTarget :: "string option \<Rightarrow> target option" where
  "ui_explicitTarget hostEntry =
     (case hostEntry of
        None \<Rightarrow> None
      | Some txt \<Rightarrow>
          (let host = TrimSpace txt in
           if host = [] then None
           else
             (let (host, port) = (case hostPort host of Inr (h, p) \<Rightarrow> (h, p) | Inl _ \<Rightarrow> (host, 0))
              in Some \<lparr>t_Host = host, t_Port = port, t_DeviceID = [], t_Label = host\<rparr>)))"

section \<open>State\<close>

record queued_action =
  qa_action :: action
  qa_target :: "target option"

text \<open>A goroutine that will call the controller, and the callback it then posts.\<close>

datatype goroutine =
    Go_load "target option"
  | Go_discover
  | Go_select target
  | Go_pair "target option" code
  | Go_launch string string "target option"

datatype callback =
    Cb_loaded "remote_state \<times> goerr option"
  | Cb_discovered "device list res"
  | Cb_saved "goerr option"
  | Cb_paired "pairing_state \<times> goerr option"
  | Cb_launched string "goerr option"
  | Cb_sending action int
  | Cb_sent "send_result res" int

datatype worker = W_waiting | W_sending queued_action | W_reporting "send_result res"

text \<open>
  \<open>ga_queue\<close> is the channel, None for nil; \<open>ga_sending\<close> is a call of \<open>sendAsync\<close> between its two
  atomic operations, with the depth it has read.
\<close>

record 'w gtk_app =
  ga_host :: string
  ga_pair :: string
  ga_targetVisible :: bool
  ga_pairVisible :: bool
  ga_status :: string
  ga_targetText :: string
  ga_sensitive :: bool
  ga_queue :: "queued_action list option"
  ga_depth :: int
  ga_sending :: "(queued_action \<times> int) option"
  ga_worker :: worker
  ga_goroutines :: "goroutine list"
  ga_posted :: "callback list"
  ga_quit :: bool
  ga_world :: 'w

text \<open>\<open>error.Error\<close> and the key values of \<open>gdk\<close> are arguments.\<close>

datatype gdk_key = KEY_Escape | KEY_BackSpace | KEY_Left | KEY_Right | KEY_Up | KEY_Down
  | KEY_Return | KEY_KP_Enter | KEY_space | KEY_h | KEY_H | KEY_p | KEY_P | KEY_Menu | KEY_comma
  | KEY_period | KEY_m | KEY_M | KEY_plus | KEY_KP_Add | KEY_minus | KEY_KP_Subtract

record 'w gtk_env =
  ge_ctrl :: "'w controller"
  ge_unicode :: unicode
  ge_Error :: "goerr \<Rightarrow> string"
  ge_key :: "gdk_key \<Rightarrow> nat"

section \<open>Operations\<close>

definition setStatus :: "string \<Rightarrow> 'w gtk_app \<Rightarrow> 'w gtk_app" where
  "setStatus txt s = s\<lparr>ga_status := txt\<rparr>"

definition setBusy :: "bool \<Rightarrow> 'w gtk_app \<Rightarrow> 'w gtk_app" where
  "setBusy busy s = s\<lparr>ga_sensitive := \<not> busy\<rparr>"

definition start_go :: "goroutine \<Rightarrow> 'w gtk_app \<Rightarrow> 'w gtk_app" where
  "start_go g s = s\<lparr>ga_goroutines := ga_goroutines s @ [g]\<rparr>"

definition refreshStateAsync :: "'w gtk_app \<Rightarrow> 'w gtk_app" where
  "refreshStateAsync s = start_go (Go_load (ui_explicitTarget (Some (ga_host s)))) (setBusy True s)"

definition discoverAsync :: "'w gtk_app \<Rightarrow> 'w gtk_app" where
  "discoverAsync s = start_go Go_discover (setStatus (''Discovering devices'' @ ellipsis) (setBusy True s))"

definition saveTargetAsync :: "'w gtk_app \<Rightarrow> 'w gtk_app" where
  "saveTargetAsync s =
     (case ui_explicitTarget (Some (ga_host s)) of
        None \<Rightarrow> setStatus ''Enter a host or IP first'' s
      | Some t \<Rightarrow> start_go (Go_select t) (setBusy True s))"

definition pairAsync :: "'w gtk_env \<Rightarrow> 'w gtk_app \<Rightarrow> 'w gtk_app" where
  "pairAsync E s =
     (case ParseCode (ge_unicode E) (ga_pair s) of
        Inl err \<Rightarrow> setStatus (ge_Error E err) s
      | Inr code \<Rightarrow>
          start_go (Go_pair (ui_explicitTarget (Some (ga_host s))) code)
            (setStatus (''Pairing'' @ ellipsis @ '' check the TV'') (setBusy True s)))"

definition launchAsync :: "string \<Rightarrow> string \<Rightarrow> 'w gtk_app \<Rightarrow> 'w gtk_app" where
  "launchAsync label link s =
     start_go (Go_launch label link (ui_explicitTarget (Some (ga_host s))))
       (setStatus (''Launching '' @ label @ ellipsis) (setBusy True s))"

text \<open>\<open>sendAsync\<close>: its atomic \<open>Add\<close>, and the \<open>select\<close> that enqueues or gives up.\<close>

definition actionQueue_cap :: nat where "actionQueue_cap = 64"

definition sendAsync_add :: "action \<Rightarrow> 'w gtk_app \<Rightarrow> 'w gtk_app" where
  "sendAsync_add act s =
     (case ga_queue s of
        None \<Rightarrow> setStatus ''Action queue unavailable'' s
      | Some _ \<Rightarrow>
          (let t = ui_explicitTarget (Some (ga_host s)); depth = ga_depth s + 1
           in s\<lparr>ga_depth := depth, ga_sending := Some (\<lparr>qa_action = act, qa_target = t\<rparr>, depth)\<rparr>))"

definition sendAsync_select :: "queued_action \<Rightarrow> int \<Rightarrow> queued_action list \<Rightarrow> 'w gtk_app \<Rightarrow> 'w gtk_app" where
  "sendAsync_select q depth qs s =
     (let s = s\<lparr>ga_sending := None\<rparr> in
      if length qs < actionQueue_cap then
        setStatus (if depth = 1 then ''Queued '' @ qa_action q
                   else ''Queued '' @ qa_action q @ middot @ Itoa depth @ '' pending'')
          (s\<lparr>ga_queue := Some (qs @ [q])\<rparr>)
      else setStatus ''Action queue full'' (s\<lparr>ga_depth := ga_depth s - 1\<rparr>))"

definition applyPairingState :: "pairing_state \<Rightarrow> 'w gtk_app \<Rightarrow> 'w gtk_app" where
  "applyPairingState state s =
     (let s = s\<lparr>ga_pairVisible := \<not> ps_Available state\<rparr> in
      if ps_Available state then setStatus (''Paired ('' @ cr_Source (ps_Credentials state) @ '')'') s
      else setStatus ''Not paired'' s)"

definition applyRemoteState :: "remote_state \<Rightarrow> 'w gtk_app \<Rightarrow> 'w gtk_app" where
  "applyRemoteState state s =
     (let s = (if rs_HasTarget state then
                 (if TrimSpace (ga_host s) = [] then s\<lparr>ga_host := t_Host (rs_Target state)\<rparr> else s)
                   \<lparr>ga_targetText := ''Target: '' @ targetLabel (rs_Target state)\<rparr>
               else s\<lparr>ga_targetText := ''Target: none''\<rparr>);
          s = s\<lparr>ga_targetVisible := \<not> rs_SavedTarget state\<rparr>
      in applyPairingState (rs_Pairing state) s)"

section \<open>Goroutines and callbacks\<close>

definition post :: "callback \<Rightarrow> 'w gtk_app \<Rightarrow> 'w gtk_app" where
  "post cb s = s\<lparr>ga_posted := ga_posted s @ [cb]\<rparr>"

fun call_controller :: "'w gtk_env \<Rightarrow> goroutine \<Rightarrow> 'w \<Rightarrow> callback \<times> 'w" where
  "call_controller E (Go_load t) w =
     (case ctl_Load (ge_ctrl E) \<lparr>lr_Target = t\<rparr> w of (r, w) \<Rightarrow> (Cb_loaded r, w))"
| "call_controller E Go_discover w = (case ctl_Discover (ge_ctrl E) w of (r, w) \<Rightarrow> (Cb_discovered r, w))"
| "call_controller E (Go_select t) w =
     (case ctl_SelectTarget (ge_ctrl E) \<lparr>str_Target = t\<rparr> w of (r, w) \<Rightarrow> (Cb_saved r, w))"
| "call_controller E (Go_pair t code) w =
     (case ctl_Pair (ge_unicode E) (ge_ctrl E) \<lparr>pr_Target = t, pr_Code = code, pr_CodeProvider = None\<rparr> w of
        (r, w) \<Rightarrow> (Cb_paired r, w))"
| "call_controller E (Go_launch label link t) w =
     (case ctl_Launch (ge_ctrl E) \<lparr>lq_Target = t, lq_Link = link\<rparr> w of (r, w) \<Rightarrow> (Cb_launched label r, w))"

definition discovered :: "'w gtk_env \<Rightarrow> device list \<Rightarrow> 'w gtk_app \<Rightarrow> 'w gtk_app" where
  "discovered E devices s =
     (case devices of
        [] \<Rightarrow> setStatus ''No devices found'' s
      | [dev] \<Rightarrow>
          (case TargetFromDevice dev 0 of
             Inl err \<Rightarrow> setStatus (ge_Error E err) s
           | Inr t \<Rightarrow>
               (case ctl_SelectTarget (ge_ctrl E) \<lparr>str_Target = t\<rparr> (ga_world s) of
                  (Some err, w) \<Rightarrow> setStatus (ge_Error E err) (s\<lparr>ga_world := w\<rparr>)
                | (None, w) \<Rightarrow>
                    refreshStateAsync
                      (setStatus (''Discovered '' @ firstNonEmpty [dev_Instance dev, dev_HostName dev, targetLabel t])
                        (s\<lparr>ga_world := w, ga_host := t_Host t\<rparr>))))
      | _ \<Rightarrow>
          setStatus (''Found '' @ Itoa (int (length devices)) @ '' devices: '' @
            JoinStr '', '' (map (\<lambda>dev. firstNonEmpty [dev_Instance dev, dev_HostName dev]) devices)) s)"

definition queued_text :: "int \<Rightarrow> string" where
  "queued_text n = (if 0 < n then middot @ Itoa n @ '' queued'' else [])"

text \<open>The callbacks, each as in the goroutine that posts it, and the main loop's call of one.\<close>

definition on_loaded :: "'w gtk_env \<Rightarrow> remote_state \<Rightarrow> goerr option \<Rightarrow> 'w gtk_app \<Rightarrow> 'w gtk_app" where
  "on_loaded E state err s =
     (let s = setBusy False s in
      case err of Some e \<Rightarrow> setStatus (ge_Error E e) s | None \<Rightarrow> applyRemoteState state s)"

definition on_discovered :: "'w gtk_env \<Rightarrow> device list res \<Rightarrow> 'w gtk_app \<Rightarrow> 'w gtk_app" where
  "on_discovered E r s =
     (let s = setBusy False s in
      case r of Inl e \<Rightarrow> setStatus (ge_Error E e) s | Inr devices \<Rightarrow> discovered E devices s)"

definition on_saved :: "'w gtk_env \<Rightarrow> goerr option \<Rightarrow> 'w gtk_app \<Rightarrow> 'w gtk_app" where
  "on_saved E err s =
     (let s = setBusy False s in
      case err of
        Some e \<Rightarrow> setStatus (ge_Error E e) s
      | None \<Rightarrow> refreshStateAsync (setStatus ''Saved target'' s))"

definition on_paired :: "'w gtk_env \<Rightarrow> pairing_state \<Rightarrow> goerr option \<Rightarrow> 'w gtk_app \<Rightarrow> 'w gtk_app" where
  "on_paired E state err s =
     (let s = setBusy False s in
      case err of
        Some e \<Rightarrow> setStatus (ge_Error E e) s
      | None \<Rightarrow> refreshStateAsync (applyPairingState state (s\<lparr>ga_pair := []\<rparr>)))"

definition on_launched :: "'w gtk_env \<Rightarrow> string \<Rightarrow> goerr option \<Rightarrow> 'w gtk_app \<Rightarrow> 'w gtk_app" where
  "on_launched E label err s =
     (let s = setBusy False s in
      case err of Some e \<Rightarrow> setStatus (ge_Error E e) s | None \<Rightarrow> setStatus (''Launched '' @ label) s)"

definition on_sending :: "action \<Rightarrow> int \<Rightarrow> 'w gtk_app \<Rightarrow> 'w gtk_app" where
  "on_sending act pending s = setStatus (''Sending '' @ act @ ellipsis @ queued_text (pending - 1)) s"

definition on_sent :: "'w gtk_env \<Rightarrow> send_result res \<Rightarrow> int \<Rightarrow> 'w gtk_app \<Rightarrow> 'w gtk_app" where
  "on_sent E r remaining s =
     (case r of
        Inl e \<Rightarrow> setStatus (ge_Error E e @ queued_text remaining) s
      | Inr result \<Rightarrow>
          setStatus (''Sent '' @ sr_Action result @
            (case sr_Powered result of None \<Rightarrow> [] | Some b \<Rightarrow> middot @ ''power='' @ (if b then ''true'' else ''false'')) @
            queued_text remaining) s)"

fun run_callback :: "'w gtk_env \<Rightarrow> callback \<Rightarrow> 'w gtk_app \<Rightarrow> 'w gtk_app" where
  "run_callback E (Cb_loaded (state, err)) s = on_loaded E state err s"
| "run_callback E (Cb_discovered r) s = on_discovered E r s"
| "run_callback E (Cb_saved err) s = on_saved E err s"
| "run_callback E (Cb_paired (state, err)) s = on_paired E state err s"
| "run_callback E (Cb_launched label err) s = on_launched E label err s"
| "run_callback E (Cb_sending act pending) s = on_sending act pending s"
| "run_callback E (Cb_sent r remaining) s = on_sent E r remaining s"

lemmas callback_defs [simp] = on_loaded_def on_discovered_def on_saved_def on_paired_def on_launched_def
  on_sending_def on_sent_def

text \<open>The three steps of the action worker: taking an action, sending it, and reporting.\<close>

definition worker_take :: "queued_action \<Rightarrow> queued_action list \<Rightarrow> 'w gtk_app \<Rightarrow> 'w gtk_app" where
  "worker_take q qs s =
     post (Cb_sending (qa_action q) (ga_depth s)) (s\<lparr>ga_queue := Some qs, ga_worker := W_sending q\<rparr>)"

definition worker_send :: "'w gtk_env \<Rightarrow> queued_action \<Rightarrow> 'w gtk_app \<Rightarrow> 'w gtk_app" where
  "worker_send E q s =
     (case ctl_Send (ge_ctrl E) \<lparr>sq_Target = qa_target q, sq_Action = qa_action q\<rparr> (ga_world s) of
        (r, w) \<Rightarrow> s\<lparr>ga_world := w, ga_worker := W_reporting r\<rparr>)"

definition worker_report :: "send_result res \<Rightarrow> 'w gtk_app \<Rightarrow> 'w gtk_app" where
  "worker_report r s =
     (let remaining = ga_depth s - 1
      in post (Cb_sent r remaining) (s\<lparr>ga_depth := remaining, ga_worker := W_waiting\<rparr>))"

text \<open>The switch of the key controller: what a key value does.\<close>

datatype key_effect = Quit | Press action

definition key_effects :: "(gdk_key \<Rightarrow> nat) \<Rightarrow> (nat \<times> key_effect) list" where
  "key_effects key =
     [(key KEY_Escape, Quit), (key KEY_BackSpace, Press Back), (key KEY_Left, Press Left),
      (key KEY_Right, Press Right), (key KEY_Up, Press Up), (key KEY_Down, Press Down),
      (key KEY_Return, Press Enter), (key KEY_KP_Enter, Press Enter), (key KEY_space, Press Enter),
      (key KEY_h, Press Home), (key KEY_H, Press Home), (key KEY_p, Press PlayPause),
      (key KEY_P, Press PlayPause), (key KEY_Menu, Press Menu), (key KEY_comma, Press Rewind),
      (key KEY_period, Press FastForward), (key KEY_m, Press Mute), (key KEY_M, Press Mute),
      (key KEY_plus, Press VolumeUp), (key KEY_KP_Add, Press VolumeUp), (key KEY_minus, Press VolumeDown),
      (key KEY_KP_Subtract, Press VolumeDown)]"

definition keyPressed :: "'w gtk_env \<Rightarrow> nat \<Rightarrow> 'w gtk_app \<Rightarrow> bool \<times> 'w gtk_app" where
  "keyPressed E keyval s =
     (case map_of (key_effects (ge_key E)) keyval of
        Some Quit \<Rightarrow> (True, s\<lparr>ga_quit := True\<rparr>)
      | Some (Press act) \<Rightarrow> (True, sendAsync_add act s)
      | None \<Rightarrow> (False, s))"

text \<open>The action buttons that \<open>buildUI\<close> makes, by their labels up to symbols outside ASCII.\<close>

definition button_actions :: "action list" where
  "button_actions = [Power, VolumeDown, Mute, VolumeUp, Up, Left, Enter, Right, Down, Back, Home, Menu,
     Rewind, PlayPause, FastForward]"

text \<open>\<open>Run\<close> and \<open>activate\<close>: the state before the first event.\<close>

definition activated :: "'w \<Rightarrow> 'w gtk_app" where
  "activated w =
     refreshStateAsync \<lparr>ga_host = [], ga_pair = [], ga_targetVisible = True, ga_pairVisible = True,
       ga_status = ''Ready'', ga_targetText = ''Target: resolving'' @ ellipsis, ga_sensitive = True,
       ga_queue = Some [], ga_depth = 0, ga_sending = None, ga_worker = W_waiting, ga_goroutines = [],
       ga_posted = [], ga_quit = False, ga_world = w\<rparr>"

section \<open>The transition relation\<close>

datatype ui_event =
    U_key nat | U_button action | U_shortcut string string | U_discover | U_save | U_pair | U_close
  | U_host string | U_code string
  | U_callback | U_accept queued_action | U_reject queued_action
  | U_take | U_send queued_action | U_report | U_call goroutine

text \<open>
  The first group of rules are events of the main loop, which is not in the middle of
  \<open>sendAsync\<close>; an insensitive button cannot be pressed, but keys still work. The second group
  are the steps that the program takes on its own.
\<close>

inductive ui_step :: "'w gtk_env \<Rightarrow> 'w gtk_app \<Rightarrow> ui_event \<Rightarrow> 'w gtk_app \<Rightarrow> bool" for E where
  Key: "ga_sending s = None \<Longrightarrow> ui_step E s (U_key k) (snd (keyPressed E k s))"
| Button: "ga_sending s = None \<Longrightarrow> ga_sensitive s \<Longrightarrow> act \<in> set button_actions \<Longrightarrow>
    ui_step E s (U_button act) (sendAsync_add act s)"
| Shortcut: "ga_sending s = None \<Longrightarrow> ga_sensitive s \<Longrightarrow> (label, link) \<in> set app_shortcuts \<Longrightarrow>
    ui_step E s (U_shortcut label link) (launchAsync label link s)"
| Discover: "ga_sending s = None \<Longrightarrow> ui_step E s U_discover (discoverAsync s)"
| Save: "ga_sending s = None \<Longrightarrow> ui_step E s U_save (saveTargetAsync s)"
| Pair: "ga_sending s = None \<Longrightarrow> ui_step E s U_pair (pairAsync E s)"
| Close: "ga_sending s = None \<Longrightarrow> ui_step E s U_close (s\<lparr>ga_quit := True\<rparr>)"
| Host: "ga_sending s = None \<Longrightarrow> ui_step E s (U_host txt) (s\<lparr>ga_host := txt\<rparr>)"
| Code: "ga_sending s = None \<Longrightarrow> ui_step E s (U_code txt) (s\<lparr>ga_pair := txt\<rparr>)"
| Callback: "ga_sending s = None \<Longrightarrow> ga_posted s = cb # cbs \<Longrightarrow>
    ui_step E s U_callback (run_callback E cb (s\<lparr>ga_posted := cbs\<rparr>))"
| Accept: "ga_sending s = Some (q, depth) \<Longrightarrow> ga_queue s = Some qs \<Longrightarrow> length qs < actionQueue_cap \<Longrightarrow>
    ui_step E s (U_accept q) (sendAsync_select q depth qs s)"
| Reject: "ga_sending s = Some (q, depth) \<Longrightarrow> ga_queue s = Some qs \<Longrightarrow> \<not> length qs < actionQueue_cap \<Longrightarrow>
    ui_step E s (U_reject q) (sendAsync_select q depth qs s)"
| Take: "ga_worker s = W_waiting \<Longrightarrow> ga_queue s = Some (q # qs) \<Longrightarrow> ui_step E s U_take (worker_take q qs s)"
| Send: "ga_worker s = W_sending q \<Longrightarrow> ui_step E s (U_send q) (worker_send E q s)"
| Report: "ga_worker s = W_reporting r \<Longrightarrow> ui_step E s U_report (worker_report r s)"
| Call: "ga_goroutines s = gs @ g # gs' \<Longrightarrow> call_controller E g (ga_world s) = (cb, w) \<Longrightarrow>
    ui_step E s (U_call g) (post cb (s\<lparr>ga_goroutines := gs @ gs', ga_world := w\<rparr>))"

inductive ui_run :: "'w gtk_env \<Rightarrow> 'w gtk_app \<Rightarrow> ui_event list \<Rightarrow> 'w gtk_app \<Rightarrow> bool" for E s where
  Start: "ui_run E s [] s"
| Step: "ui_run E s tr s' \<Longrightarrow> ui_step E s' ev s'' \<Longrightarrow> ui_run E s (tr @ [ev]) s''"

text \<open>The same run with the states between its events, and the two ways of writing it.\<close>

type_synonym 'w ui_trace = "('w gtk_app \<times> ui_event \<times> 'w gtk_app) list"

inductive ui_path :: "'w gtk_env \<Rightarrow> 'w gtk_app \<Rightarrow> 'w ui_trace \<Rightarrow> 'w gtk_app \<Rightarrow> bool" for E s where
  Path_start: "ui_path E s [] s"
| Path_step: "ui_path E s ts s' \<Longrightarrow> ui_step E s' ev s'' \<Longrightarrow> ui_path E s (ts @ [(s', ev, s'')]) s''"

abbreviation events :: "'w ui_trace \<Rightarrow> ui_event list" where
  "events ts \<equiv> map (\<lambda>(s, ev, s'). ev) ts"

lemma ui_path_run: "ui_path E s ts s' \<Longrightarrow> ui_run E s (events ts) s'"
  by (induction rule: ui_path.induct) (auto intro: ui_run.intros)

lemma ui_run_path: "ui_run E s tr s' \<Longrightarrow> \<exists>ts. ui_path E s ts s' \<and> events ts = tr"
proof (induction rule: ui_run.induct)
  case Start
  show ?case using Path_start by fastforce
next
  case (Step tr s' ev s'')
  then obtain ts where "ui_path E s ts s'" "events ts = tr" by blast
  with Path_step [OF this(1) Step.hyps(2)] show ?case by (intro exI [of _ "ts @ [(s', ev, s'')]"]) simp
qed

text \<open>The steps of the program's own, without the user.\<close>

fun internal :: "ui_event \<Rightarrow> bool" where
  "internal U_callback = True"
| "internal (U_accept q) = True"
| "internal (U_reject q) = True"
| "internal U_take = True"
| "internal (U_send q) = True"
| "internal U_report = True"
| "internal (U_call g) = True"
| "internal _ = False"

section \<open>Lemmas\<close>

text \<open>The queue of a state, and the actions that were accepted but not sent yet.\<close>

definition queued :: "'w gtk_app \<Rightarrow> queued_action list" where
  "queued s = (case ga_queue s of None \<Rightarrow> [] | Some qs \<Rightarrow> qs)"

definition in_hand :: "'w gtk_app \<Rightarrow> queued_action list" where
  "in_hand s = (case ga_worker s of W_sending q \<Rightarrow> [q] | _ \<Rightarrow> []) @ queued s"

fun accepted :: "ui_event list \<Rightarrow> queued_action list" where
  "accepted [] = []"
| "accepted (U_accept q # tr) = q # accepted tr"
| "accepted (_ # tr) = accepted tr"

fun sent :: "ui_event list \<Rightarrow> queued_action list" where
  "sent [] = []"
| "sent (U_send q # tr) = q # sent tr"
| "sent (_ # tr) = sent tr"

lemma accepted_append [simp]: "accepted (a @ b) = accepted a @ accepted b"
  by (induction a rule: accepted.induct) auto

lemma sent_append [simp]: "sent (a @ b) = sent a @ sent b"
  by (induction a rule: sent.induct) auto

text \<open>
  What the user asked for, read off the events and the text of the host entry at that moment; the
  answers of \<open>sendAsync\<close>, in their order; and what the controller answers to the request that
  belongs to an action.
\<close>

definition pressed :: "'w gtk_env \<Rightarrow> ui_event \<Rightarrow> action option" where
  "pressed E ev =
     (case ev of
        U_button act \<Rightarrow> Some act
      | U_key k \<Rightarrow> (case map_of (key_effects (ge_key E)) k of Some (Press act) \<Rightarrow> Some act | _ \<Rightarrow> None)
      | _ \<Rightarrow> None)"

definition presses :: "'w gtk_env \<Rightarrow> 'w ui_trace \<Rightarrow> queued_action list" where
  "presses E ts = concat (map (\<lambda>(s, ev, s').
     case pressed E ev of
       None \<Rightarrow> []
     | Some act \<Rightarrow> [\<lparr>qa_action = act, qa_target = ui_explicitTarget (Some (ga_host s))\<rparr>]) ts)"

definition answered :: "ui_event list \<Rightarrow> (queued_action \<times> bool) list" where
  "answered tr = concat (map (\<lambda>ev.
     case ev of U_accept q \<Rightarrow> [(q, True)] | U_reject q \<Rightarrow> [(q, False)] | _ \<Rightarrow> []) tr)"

definition arriving :: "'w gtk_app \<Rightarrow> queued_action list" where
  "arriving s = (case ga_sending s of None \<Rightarrow> [] | Some (q, depth) \<Rightarrow> [q])"

definition results :: "'w gtk_env \<Rightarrow> 'w ui_trace \<Rightarrow> send_result res list" where
  "results E ts = concat (map (\<lambda>(s, ev, s').
     case ev of
       U_send q \<Rightarrow> [fst (ctl_Send (ge_ctrl E) \<lparr>sq_Target = qa_target q, sq_Action = qa_action q\<rparr> (ga_world s))]
     | _ \<Rightarrow> []) ts)"

definition reported :: "'w ui_trace \<Rightarrow> send_result res list" where
  "reported ts = concat (map (\<lambda>(s, ev, s').
     if ev \<noteq> U_report then []
     else (case drop (length (ga_posted s)) (ga_posted s') of [Cb_sent r n] \<Rightarrow> [r] | _ \<Rightarrow> [])) ts)"

definition unreported :: "'w gtk_app \<Rightarrow> send_result res list" where
  "unreported s = (case ga_worker s of W_reporting r \<Rightarrow> [r] | _ \<Rightarrow> [])"

lemma trace_append [simp]:
  "presses E (a @ b) = presses E a @ presses E b" "answered (tr @ tr') = answered tr @ answered tr'"
  "results E (a @ b) = results E a @ results E b" "reported (a @ b) = reported a @ reported b"
  "presses E [] = []" "answered [] = []" "results E [] = []" "reported [] = []"
  by (simp_all add: presses_def answered_def results_def reported_def)

lemma accepted_answered: "accepted tr = map fst (filter snd (answered tr))"
  by (induction tr rule: accepted.induct) (simp_all add: answered_def)

text \<open>What is not the business of an operation: the queue and its worker, or the widgets.\<close>

abbreviation queue_part :: "'w gtk_app \<Rightarrow> queued_action list option \<times> int \<times> (queued_action \<times> int) option \<times> worker" where
  "queue_part s \<equiv> (ga_queue s, ga_depth s, ga_sending s, ga_worker s)"

abbreviation busy_part :: "'w gtk_app \<Rightarrow> bool \<times> goroutine list \<times> callback list" where
  "busy_part s \<equiv> (ga_sensitive s, ga_goroutines s, ga_posted s)"

lemmas ui_defs = setStatus_def setBusy_def start_go_def refreshStateAsync_def discoverAsync_def
  saveTargetAsync_def pairAsync_def launchAsync_def applyPairingState_def applyRemoteState_def Let_def

lemma queue_part_async [simp]:
  "queue_part (refreshStateAsync s) = queue_part s" "queue_part (discoverAsync s) = queue_part s"
  "queue_part (saveTargetAsync s) = queue_part s" "queue_part (pairAsync E s) = queue_part s"
  "queue_part (launchAsync a b s) = queue_part s" "queue_part (setStatus t s) = queue_part s"
  "queue_part (post cb s) = queue_part s"
  by (auto simp: ui_defs post_def split: option.split sum.split)

lemma queue_part_callback [simp]: "queue_part (run_callback E cb s) = queue_part s"
  by (cases cb) (auto simp: ui_defs discovered_def split: option.split sum.split list.split prod.split)

lemma queue_sel:
  assumes "queue_part s' = queue_part s"
  shows "queued s' = queued s" "in_hand s' = in_hand s" "ga_depth s' = ga_depth s"
    "ga_sending s' = ga_sending s" "ga_worker s' = ga_worker s" "ga_queue s' = ga_queue s"
  using assms by (simp_all add: queued_def in_hand_def)

lemmas queue_async_sel =
  queue_sel(4,5) [OF queue_part_async(2)] queue_sel(4,5) [OF queue_part_async(3)]
  queue_sel(4,5) [OF queue_part_async(4)] queue_sel(4,5) [OF queue_part_async(5)]

lemma queue_async:
  "queue_part (s\<lparr>ga_quit := b\<rparr>) = queue_part s" "queue_part (s\<lparr>ga_host := t\<rparr>) = queue_part s"
  "queue_part (s\<lparr>ga_pair := t\<rparr>) = queue_part s" "queue_part (s\<lparr>ga_posted := cbs\<rparr>) = queue_part s"
  "queue_part (s\<lparr>ga_goroutines := gs, ga_world := w\<rparr>) = queue_part s"
  by simp_all

text \<open>
  Every event is an operation of the queue or leaves the queue alone: pressing (by a key or a
  button), the end of \<open>sendAsync\<close>, a step of the worker.
\<close>

lemma ui_step_queue:
  assumes "ui_step E s ev s'" "ga_queue s \<noteq> None"
  obtains
    (same) "queue_part s' = queue_part s" "accepted [ev] = []" "sent [ev] = []"
  | (press) act where "s' = sendAsync_add act s" "ga_sending s = None" "accepted [ev] = []" "sent [ev] = []"
  | (accept) q d qs where "s' = sendAsync_select q d qs s" "ga_sending s = Some (q, d)" "ga_queue s = Some qs"
      "length qs < actionQueue_cap" "ev = U_accept q"
  | (reject) q d qs where "s' = sendAsync_select q d qs s" "ga_sending s = Some (q, d)" "ga_queue s = Some qs"
      "\<not> length qs < actionQueue_cap" "ev = U_reject q"
  | (take_) q qs where "s' = worker_take q qs s" "ga_worker s = W_waiting" "ga_queue s = Some (q # qs)" "ev = U_take"
  | (send) q where "s' = worker_send E q s" "ga_worker s = W_sending q" "ev = U_send q"
  | (report) r where "s' = worker_report r s" "ga_worker s = W_reporting r" "ev = U_report"
  using assms(1)
proof (cases rule: ui_step.cases)
  case (Key k)
  show thesis
  proof (cases "map_of (key_effects (ge_key E)) k")
    case None
    with Key show thesis by (intro same) (simp_all add: keyPressed_def)
  next
    case (Some e)
    with Key show thesis by (cases e) (auto simp: keyPressed_def intro: same press)
  qed
qed (auto intro: that)

lemma fifo_step:
  assumes "ui_step E s ev s'" "ga_queue s \<noteq> None"
  shows "in_hand s @ accepted [ev] = sent [ev] @ in_hand s' \<and> ga_queue s' \<noteq> None"
  using assms
proof (cases rule: ui_step_queue)
  case same
  with assms(2) queue_sel [OF same(1)] show ?thesis by simp
qed (use assms(2) in \<open>auto simp: in_hand_def queued_def sendAsync_add_def sendAsync_select_def worker_take_def
    worker_send_def worker_report_def post_def setStatus_def Let_def split: option.splits prod.splits\<close>)

text \<open>The counter counts the actions in the queue, the one being enqueued, and the one being sent.\<close>

definition depth_inv :: "'w gtk_app \<Rightarrow> bool" where
  "depth_inv s \<longleftrightarrow>
     ga_queue s \<noteq> None \<and> length (queued s) \<le> actionQueue_cap \<and>
     ga_depth s = int (length (queued s)) + (if ga_sending s = None then 0 else 1) +
       (if ga_worker s = W_waiting then 0 else 1)"

lemma depth_step:
  assumes "ui_step E s ev s'" "depth_inv s"
  shows "depth_inv s'"
proof -
  have q: "ga_queue s \<noteq> None" using assms(2) by (simp add: depth_inv_def)
  from assms(1) q show ?thesis
  proof (cases rule: ui_step_queue)
    case same
    with assms(2) queue_sel [OF same(1)] show ?thesis by (simp add: depth_inv_def)
  qed (use assms(2) in \<open>auto simp: depth_inv_def queued_def sendAsync_add_def sendAsync_select_def worker_take_def
      worker_send_def worker_report_def post_def setStatus_def Let_def actionQueue_cap_def
      split: option.splits prod.splits\<close>)
qed

text \<open>Insensitive buttons are waiting for a reply.\<close>

fun replies :: "callback \<Rightarrow> bool" where
  "replies (Cb_sending act n) = False"
| "replies (Cb_sent r n) = False"
| "replies _ = True"

definition busy_inv :: "'w gtk_app \<Rightarrow> bool" where
  "busy_inv s \<longleftrightarrow> ga_sensitive s \<or> ga_goroutines s \<noteq> [] \<or> (\<exists>cb\<in>set (ga_posted s). replies cb)"

lemma busy_inv_cong: "busy_part s' = busy_part s \<Longrightarrow> busy_inv s' = busy_inv s"
  by (simp add: busy_inv_def)

lemma busy_async [simp]:
  "busy_inv (refreshStateAsync s)" "busy_inv (discoverAsync s)" "busy_inv (launchAsync a b s)"
  "busy_inv s \<Longrightarrow> busy_inv (saveTargetAsync s)" "busy_inv s \<Longrightarrow> busy_inv (pairAsync E s)"
  "busy_part (sendAsync_add act s) = busy_part s" "busy_part (sendAsync_select q d qs s) = busy_part s"
  by (auto simp: busy_inv_def ui_defs sendAsync_add_def sendAsync_select_def split: option.split sum.split)

lemma busy_state [simp]:
  "busy_inv (setBusy False s)" "busy_inv (setStatus t s) = busy_inv s"
  "busy_inv (applyPairingState p s) = busy_inv s" "busy_inv (applyRemoteState r s) = busy_inv s"
  by (auto simp: busy_inv_def ui_defs)

lemma busy_discovered: "busy_inv s \<Longrightarrow> busy_inv (discovered E devices s)"
  by (simp add: discovered_def busy_inv_def [of "s\<lparr>ga_world := w\<rparr>" for w] split: list.split sum.split prod.split option.split)
    (simp add: busy_inv_def)

lemma busy_callback:
  "replies cb \<Longrightarrow> busy_inv (run_callback E cb s)"
  "\<not> replies cb \<Longrightarrow> busy_part (run_callback E cb s) = busy_part s"
proof -
  show "replies cb \<Longrightarrow> busy_inv (run_callback E cb s)"
    by (cases "(E, cb, s)" rule: run_callback.cases) (simp_all add: Let_def busy_discovered split: option.split sum.split prod.split)
  show "\<not> replies cb \<Longrightarrow> busy_part (run_callback E cb s) = busy_part s"
    by (cases cb) (simp_all add: setStatus_def split: sum.split)
qed

lemma call_replies: "call_controller E g w = (cb, w') \<Longrightarrow> replies cb"
  by (cases g) (auto split: prod.splits)

lemma busy_step:
  assumes "ui_step E s ev s'" "busy_inv s"
  shows "busy_inv s'"
  using assms(1)
proof (cases rule: ui_step.cases)
  case (Key k)
  then show ?thesis using assms(2) busy_inv_cong [OF busy_async(6)]
    by (auto simp: keyPressed_def busy_inv_def split: option.split key_effect.split)
next
  case (Button act)
  with assms(2) busy_inv_cong [OF busy_async(6)] show ?thesis by metis
next
  case (Callback cb cbs)
  show ?thesis
  proof (cases "replies cb")
    case False
    have "busy_inv s' = busy_inv (s\<lparr>ga_posted := cbs\<rparr>)"
      unfolding Callback(2) by (rule busy_inv_cong [OF busy_callback(2) [OF False]])
    with Callback assms(2) False show ?thesis by (auto simp: busy_inv_def)
  qed (simp add: Callback busy_callback)
next
  case (Call gs g gs' cb w)
  then show ?thesis using call_replies by (auto simp: busy_inv_def post_def)
qed (use assms(2) in \<open>simp_all\<close>, use assms(2) in \<open>auto simp: busy_inv_def worker_take_def worker_send_def
      worker_report_def post_def sendAsync_select_def setStatus_def Let_def split: prod.split\<close>)

text \<open>
  The work that is left, without the user: how many steps the program may still take.
\<close>

fun go_work :: "goroutine \<Rightarrow> nat" where
  "go_work (Go_load t) = 2"
| "go_work (Go_launch a b t) = 2"
| "go_work _ = 4"

fun cb_work :: "callback \<Rightarrow> nat" where
  "cb_work (Cb_discovered r) = 3"
| "cb_work (Cb_saved e) = 3"
| "cb_work (Cb_paired r) = 3"
| "cb_work _ = 1"

fun worker_work :: "worker \<Rightarrow> nat" where
  "worker_work W_waiting = 0"
| "worker_work (W_sending q) = 4"
| "worker_work (W_reporting r) = 2"

definition ui_work :: "'w gtk_app \<Rightarrow> nat" where
  "ui_work s = (if ga_sending s = None then 0 else 7) + 6 * length (queued s) + worker_work (ga_worker s) +
     sum_list (map go_work (ga_goroutines s)) + sum_list (map cb_work (ga_posted s))"

definition widget_work :: "'w gtk_app \<Rightarrow> nat" where
  "widget_work s = sum_list (map go_work (ga_goroutines s)) + sum_list (map cb_work (ga_posted s))"

lemma widget_work_callback: "widget_work (run_callback E cb s) < widget_work s + cb_work cb"
  by (cases cb) (auto simp: widget_work_def ui_defs discovered_def
      split: option.split sum.split list.split prod.split)

lemma work_callback: "ui_work (run_callback E cb s) < ui_work s + cb_work cb"
  using widget_work_callback [of E cb s] queue_sel [OF queue_part_callback [of E cb s]]
  by (simp add: ui_work_def widget_work_def)

lemma work_call: "call_controller E g w = (cb, w') \<Longrightarrow> cb_work cb < go_work g"
  by (cases g) (auto split: prod.splits)

lemma work_step:
  assumes "ui_step E s ev s'" "internal ev"
  shows "ui_work s' < ui_work s"
  using assms(1)
proof (cases rule: ui_step.cases)
  case (Callback cb cbs)
  have "ui_work (s\<lparr>ga_posted := cbs\<rparr>) + cb_work cb = ui_work s"
    using Callback by (simp add: ui_work_def queued_def)
  with work_callback [of E cb "s\<lparr>ga_posted := cbs\<rparr>"] Callback show ?thesis by simp
next
  case (Call gs g gs' cb w)
  with work_call show ?thesis by (auto simp: ui_work_def queued_def post_def)
qed (use assms(2) in \<open>auto simp: ui_work_def queued_def worker_take_def worker_send_def worker_report_def post_def
      sendAsync_select_def setStatus_def Let_def split: prod.split\<close>)

text \<open>Reachable states, and what holds of all of them.\<close>

lemma activated_parts [simp]:
  "ga_queue (activated w) = Some []" "queued (activated w) = []" "in_hand (activated w) = []"
  "depth_inv (activated w)" "busy_inv (activated w)"
  by (simp_all add: activated_def queued_def in_hand_def depth_inv_def busy_inv_def ui_defs)

lemma ui_run_invs:
  assumes "ui_run E (activated w) tr s"
  shows "depth_inv s \<and> busy_inv s \<and> accepted tr = sent tr @ in_hand s"
  using assms
proof induction
  case (Step tr s ev s')
  have q: "ga_queue s \<noteq> None" using Step.IH by (simp add: depth_inv_def)
  have "accepted tr @ accepted [ev] = sent tr @ sent [ev] @ in_hand s'"
    using Step.IH fifo_step [OF Step.hyps(2) q] by simp
  with Step.IH depth_step [OF Step.hyps(2)] busy_step [OF Step.hyps(2)] show ?case by simp
qed simp

text \<open>
  The accounts of a run, step by step: a press starts a \<open>sendAsync\<close> for what was pressed, which is
  answered; a sent action has a result, which is reported.
\<close>

lemma queue_part_shell:
  "queue_part s' = queue_part s \<Longrightarrow> arriving s' = arriving s \<and> unreported s' = unreported s"
  by (simp add: arriving_def unreported_def)

lemma account_step:
  assumes "ui_step E s ev s'" "ga_queue s \<noteq> None"
  shows "arriving s @ presses E [(s, ev, s')] = map fst (answered [ev]) @ arriving s'"
    and "unreported s @ results E [(s, ev, s')] = reported [(s, ev, s')] @ unreported s'"
proof -
  note ds = arriving_def unreported_def presses_def pressed_def answered_def results_def reported_def
  have p: "arriving s @ presses E [(s, ev, s')] = map fst (answered [ev]) @ arriving s' \<and>
    unreported s @ results E [(s, ev, s')] = reported [(s, ev, s')] @ unreported s'"
    using assms(1)
  proof (cases rule: ui_step.cases)
    case (Key k)
    show ?thesis
    proof (cases "map_of (key_effects (ge_key E)) k")
      case None
      with Key show ?thesis by (simp add: ds keyPressed_def)
    next
      case (Some e)
      with Key assms(2) show ?thesis
        by (cases e) (auto simp: ds keyPressed_def sendAsync_add_def Let_def)
    qed
  next
    case (Callback cb cbs)
    from queue_part_callback [of E cb "s\<lparr>ga_posted := cbs\<rparr>"] Callback(2)
    have "queue_part s' = queue_part s" by simp
    from queue_part_shell [OF this] show ?thesis by (simp add: Callback ds)
  qed (use assms(2) in \<open>auto simp: ds queue_async_sel sendAsync_add_def sendAsync_select_def worker_take_def
      worker_send_def worker_report_def post_def setStatus_def Let_def split: prod.splits\<close>)
  then show "arriving s @ presses E [(s, ev, s')] = map fst (answered [ev]) @ arriving s'"
    "unreported s @ results E [(s, ev, s')] = reported [(s, ev, s')] @ unreported s'" by simp_all
qed

definition queue_step :: "'w gtk_env \<Rightarrow> 'w gtk_app \<times> ui_event \<times> 'w gtk_app \<Rightarrow> bool" where
  "queue_step E = (\<lambda>(s, ev, s').
     case ev of
       U_accept q \<Rightarrow> length (queued s) < 64 \<and> queued s' = queued s @ [q]
     | U_reject q \<Rightarrow> length (queued s) = 64 \<and> queued s' = queued s \<and> ga_status s' = ''Action queue full''
     | U_send q \<Rightarrow>
         ga_world s' = snd (ctl_Send (ge_ctrl E) \<lparr>sq_Target = qa_target q, sq_Action = qa_action q\<rparr> (ga_world s))
     | _ \<Rightarrow> True)"

lemma queue_step_ui: "ui_step E s ev s' \<Longrightarrow> length (queued s) \<le> 64 \<Longrightarrow> queue_step E (s, ev, s')"
  by (erule ui_step.cases)
    (auto simp: queue_step_def queued_def sendAsync_select_def actionQueue_cap_def setStatus_def worker_send_def Let_def
      split: prod.split)

lemma ui_path_invs:
  assumes "ui_path E (activated w) ts s"
  shows "presses E ts = map fst (answered (events ts)) @ arriving s \<and>
    results E ts = reported ts @ unreported s \<and> (\<forall>x \<in> set ts. queue_step E x)"
  using assms
proof induction
  case Path_start
  then show ?case by (simp add: arriving_def unreported_def activated_def ui_defs)
next
  case (Path_step ts s ev s')
  have i: "depth_inv s" using ui_run_invs [OF ui_path_run [OF Path_step.hyps(1)]] by simp
  then have "ga_queue s \<noteq> None" "length (queued s) \<le> 64" by (auto simp: depth_inv_def actionQueue_cap_def)
  with account_step [OF Path_step.hyps(2)] queue_step_ui [OF Path_step.hyps(2)] Path_step.IH show ?case
    by simp
qed

text \<open>A state in which the program waits for the user.\<close>

definition settled :: "'w gtk_app \<Rightarrow> bool" where
  "settled s \<longleftrightarrow> ga_sensitive s \<and> queued s = [] \<and> ga_depth s = 0 \<and> ga_sending s = None \<and>
     ga_worker s = W_waiting \<and> ga_goroutines s = [] \<and> ga_posted s = []"

lemma no_step_settled:
  assumes "depth_inv s" "busy_inv s" "\<And>ev s'. internal ev \<Longrightarrow> \<not> ui_step E s ev s'"
  shows "settled s"
proof -
  obtain qs where q: "ga_queue s = Some qs" using assms(1) by (auto simp: depth_inv_def)
  have snd: "ga_sending s = None"
  proof (cases "ga_sending s")
    case (Some x)
    then obtain x1 x2 where "ga_sending s = Some (x1, x2)" by (cases x) auto
    then show ?thesis
      using Accept [of s x1 x2 qs E] Reject [of s x1 x2 qs E] q assms(3) by (metis internal.simps(2,3))
  qed
  moreover have wk: "ga_worker s = W_waiting"
  proof (cases "ga_worker s")
    case (W_sending x)
    with Send [of s x E] assms(3) [of "U_send x"] show ?thesis by simp
  next
    case (W_reporting x)
    with Report [of s x E] assms(3) [of U_report] show ?thesis by simp
  qed
  moreover have pd: "ga_posted s = []"
    using Callback [OF snd, of _ _ E] assms(3) [of U_callback] by (cases "ga_posted s") auto
  moreover have gr: "ga_goroutines s = []"
  proof (cases "ga_goroutines s")
    case (Cons g gs)
    obtain cb w where "call_controller E g (ga_world s) = (cb, w)" by fastforce
    with Call [of s "[]" g gs E cb w] Cons assms(3) [of "U_call g"] show ?thesis by simp
  qed
  moreover have qq: "qs = []" using Take [OF wk, of _ _ E] q assms(3) [of U_take] by (cases qs) auto
  ultimately show ?thesis using assms(1,2) q by (auto simp: settled_def depth_inv_def busy_inv_def queued_def)
qed

lemma ui_run_work: "ui_run E s tr s' \<Longrightarrow> list_all internal tr \<Longrightarrow> length tr + ui_work s' \<le> ui_work s"
proof (induction rule: ui_run.induct)
  case (Step tr s' ev s'')
  then show ?case using work_step [OF Step.hyps(2)] by auto
qed simp

lemma ui_run_trans: "ui_run E s' tr' s'' \<Longrightarrow> ui_run E s tr s' \<Longrightarrow> ui_run E s (tr @ tr') s''"
proof (induction rule: ui_run.induct)
  case (Step tr' s' ev s'')
  from ui_run.Step [OF Step.IH [OF Step.prems] Step.hyps(2)] show ?case by simp
qed simp

section \<open>Properties\<close>

text \<open>
  C10: The queue of actions is a queue, whatever the controller does and however the main loop, the
  worker and the other goroutines are interleaved. Every press of an action button or an action
  key is for that action and for the target that the host entry named at that moment, and each is
  answered once, in the order of the presses (the last one may still be arriving): it is accepted
  and goes to the end of the queue or, only when the queue already holds 64, it is refused, with
  the status saying so. The accepted actions are exactly those sent, in that order, followed by
  those still in hand; none is lost, repeated or overtaken. Sending one is a single call of the
  controller's \<open>Send\<close> with its action and its target, and the results of these calls are what
  the worker reports, in order. The counter that the window shows is the number of actions under
  way, never negative, and at most 66: 64 in the channel, one being sent and one arriving.
\<close>

theorem ui_fifo:
  assumes "ui_path E (activated w) ts s"
  shows "presses E ts = map fst (answered (events ts)) @ arriving s \<and>
    map fst (filter snd (answered (events ts))) = sent (events ts) @ in_hand s \<and>
    (\<forall>(s1, ev, s2) \<in> set ts. case ev of
       U_accept q \<Rightarrow> length (queued s1) < 64 \<and> queued s2 = queued s1 @ [q]
     | U_reject q \<Rightarrow> length (queued s1) = 64 \<and> queued s2 = queued s1 \<and> ga_status s2 = ''Action queue full''
     | U_send q \<Rightarrow>
         ga_world s2 = snd (ctl_Send (ge_ctrl E) \<lparr>sq_Target = qa_target q, sq_Action = qa_action q\<rparr> (ga_world s1))
     | _ \<Rightarrow> True) \<and>
    results E ts = reported ts @ unreported s \<and>
    length (queued s) \<le> 64 \<and>
    ga_depth s = int (length (queued s) + length (arriving s)) + (if ga_worker s = W_waiting then 0 else 1) \<and>
    0 \<le> ga_depth s \<and> ga_depth s \<le> 66"
proof -
  note p = ui_path_invs [OF assms]
  have r: "depth_inv s \<and> accepted (events ts) = sent (events ts) @ in_hand s"
    using ui_run_invs [OF ui_path_run [OF assms]] by simp
  have a: "length (arriving s) = (if ga_sending s = None then 0 else 1)"
    by (auto simp: arriving_def split: option.split)
  show ?thesis
  proof (intro conjI)
    show "\<forall>(s1, ev, s2) \<in> set ts. case ev of
       U_accept q \<Rightarrow> length (queued s1) < 64 \<and> queued s2 = queued s1 @ [q]
     | U_reject q \<Rightarrow> length (queued s1) = 64 \<and> queued s2 = queued s1 \<and> ga_status s2 = ''Action queue full''
     | U_send q \<Rightarrow>
         ga_world s2 = snd (ctl_Send (ge_ctrl E) \<lparr>sq_Target = qa_target q, sq_Action = qa_action q\<rparr> (ga_world s1))
     | _ \<Rightarrow> True"
      using p by (simp add: queue_step_def)
  qed (use p r a in \<open>auto simp: accepted_answered depth_inv_def actionQueue_cap_def\<close>)
qed

text \<open>
  C21: Left alone, the window comes to rest: from every state it can reach, whatever the controller
  answers, the program takes at most \<open>ui_work\<close> steps of its own, in every order; and when it can
  take none, every accepted action was sent, nothing is under way, the counter is zero and the
  buttons can be pressed.
\<close>

theorem ui_settles:
  assumes "ui_run E (activated w) tr s" "ui_run E s tr' s'" "list_all internal tr'"
  shows "length tr' \<le> ui_work s \<and>
    ((\<exists>ev s''. internal ev \<and> ui_step E s' ev s'') \<or> settled s' \<and> accepted (tr @ tr') = sent (tr @ tr'))"
proof -
  have r: "depth_inv s' \<and> busy_inv s' \<and> accepted (tr @ tr') = sent (tr @ tr') @ in_hand s'"
    using ui_run_invs [OF ui_run_trans [OF assms(2,1)]] .
  have "settled s' \<or> (\<exists>ev s''. internal ev \<and> ui_step E s' ev s'')"
    using no_step_settled [of s' E] r by blast
  moreover have "settled s' \<Longrightarrow> in_hand s' = []" by (simp add: settled_def in_hand_def)
  ultimately show ?thesis using ui_run_work [OF assms(2,3)] r by auto
qed

text \<open>A program whose services have nothing behind them, for the witnesses.\<close>

definition demo_gtk :: "unit gtk_env" where
  "demo_gtk = \<lparr>ge_ctrl = new_controller (new_device_service None None 6466) (new_pairing_service None None [] [])
       (new_remote_service None None None),
     ge_unicode = \<lparr>uni_lower = id, uni_upper = id\<rparr>, ge_Error = (\<lambda>_. ''error''),
     ge_key = (\<lambda>k. if k = KEY_h then 104 else 0)\<rparr>"

definition demo_queued :: queued_action where
  "demo_queued = \<lparr>qa_action = Home, qa_target = None\<rparr>"

lemma demo_run:
  "\<exists>s. ui_run demo_gtk (activated ()) [U_key 104, U_accept demo_queued] s \<and>
     ga_worker s = W_waiting \<and> ga_queue s = Some [demo_queued] \<and> ga_sending s = None"
proof -
  let ?s = "activated ()"
  have 1: "ui_step demo_gtk ?s (U_key 104) (snd (keyPressed demo_gtk 104 ?s))"
    by (rule Key) (simp add: activated_def ui_defs)
  have k: "snd (keyPressed demo_gtk 104 ?s) = ?s\<lparr>ga_depth := 1, ga_sending := Some (demo_queued, 1)\<rparr>" (is "_ = ?s1")
    by (simp add: keyPressed_def key_effects_def demo_gtk_def sendAsync_add_def demo_queued_def activated_def
        ui_defs ui_explicitTarget_def)
  have 2: "ui_step demo_gtk ?s1 (U_accept demo_queued) (sendAsync_select demo_queued 1 [] ?s1)"
    by (rule Accept) (simp_all add: actionQueue_cap_def)
  have r: "ui_run demo_gtk ?s ([] @ [U_key 104] @ [U_accept demo_queued]) (sendAsync_select demo_queued 1 [] ?s1)"
    using ui_run.Step [OF ui_run.Step [OF ui_run.Start 1 [unfolded k]] 2] by simp
  show ?thesis
    by (rule exI [of _ "sendAsync_select demo_queued 1 [] ?s1"], use r in
        \<open>simp add: sendAsync_select_def actionQueue_cap_def setStatus_def\<close>) (simp add: activated_def ui_defs)
qed

theorem ui_fifo_witness:
  "\<exists>ts s. ui_path demo_gtk (activated ()) ts s \<and> events ts = [U_key 104, U_accept demo_queued] \<and>
     presses demo_gtk ts = [demo_queued] \<and> ga_depth s \<le> 66"
proof -
  obtain s where s: "ui_run demo_gtk (activated ()) [U_key 104, U_accept demo_queued] s" "ga_sending s = None"
    using demo_run by blast
  obtain ts where ts: "ui_path demo_gtk (activated ()) ts s" "events ts = [U_key 104, U_accept demo_queued]"
    using ui_run_path [OF s(1)] by (elim exE conjE)
  note f = ui_fifo [OF ts(1)]
  have "presses demo_gtk ts = [demo_queued]"
    using conjunct1 [OF f] s(2) unfolding ts(2) by (simp add: answered_def arriving_def)
  moreover have "ga_depth s \<le> 66" using f by (elim conjE)
  ultimately show ?thesis using ts by (intro exI conjI)
qed

theorem ui_settles_witness:
  "\<exists>s s'. ui_run demo_gtk s [U_take] s' \<and> length [U_take] \<le> ui_work s \<and>
     ((\<exists>ev s''. internal ev \<and> ui_step demo_gtk s' ev s'') \<or> settled s')"
proof -
  obtain s where s: "ui_run demo_gtk (activated ()) [U_key 104, U_accept demo_queued] s"
    "ga_worker s = W_waiting" "ga_queue s = Some [demo_queued]"
    using demo_run by blast
  have "ui_run demo_gtk s ([] @ [U_take]) (worker_take demo_queued [] s)"
    by (rule ui_run.Step [OF ui_run.Start]) (rule Take [OF s(2,3)])
  then have t: "ui_run demo_gtk s [U_take] (worker_take demo_queued [] s)" by simp
  from ui_settles [OF s(1) this] t show ?thesis by fastforce
qed

text \<open>
  What one types is what one gets: a host and a port joined in the usual notation, the host a
  name or an address of either family, are taken apart again into the target with that host
  and that port; a host alone leaves the port to the default.
\<close>

theorem ui_explicitTarget_roundtrip:
  assumes "host \<noteq> []" "\<not> edge_char (hd host)" "CHR ''['' \<notin> set host" "CHR '']'' \<notin> set host"
    and "- (2 ^ 63) \<le> port" "port < 2 ^ 63"
  shows "ui_explicitTarget (Some (endpoint host port)) =
      Some \<lparr>t_Host = host, t_Port = port, t_DeviceID = [], t_Label = host\<rparr> \<and>
    (CHR '':'' \<in> set host \<or> edge_char (last host) \<or> ui_explicitTarget (Some host) =
      Some \<lparr>t_Host = host, t_Port = 0, t_DeviceID = [], t_Label = host\<rparr>)"
proof -
  have ne: "nat_digits n \<noteq> []" for n by simp
  have l: "\<not> edge_char (last (Itoa port))"
    using Itoa_chars [of "last (Itoa port)" port] ne last_in_set [of "Itoa port"]
    by (fastforce simp: edge_char_def is_digit_char_def Itoa_def split: if_splits)
  have i: "Itoa port \<noteq> []" using ne by (simp add: Itoa_def)
  have "endpoint host port \<noteq> [] \<and> \<not> edge_char (hd (endpoint host port)) \<and> last (endpoint host port) = last (Itoa port)"
    using assms(1,2) i by (auto simp: endpoint_def JoinHostPort_def edge_char_def)
  with l have "TrimSpace (endpoint host port) = endpoint host port" "endpoint host port \<noteq> []"
    by (auto intro: TrimSpace_same)
  then have 1: "ui_explicitTarget (Some (endpoint host port)) =
      Some \<lparr>t_Host = host, t_Port = port, t_DeviceID = [], t_Label = host\<rparr>"
    using endpoint_split [OF assms(3,4)] Atoi_Itoa [OF assms(5,6)]
    by (simp add: ui_explicitTarget_def hostPort_def)
  have 2: "ui_explicitTarget (Some host) = Some \<lparr>t_Host = host, t_Port = 0, t_DeviceID = [], t_Label = host\<rparr>"
    if "CHR '':'' \<notin> set host" "\<not> edge_char (last host)"
  proof -
    have "LastIndexByte (CHR '':'') host = None" using that(1) by (simp add: LastIndexByte_def IndexByte_None)
    moreover have "TrimSpace host = host" using assms(2) that(2) by (intro TrimSpace_same) simp
    ultimately show ?thesis using assms(1) by (simp add: ui_explicitTarget_def hostPort_def SplitHostPort_def)
  qed
  from 1 2 show ?thesis by blast
qed

theorem ui_explicitTarget_roundtrip_witness:
  "ui_explicitTarget (Some (endpoint ''fe80::1'' 6466)) =
     Some \<lparr>t_Host = ''fe80::1'', t_Port = 6466, t_DeviceID = [], t_Label = ''fe80::1''\<rparr>"
  using ui_explicitTarget_roundtrip [of "''fe80::1''" 6466] by (simp add: edge_char_def)

end
