(* ===== verification/Gtk_Bootstrap.thy ===== *)
theory Gtk_Bootstrap
  imports Go_Files
begin

text \<open>
  \<open>adapters/in/gtk/bootstrap.go\<close>: before the window opens the program may start itself again, with the
  layer-shell library preloaded. The environment is a list of entries, as \<open>os.Environ\<close> gives it; Go's
  loop over a map visits its keys in any order, which is the argument \<open>order\<close>.
\<close>

definition layerShellLibrarySubstring :: string where
  "layerShellLibrarySubstring = ''libgtk4-layer-shell''"

definition layerShellLibraryCandidates :: "string list" where
  "layerShellLibraryCandidates =
     [''/usr/lib/libgtk4-layer-shell.so.0'', ''/usr/lib64/libgtk4-layer-shell.so.0'',
      ''/usr/lib/aarch64-linux-gnu/libgtk4-layer-shell.so.0'', ''/usr/lib/x86_64-linux-gnu/libgtk4-layer-shell.so.0'',
      ''/lib/x86_64-linux-gnu/libgtk4-layer-shell.so.0'']"

text \<open>An indexed Go map gives the empty string for a key it does not have.\<close>

definition env_get :: "(string \<rightharpoonup> string) \<Rightarrow> string \<Rightarrow> string" where
  "env_get env k = (case env k of None \<Rightarrow> [] | Some v \<Rightarrow> v)"

definition add_entry :: "(string \<rightharpoonup> string) \<Rightarrow> string \<Rightarrow> (string \<rightharpoonup> string)" where
  "add_entry env entry = (case cut_char (CHR ''='') entry of None \<Rightarrow> env | Some (key, v) \<Rightarrow> env(key \<mapsto> v))"

definition currentEnvMap :: "string list \<Rightarrow> (string \<rightharpoonup> string)" where
  "currentEnvMap environ = foldl add_entry Map.empty environ"

definition layer_fileExists :: "'a fs_scheme \<Rightarrow> string \<Rightarrow> bool" where
  "layer_fileExists w path =
     (case os_Stat w (Clean path) of Inl _ \<Rightarrow> False | Inr _ \<Rightarrow> fs_files w (Clean path) \<noteq> None)"

text \<open>\<open>strings.FieldsFunc\<close> for one character: the parts between it that are not empty.\<close>

definition fields_char :: "char \<Rightarrow> string \<Rightarrow> string list" where
  "fields_char c s = filter (\<lambda>p. p \<noteq> []) (split_char c s)"

fun search_dirs :: "'a fs_scheme \<Rightarrow> string list \<Rightarrow> string" where
  "search_dirs w [] = []"
| "search_dirs w (dir # dirs) =
     (if dir = [] then search_dirs w dirs
      else
        (let candidate = path_Join [dir, ''libgtk4-layer-shell.so.0''] in
         if candidate \<in> set layerShellLibraryCandidates then search_dirs w dirs
         else if layer_fileExists w candidate then candidate
         else search_dirs w dirs))"

definition findLayerShellLibrary :: "'a fs_scheme \<Rightarrow> (string \<rightharpoonup> string) \<Rightarrow> string" where
  "findLayerShellLibrary w env =
     (case find (layer_fileExists w) layerShellLibraryCandidates of
        Some candidate \<Rightarrow> candidate
      | None \<Rightarrow> search_dirs w (fields_char (CHR '':'') (env_get env ''LD_LIBRARY_PATH'')))"

definition preloadEnv :: "(string \<rightharpoonup> string) \<Rightarrow> string \<Rightarrow> (string \<rightharpoonup> string)" where
  "preloadEnv env libraryPath =
     (let current = env_get env ''LD_PRELOAD'' in
      env(''LD_PRELOAD'' \<mapsto> (if current \<noteq> [] then libraryPath @ '' '' @ current else libraryPath)))"

definition env_slice :: "string list \<Rightarrow> (string \<rightharpoonup> string) \<Rightarrow> string list" where
  "env_slice order env = map (\<lambda>key. key @ ''='' @ env_get env key) order"

text \<open>
  What comes of it: the program goes on in this process, or it has been replaced by another one with
  the executable and the environment given. \<open>exec\<close> is the call that replaces it, None if it succeeds.
\<close>

datatype boot = Goes_on "string list" | Replaced string "string list"

definition maybeReexecWithLayerShell ::
  "'a fs_scheme \<Rightarrow> string res \<Rightarrow> (string \<Rightarrow> string list \<Rightarrow> goerr option) \<Rightarrow> ((string \<rightharpoonup> string) \<Rightarrow> string list) \<Rightarrow>
    string list \<Rightarrow> boot" where
  "maybeReexecWithLayerShell w executable exec order environ =
     (let env = currentEnvMap environ in
      if env_get env ''WAYLAND_DISPLAY'' = [] then Goes_on []
      else if Contains (env_get env ''LD_PRELOAD'') layerShellLibrarySubstring then Goes_on []
      else
        (let libraryPath = findLayerShellLibrary w env in
         if libraryPath = [] then Goes_on []
         else
           (let env = preloadEnv env libraryPath; envSlice = env_slice (order env) env in
            case executable of
              Inl err \<Rightarrow> Goes_on [''shrmt: resolve executable for layer-shell preload: %v'']
            | Inr execPath \<Rightarrow>
                (case exec execPath envSlice of
                   Some err \<Rightarrow> Goes_on [''shrmt: re-exec with layer-shell preload failed: %v'']
                 | None \<Rightarrow> Replaced execPath envSlice))))"

section \<open>Lemmas\<close>

lemma add_entry_eq: "CHR ''='' \<notin> set k \<Longrightarrow> add_entry env (k @ ''='' @ v) = env(k \<mapsto> v)"
  by (simp add: add_entry_def cut_char_append)

text \<open>No key of the environment has the separator in it.\<close>

lemma currentEnvMap_keys:
  assumes "\<forall>k \<in> dom env. CHR ''='' \<notin> set k" "k \<in> dom (foldl add_entry env environ)"
  shows "CHR ''='' \<notin> set k"
  using assms
proof (induction environ arbitrary: env)
  case (Cons e es)
  have "CHR ''='' \<notin> set j" if "j \<in> dom (add_entry env e)" for j
  proof (cases "cut_char (CHR ''='') e")
    case None
    with that Cons.prems(1) show ?thesis by (simp add: add_entry_def)
  next
    case (Some p)
    then obtain key v where c: "cut_char (CHR ''='') e = Some (key, v)" by (cases p) simp
    have "CHR ''='' \<notin> set key" using cut_char_Some [OF c] by simp
    moreover have "j = key \<or> j \<in> dom env" using that c by (auto simp: add_entry_def split: if_splits)
    ultimately show ?thesis using Cons.prems(1) by blast
  qed
  with Cons.IH [of "add_entry env e"] Cons.prems(2) show ?case by simp
qed auto

lemma finite_currentEnvMap: "finite (dom (currentEnvMap environ))"
proof -
  have "finite (dom (foldl add_entry env environ))" if "finite (dom env)" for env
    using that
    by (induction environ arbitrary: env) (auto simp: add_entry_def split: option.splits prod.splits)
  then show ?thesis by (simp add: currentEnvMap_def)
qed

lemma env_slice_fold:
  "distinct ks \<Longrightarrow> (\<forall>k \<in> set ks. CHR ''='' \<notin> set k) \<Longrightarrow>
    foldl add_entry e0 (env_slice ks env) = (\<lambda>k. if k \<in> set ks then Some (env_get env k) else e0 k)"
proof (induction ks arbitrary: e0)
  case (Cons k ks)
  have "foldl add_entry e0 (env_slice (k # ks) env) = foldl add_entry (e0(k \<mapsto> env_get env k)) (env_slice ks env)"
    using Cons.prems(2) add_entry_eq [of k e0 "env_get env k"] by (simp add: env_slice_def)
  also have "\<dots> = (\<lambda>j. if j \<in> set ks then Some (env_get env j) else (e0(k \<mapsto> env_get env k)) j)"
    using Cons.prems by (intro Cons.IH) simp_all
  finally show ?case using Cons.prems(1) by (auto simp: fun_eq_iff)
qed (simp add: env_slice_def)

text \<open>Writing the environment out and reading it again gives it back, in whatever order.\<close>

lemma env_roundtrip:
  assumes "distinct ks" "set ks = dom env" "\<forall>k \<in> dom env. CHR ''='' \<notin> set k"
  shows "currentEnvMap (env_slice ks env) = env"
  using env_slice_fold [of ks Map.empty env] assms
  by (auto simp: currentEnvMap_def fun_eq_iff env_get_def domIff split: option.splits)

lemma libraries_simple: "simple_name ''libgtk4-layer-shell.so.0''"
  by (simp add: simple_name_def)

lemma search_dirs_library: "search_dirs w dirs = [] \<or> Contains (search_dirs w dirs) layerShellLibrarySubstring"
proof (induction dirs)
  case (Cons dir dirs)
  obtain pre where "path_Join [dir, ''libgtk4-layer-shell.so.0''] = pre @ ''libgtk4-layer-shell.so.0''"
    using path_Join_snoc [OF libraries_simple] by blast
  then have "Contains (path_Join [dir, ''libgtk4-layer-shell.so.0'']) layerShellLibrarySubstring"
    unfolding Contains_iff layerShellLibrarySubstring_def by (intro exI [of _ pre] exI [of _ "''.so.0''"]) simp
  with Cons show ?case by (simp add: Let_def)
qed simp

lemma candidates_library: "list_all (\<lambda>c. Contains c layerShellLibrarySubstring) layerShellLibraryCandidates"
  by code_simp

lemma findLayerShellLibrary_library:
  assumes "findLayerShellLibrary w env \<noteq> []"
  shows "Contains (findLayerShellLibrary w env) layerShellLibrarySubstring"
proof (cases "find (layer_fileExists w) layerShellLibraryCandidates")
  case None
  with assms search_dirs_library show ?thesis by (auto simp: findLayerShellLibrary_def)
next
  case (Some c)
  then have "c \<in> set layerShellLibraryCandidates" by (auto simp: find_Some_iff)
  with candidates_library Some show ?thesis by (simp add: findLayerShellLibrary_def list_all_iff)
qed

lemma preload_Contains:
  assumes "Contains l p"
  shows "Contains (env_get (preloadEnv env l) ''LD_PRELOAD'') p"
proof -
  from assms obtain a b where "l = a @ p @ b" by (auto simp: Contains_iff)
  then have "\<exists>c. env_get (preloadEnv env l) ''LD_PRELOAD'' = a @ p @ c"
    by (simp add: env_get_def preloadEnv_def Let_def)
  then show ?thesis by (auto simp: Contains_iff)
qed

lemma search_dirs_found:
  "search_dirs w dirs \<noteq> [] \<Longrightarrow> layer_fileExists w (search_dirs w dirs) \<and>
    (\<exists>dir \<in> set dirs. search_dirs w dirs = path_Join [dir, ''libgtk4-layer-shell.so.0''])"
  by (induction dirs) (auto simp: Let_def split: if_splits)

text \<open>A library that was found: the first candidate there is, or one in a directory of the search path.\<close>

lemma library_found:
  assumes "findLayerShellLibrary w env = library" "library \<noteq> []"
  shows "layer_fileExists w library \<and>
    (find (layer_fileExists w) layerShellLibraryCandidates = Some library \<or>
     (\<forall>c \<in> set layerShellLibraryCandidates. \<not> layer_fileExists w c) \<and>
     (\<exists>dir \<in> set (fields_char (CHR '':'') (env_get env ''LD_LIBRARY_PATH'')).
        library = path_Join [dir, ''libgtk4-layer-shell.so.0'']))"
proof (cases "find (layer_fileExists w) layerShellLibraryCandidates")
  case None
  with assms search_dirs_found [of w "fields_char (CHR '':'') (env_get env ''LD_LIBRARY_PATH'')"]
  show ?thesis by (auto simp: findLayerShellLibrary_def find_None_iff)
next
  case (Some c)
  with assms show ?thesis by (auto simp: findLayerShellLibrary_def find_Some_iff)
qed

text \<open>
  C30: The program starts itself again at most once, under Wayland and only with a library that is there:
  the first of the known places that has it, or else a directory of \<open>LD_LIBRARY_PATH\<close>. The new process sees
  every variable of the old one unchanged but \<open>LD_PRELOAD\<close>, which is the library, followed by a space and
  what it was before if that was not empty. It goes on, whatever the files and the order of Go's map are
  by then.
\<close>

theorem reexec_once:
  assumes "maybeReexecWithLayerShell w executable exec order environ = Replaced execPath environ'"
    "\<And>env. finite (dom env) \<Longrightarrow> distinct (order env) \<and> set (order env) = dom env"
  shows "\<exists>library. executable = Inr execPath \<and> env_get (currentEnvMap environ) ''WAYLAND_DISPLAY'' \<noteq> []
    \<and> library \<noteq> [] \<and> layer_fileExists w library
    \<and> (find (layer_fileExists w) layerShellLibraryCandidates = Some library \<or>
       (\<forall>c \<in> set layerShellLibraryCandidates. \<not> layer_fileExists w c) \<and>
       (\<exists>dir \<in> set (fields_char (CHR '':'') (env_get (currentEnvMap environ) ''LD_LIBRARY_PATH'')).
          library = path_Join [dir, ''libgtk4-layer-shell.so.0'']))
    \<and> (\<forall>k. k \<noteq> ''LD_PRELOAD'' \<longrightarrow> currentEnvMap environ' k = currentEnvMap environ k)
    \<and> currentEnvMap environ' ''LD_PRELOAD'' =
        Some (case currentEnvMap environ ''LD_PRELOAD'' of
                None \<Rightarrow> library
              | Some old \<Rightarrow> if old = [] then library else library @ '' '' @ old)
    \<and> maybeReexecWithLayerShell w' executable' exec' order' environ' = Goes_on []"
proof -
  let ?env = "currentEnvMap environ"
  obtain lib where lib: "findLayerShellLibrary w ?env = lib" by blast
  from assms(1) have 1: "env_get ?env ''WAYLAND_DISPLAY'' \<noteq> []" "lib \<noteq> []" "executable = Inr execPath"
    "environ' = env_slice (order (preloadEnv ?env lib)) (preloadEnv ?env lib)"
    by (auto simp: maybeReexecWithLayerShell_def Let_def lib split: if_splits sum.splits option.splits)
  have "CHR ''='' \<notin> set k" if "k \<in> dom (preloadEnv ?env lib)" for k
    using that currentEnvMap_keys [of Map.empty k environ]
    by (auto simp: preloadEnv_def currentEnvMap_def Let_def split: if_splits)
  moreover have "finite (dom (preloadEnv ?env lib))"
    using finite_currentEnvMap by (simp add: preloadEnv_def Let_def)
  ultimately have 2: "currentEnvMap environ' = preloadEnv ?env lib"
    unfolding 1(4) using assms(2) [of "preloadEnv ?env lib"] by (intro env_roundtrip) auto
  have "Contains lib layerShellLibrarySubstring"
    using findLayerShellLibrary_library [of w ?env] lib 1(2) by simp
  then have "Contains (env_get (preloadEnv ?env lib) ''LD_PRELOAD'') layerShellLibrarySubstring"
    by (rule preload_Contains)
  then have once: "maybeReexecWithLayerShell w' executable' exec' order' environ' = Goes_on []"
    by (simp add: maybeReexecWithLayerShell_def 2 Let_def)
  have others: "currentEnvMap environ' k = ?env k" if "k \<noteq> ''LD_PRELOAD''" for k
    using that by (simp add: 2 preloadEnv_def Let_def)
  have preload: "currentEnvMap environ' ''LD_PRELOAD'' =
      Some (case ?env ''LD_PRELOAD'' of None \<Rightarrow> lib | Some old \<Rightarrow> if old = [] then lib else lib @ '' '' @ old)"
    by (simp add: 2 preloadEnv_def Let_def env_get_def split: option.split)
  show ?thesis using 1(1-3) library_found [OF lib 1(2)] others preload once by blast
qed

text \<open>A system with the library, and the order of the keys there.\<close>

definition demo_environ :: "string list" where
  "demo_environ = [''WAYLAND_DISPLAY=wayland-0'', ''A=b=c'']"

definition demo_libs :: fs where
  "demo_libs = \<lparr>fs_configDir = Inr [], fs_files = [''/usr/lib64/libgtk4-layer-shell.so.0'' \<mapsto> ([], 493)],
     fs_dirs = (\<lambda>_. None), fs_fault = (\<lambda>_ _. None), fs_short = (\<lambda>_. 0)\<rparr>"

theorem reexec_once_witness:
  "\<exists>environ'. maybeReexecWithLayerShell demo_libs (Inr ''shrmt'') (\<lambda>_ _. None) (\<lambda>env. sorted_list_of_set (dom env))
      demo_environ = Replaced ''shrmt'' environ'
    \<and> currentEnvMap environ' ''A'' = Some ''b=c''
    \<and> currentEnvMap environ' ''LD_PRELOAD'' = Some ''/usr/lib64/libgtk4-layer-shell.so.0''
    \<and> maybeReexecWithLayerShell demo_libs (Inr ''shrmt'') (\<lambda>_ _. None) (\<lambda>env. sorted_list_of_set (dom env)) environ' = Goes_on []"
proof -
  have env: "currentEnvMap demo_environ = [''WAYLAND_DISPLAY'' \<mapsto> ''wayland-0'', ''A'' \<mapsto> ''b=c'']"
    by (simp add: currentEnvMap_def demo_environ_def add_entry_def)
  have "map Clean layerShellLibraryCandidates = layerShellLibraryCandidates" by code_simp
  then have found: "find (layer_fileExists demo_libs) layerShellLibraryCandidates = Some ''/usr/lib64/libgtk4-layer-shell.so.0''"
    by (simp add: layerShellLibraryCandidates_def layer_fileExists_def demo_libs_def os_Stat_def)
  from found have lib: "findLayerShellLibrary demo_libs env = ''/usr/lib64/libgtk4-layer-shell.so.0''" for env
    by (simp add: findLayerShellLibrary_def)
  obtain environ' where run: "maybeReexecWithLayerShell demo_libs (Inr ''shrmt'') (\<lambda>_ _. None)
      (\<lambda>env. sorted_list_of_set (dom env)) demo_environ = Replaced ''shrmt'' environ'"
    by (simp add: maybeReexecWithLayerShell_def env lib env_get_def Let_def layerShellLibrarySubstring_def)
  have "distinct (sorted_list_of_set (dom env)) \<and> set (sorted_list_of_set (dom env)) = dom env"
    if "finite (dom env)" for env :: "string \<rightharpoonup> string" using that by simp
  note once = reexec_once [OF run this, of demo_libs "Inr ''shrmt''" "\<lambda>_ _. None" "\<lambda>env. sorted_list_of_set (dom env)"]
  from once have "currentEnvMap environ' ''A'' = Some ''b=c''" by (auto simp: env)
  moreover have "layer_fileExists demo_libs ''/usr/lib64/libgtk4-layer-shell.so.0'' \<and>
      ''/usr/lib64/libgtk4-layer-shell.so.0'' \<in> set layerShellLibraryCandidates"
    using found unfolding find_Some_iff by force
  with once have "currentEnvMap environ' ''LD_PRELOAD'' = Some ''/usr/lib64/libgtk4-layer-shell.so.0''"
    unfolding found by (auto simp: env)
  ultimately show ?thesis using run once by blast
qed

end
