(* ===== verification/NvProbe_Attempts.thy ===== *)
theory NvProbe_Attempts
  imports NvProbe_Wire Go_Net
begin

text \<open>
  The attempts of \<open>cmd/nvprobe\<close> (\<open>main.go\<close>, \<open>hello.go\<close>): the lists in the flags, the attempts
  that a configuration stands for, and the message of an attempt.
\<close>

section \<open>Lists in flags\<close>

definition parseFrameStyles :: "unicode \<Rightarrow> string \<Rightarrow> string list" where
  "parseFrameStyles u raw =
     unseen {} (filter (\<lambda>style. style \<in> {''raw'', ''varint'', ''u32be'', ''u32le''})
       (map (\<lambda>part. ToLower u (TrimSpace part)) (split_char (CHR '','') raw)))"

definition parseStringList :: "string \<Rightarrow> string list" where
  "parseStringList raw = unseen {} (filter (\<lambda>part. part \<noteq> []) (map TrimSpace (split_char (CHR '','') raw)))"

text \<open>
  The loop over a range; \<open>value++\<close> wraps around, so that a range up to the greatest integer has no
  end. \<open>seen\<close> holds the values so far.
\<close>

definition add_value :: "int \<Rightarrow> int list \<Rightarrow> int list" where
  "add_value v vs = (if v \<in> set vs then vs else vs @ [v])"

partial_function (option) range_loop :: "int \<Rightarrow> int \<Rightarrow> int list \<Rightarrow> int list option" where
  "range_loop v stop vs =
     (if v \<le> stop then range_loop (i64 (v + 1)) stop (add_value v vs) else Some vs)"

fun int_parts :: "string list \<Rightarrow> int list \<Rightarrow> int list res option" where
  "int_parts [] vs = Some (Inr vs)"
| "int_parts (part # parts) vs =
     (let part = TrimSpace part in
      if part = [] then int_parts parts vs
      else if Contains part ''-'' then
        (case cut_char (CHR ''-'') part of
           None \<Rightarrow> Some (Inl (Errorf ''invalid range %q'' [FS part] None))
         | Some (b0, b1) \<Rightarrow>
        (case Atoi (TrimSpace b0) of
           Inl err \<Rightarrow> Some (Inl (Errorf ''invalid range start %q: %w'' [FS b0] (Some err)))
         | Inr start \<Rightarrow>
        (case Atoi (TrimSpace b1) of
           Inl err \<Rightarrow> Some (Inl (Errorf ''invalid range end %q: %w'' [FS b1] (Some err)))
         | Inr stop \<Rightarrow>
            if stop < start then Some (Inl (Errorf ''descending range %q'' [FS part] None))
            else
              (case range_loop start stop vs of None \<Rightarrow> None | Some vs \<Rightarrow> int_parts parts vs))))
      else
        (case Atoi part of
           Inl err \<Rightarrow> Some (Inl (Errorf ''invalid integer %q: %w'' [FS part] (Some err)))
         | Inr v \<Rightarrow> int_parts parts (add_value v vs)))"

definition parseIntList :: "string \<Rightarrow> int list res option" where
  "parseIntList raw =
     (case int_parts (split_char (CHR '','') raw) [] of
        None \<Rightarrow> None
      | Some (Inl err) \<Rightarrow> Some (Inl err)
      | Some (Inr vs) \<Rightarrow> if length vs = 0 then Some (Inl (new_err ''empty list'')) else Some (Inr (sort vs)))"

section \<open>Configuration and attempts\<close>

record nv_config =
  nc_host :: string
  nc_port :: int
  nc_monitor :: bool
  nc_monitorHost :: string
  nc_monitorPort :: int
  nc_certPath :: string
  nc_keyPath :: string
  nc_mode :: string
  nc_frameStyles :: "string list"
  nc_serviceTags :: "int list"
  nc_commandTags :: "int list"
  nc_payloadTags :: "int list"
  nc_inputTags :: "int list"
  nc_specialTags :: "int list"
  nc_serviceIDs :: "int list"
  nc_commandIDs :: "int list"
  nc_inputTypes :: "int list"
  nc_specialInputs :: "int list"
  nc_helloDevInfoTags :: "int list"
  nc_helloCapabilityTags :: "int list"
  nc_helloLayouts :: "string list"
  nc_helloName :: string
  nc_helloPackageName :: string
  nc_helloAndroidID :: string
  nc_helloHostValue :: string
  nc_helloRemotePorts :: "int list"
  nc_helloDeviceOSValues :: "int list"
  nc_helloCapabilityValues :: "int list"
  nc_helloPreamble :: bool
  nc_connectTimeout :: int
  nc_responseWait :: int
  nc_pollWindow :: int
  nc_pollInterval :: int
  nc_delayBetween :: int
  nc_startAt :: int
  nc_limit :: int
  nc_stopOnChange :: bool
  nc_logFile :: string

record attempt =
  at_FrameStyle :: string
  at_ServiceTag :: int
  at_CommandTag :: int
  at_PayloadTag :: int
  at_InputTag :: int
  at_SpecialTag :: int
  at_ServiceID :: int
  at_CommandID :: int
  at_InputType :: int
  at_SpecialInput :: int
  at_Template :: string
  at_PayloadDesc :: string
  at_PreambleDesc :: string
  at_HasCustomPayload :: bool
  at_PayloadBytes :: "byte list"
  at_PreambleBytes :: "byte list"

definition zero_attempt :: attempt where
  "zero_attempt = \<lparr>at_FrameStyle = [], at_ServiceTag = 0, at_CommandTag = 0, at_PayloadTag = 0, at_InputTag = 0,
     at_SpecialTag = 0, at_ServiceID = 0, at_CommandID = 0, at_InputType = 0, at_SpecialInput = 0, at_Template = [],
     at_PayloadDesc = [], at_PreambleDesc = [], at_HasCustomPayload = False, at_PayloadBytes = [],
     at_PreambleBytes = []\<rparr>"

definition buildEmptyAttempts :: "nv_config \<Rightarrow> attempt list" where
  "buildEmptyAttempts cfg =
     [zero_attempt\<lparr>at_FrameStyle := frameStyle, at_ServiceTag := serviceTag, at_CommandTag := commandTag,
        at_ServiceID := serviceID, at_CommandID := commandID\<rparr>.
        frameStyle \<leftarrow> nc_frameStyles cfg, serviceTag \<leftarrow> nc_serviceTags cfg, commandTag \<leftarrow> nc_commandTags cfg,
        commandTag \<noteq> serviceTag, serviceID \<leftarrow> nc_serviceIDs cfg, commandID \<leftarrow> nc_commandIDs cfg]"

definition buildSpecialAttempts :: "nv_config \<Rightarrow> attempt list" where
  "buildSpecialAttempts cfg =
     [zero_attempt\<lparr>at_FrameStyle := frameStyle, at_ServiceTag := serviceTag, at_CommandTag := commandTag,
        at_PayloadTag := payloadTag, at_InputTag := inputTag, at_SpecialTag := specialTag, at_ServiceID := serviceID,
        at_CommandID := commandID, at_InputType := inputType, at_SpecialInput := specialInput\<rparr>.
        frameStyle \<leftarrow> nc_frameStyles cfg, serviceTag \<leftarrow> nc_serviceTags cfg, commandTag \<leftarrow> nc_commandTags cfg,
        commandTag \<noteq> serviceTag, serviceID \<leftarrow> nc_serviceIDs cfg, commandID \<leftarrow> nc_commandIDs cfg,
        payloadTag \<leftarrow> nc_payloadTags cfg, \<not> (payloadTag = serviceTag \<or> payloadTag = commandTag),
        inputTag \<leftarrow> nc_inputTags cfg, specialTag \<leftarrow> nc_specialTags cfg, inputTag \<noteq> specialTag,
        inputType \<leftarrow> nc_inputTypes cfg, specialInput \<leftarrow> nc_specialInputs cfg]"

definition buildMessage :: "attempt \<Rightarrow> byte list" where
  "buildMessage a =
     (let msg = fieldVarint (at_ServiceTag a) (at_ServiceID a) @ fieldVarint (at_CommandTag a) (at_CommandID a) in
      if at_PayloadTag a = 0 then msg
      else if at_HasCustomPayload a then msg @ fieldBytes (at_PayloadTag a) (at_PayloadBytes a)
      else
        (let payload = fieldVarint (at_InputTag a) (at_InputType a) @ fieldVarint (at_SpecialTag a) (at_SpecialInput a)
         in msg @ fieldBytes (at_PayloadTag a) payload))"

section \<open>Hello messages\<close>

datatype hello_field = FieldDeviceOS | FieldName | FieldPackage | FieldAndroidID | FieldHost | FieldRemotePort

record hello_layout =
  hl_Name :: string
  hl_Tags :: "(hello_field \<times> int) list"

record hello_field_set =
  hs_Name :: string
  hs_Fields :: "hello_field list"

record hello_values =
  hv_DeviceOS :: int
  hv_Name :: string
  hv_PackageName :: string
  hv_AndroidID :: string
  hv_Host :: string
  hv_RemotePort :: int

record hello_candidate =
  hc_Bytes :: "byte list"
  hc_Description :: string

definition knownHelloLayouts :: "(string \<times> hello_layout) list" where
  "knownHelloLayouts =
     [(''os-name-package-android-host-port'',
        \<lparr>hl_Name = ''os-name-package-android-host-port'',
         hl_Tags = [(FieldDeviceOS, 1), (FieldName, 2), (FieldPackage, 3), (FieldAndroidID, 4), (FieldHost, 5),
           (FieldRemotePort, 6)]\<rparr>),
      (''name-os-package-android-host-port'',
        \<lparr>hl_Name = ''name-os-package-android-host-port'',
         hl_Tags = [(FieldName, 1), (FieldDeviceOS, 2), (FieldPackage, 3), (FieldAndroidID, 4), (FieldHost, 5),
           (FieldRemotePort, 6)]\<rparr>),
      (''name-package-android-os-host-port'',
        \<lparr>hl_Name = ''name-package-android-os-host-port'',
         hl_Tags = [(FieldName, 1), (FieldPackage, 2), (FieldAndroidID, 3), (FieldDeviceOS, 4), (FieldHost, 5),
           (FieldRemotePort, 6)]\<rparr>)]"

definition helloFieldSets :: "hello_field_set list" where
  "helloFieldSets =
     [\<lparr>hs_Name = ''os'', hs_Fields = [FieldDeviceOS]\<rparr>,
      \<lparr>hs_Name = ''name'', hs_Fields = [FieldName]\<rparr>,
      \<lparr>hs_Name = ''os-name'', hs_Fields = [FieldDeviceOS, FieldName]\<rparr>,
      \<lparr>hs_Name = ''name-package'', hs_Fields = [FieldName, FieldPackage]\<rparr>,
      \<lparr>hs_Name = ''os-name-package'', hs_Fields = [FieldDeviceOS, FieldName, FieldPackage]\<rparr>,
      \<lparr>hs_Name = ''os-name-package-android'', hs_Fields = [FieldDeviceOS, FieldName, FieldPackage, FieldAndroidID]\<rparr>,
      \<lparr>hs_Name = ''os-name-package-android-host'',
       hs_Fields = [FieldDeviceOS, FieldName, FieldPackage, FieldAndroidID, FieldHost]\<rparr>,
      \<lparr>hs_Name = ''os-name-package-android-host-port'',
       hs_Fields = [FieldDeviceOS, FieldName, FieldPackage, FieldAndroidID, FieldHost, FieldRemotePort]\<rparr>]"

definition helloFieldSetUses :: "hello_field_set \<Rightarrow> hello_field \<Rightarrow> bool" where
  "helloFieldSetUses fieldSet field = (field \<in> set (hs_Fields fieldSet))"

text \<open>The loop of \<open>resolveHelloLayouts\<close>, with the names it has seen.\<close>

fun resolve_layouts :: "string list \<Rightarrow> string list \<Rightarrow> hello_layout list res" where
  "resolve_layouts [] seen = Inr []"
| "resolve_layouts (name # names) seen =
     (let name = TrimSpace name in
      if name = [] then resolve_layouts names seen
      else
        (case map_of knownHelloLayouts name of
           None \<Rightarrow> Inl (Errorf ''unknown hello layout %q'' [FS name] None)
         | Some layout \<Rightarrow>
             if name \<in> set seen then resolve_layouts names seen
             else
               (case resolve_layouts names (name # seen) of
                  Inl err \<Rightarrow> Inl err
                | Inr layouts \<Rightarrow> Inr (layout # layouts))))"

definition resolveHelloLayouts :: "string list \<Rightarrow> hello_layout list res" where
  "resolveHelloLayouts names =
     (case resolve_layouts names [] of
        Inl err \<Rightarrow> Inl err
      | Inr layouts \<Rightarrow> if length layouts = 0 then Inl (new_err ''no hello layouts selected'') else Inr layouts)"

text \<open>One field of \<open>buildHelloDevInfo\<close>; a string field that is empty gives none.\<close>

definition string_field :: "int \<Rightarrow> string \<Rightarrow> (int \<times> byte list) option" where
  "string_field tag v = (if v = [] then None else Some (tag, fieldString tag v))"

fun encode_field :: "hello_values \<Rightarrow> hello_field \<Rightarrow> int \<Rightarrow> (int \<times> byte list) option" where
  "encode_field v FieldDeviceOS tag = Some (tag, fieldVarint tag (hv_DeviceOS v))"
| "encode_field v FieldName tag = string_field tag (hv_Name v)"
| "encode_field v FieldPackage tag = string_field tag (hv_PackageName v)"
| "encode_field v FieldAndroidID tag = string_field tag (hv_AndroidID v)"
| "encode_field v FieldHost tag = string_field tag (hv_Host v)"
| "encode_field v FieldRemotePort tag = Some (tag, fieldVarint tag (hv_RemotePort v))"

fun encode_fields :: "hello_layout \<Rightarrow> hello_values \<Rightarrow> hello_field list \<Rightarrow> (int \<times> byte list) list option" where
  "encode_fields layout v [] = Some []"
| "encode_fields layout v (f # fs) =
     (case map_of (hl_Tags layout) f of
        None \<Rightarrow> None
      | Some tag \<Rightarrow>
          (case encode_field v f tag of
             None \<Rightarrow> None
           | Some e \<Rightarrow> map_option (Cons e) (encode_fields layout v fs)))"

text \<open>The tags of a layout are distinct, so that \<open>sort.Slice\<close>, which need not be stable, has one result.\<close>

definition buildHelloDevInfo :: "hello_layout \<Rightarrow> hello_field_set \<Rightarrow> hello_values \<Rightarrow> byte list option" where
  "buildHelloDevInfo layout fieldSet v =
     map_option (\<lambda>encoded. concat (map snd (sort_key fst encoded))) (encode_fields layout v (hs_Fields fieldSet))"

definition buildCanonicalHelloRaw :: "byte list \<Rightarrow> byte list" where
  "buildCanonicalHelloRaw payload = fieldVarint 1 1 @ fieldVarint 2 0 @ fieldBytes 3 payload"

text \<open>\<open>detectLocalIP\<close>; the local address of a UDP connection, if there is one, is an argument.\<close>

definition detectLocalIP :: "(string \<Rightarrow> string option) \<Rightarrow> string \<Rightarrow> int \<Rightarrow> string" where
  "detectLocalIP LocalAddr targetHost targetPort =
     (if TrimSpace targetHost = [] then []
      else
        (let targetPort = (if targetPort \<le> 0 then 8987 else targetPort) in
         case LocalAddr (JoinHostPort targetHost (Itoa targetPort)) of None \<Rightarrow> [] | Some ip \<Rightarrow> ip))"

definition capability_desc :: "int \<Rightarrow> int \<Rightarrow> string" where
  "capability_desc tag v = ''capability-only(capability_tag='' @ Itoa tag @ '',capability='' @ Itoa v @ '')''"

definition empty_desc :: "int \<Rightarrow> hello_layout \<Rightarrow> string" where
  "empty_desc devInfoTag layout =
     ''devinfo-empty(devinfo_tag='' @ Itoa devInfoTag @ '',layout='' @ hl_Name layout @ '')''"

definition devinfo_desc :: "int \<Rightarrow> hello_layout \<Rightarrow> hello_field_set \<Rightarrow> int \<Rightarrow> int \<Rightarrow> string" where
  "devinfo_desc devInfoTag layout fieldSet os port =
     ''devinfo(devinfo_tag='' @ Itoa devInfoTag @ '',layout='' @ hl_Name layout @ '',fields='' @ hs_Name fieldSet @
     '',device_os='' @ Itoa os @ '',remote_port='' @ Itoa port @ '')''"

definition both_desc :: "int \<Rightarrow> int \<Rightarrow> hello_layout \<Rightarrow> hello_field_set \<Rightarrow> int \<Rightarrow> int \<Rightarrow> int \<Rightarrow> string" where
  "both_desc devInfoTag capTag layout fieldSet os cap port =
     ''devinfo+capability(devinfo_tag='' @ Itoa devInfoTag @ '',capability_tag='' @ Itoa capTag @ '',layout='' @
     hl_Name layout @ '',fields='' @ hs_Name fieldSet @ '',device_os='' @ Itoa os @ '',capability='' @ Itoa cap @
     '',remote_port='' @ Itoa port @ '')''"

text \<open>
  The calls of \<open>addCandidate\<close>, in order, and what its map of payloads leaves of them. The key of
  the map is the hexadecimal text of the payload, which determines the payload.
\<close>

definition hello_calls :: "nv_config \<Rightarrow> string \<Rightarrow> hello_layout list \<Rightarrow> hello_candidate list" where
  "hello_calls cfg localHost layouts =
     [\<lparr>hc_Bytes = fieldVarint tag v, hc_Description = capability_desc tag v\<rparr>.
        tag \<leftarrow> nc_helloCapabilityTags cfg, v \<leftarrow> nc_helloCapabilityValues cfg] @
     concat [\<lparr>hc_Bytes = fieldBytes devInfoTag [], hc_Description = empty_desc devInfoTag layout\<rparr> #
        concat [
          (case buildHelloDevInfo layout fieldSet
                 \<lparr>hv_DeviceOS = os, hv_Name = nc_helloName cfg, hv_PackageName = nc_helloPackageName cfg,
                  hv_AndroidID = nc_helloAndroidID cfg, hv_Host = localHost, hv_RemotePort = port\<rparr> of
             None \<Rightarrow> []
           | Some devInfo \<Rightarrow>
               (let base = fieldBytes devInfoTag devInfo in
                \<lparr>hc_Bytes = base, hc_Description = devinfo_desc devInfoTag layout fieldSet os port\<rparr> #
                [\<lparr>hc_Bytes = base @ fieldVarint capTag cap,
                  hc_Description = both_desc devInfoTag capTag layout fieldSet os cap port\<rparr>.
                   capTag \<leftarrow> nc_helloCapabilityTags cfg, capTag \<noteq> devInfoTag,
                   cap \<leftarrow> nc_helloCapabilityValues cfg])).
          fieldSet \<leftarrow> helloFieldSets,
          os \<leftarrow> (if helloFieldSetUses fieldSet FieldDeviceOS then nc_helloDeviceOSValues cfg else [0]),
          port \<leftarrow> (if helloFieldSetUses fieldSet FieldRemotePort then nc_helloRemotePorts cfg else [0])].
        layout \<leftarrow> layouts, devInfoTag \<leftarrow> nc_helloDevInfoTags cfg]"

fun unseen_payloads :: "byte list list \<Rightarrow> hello_candidate list \<Rightarrow> hello_candidate list" where
  "unseen_payloads seen [] = []"
| "unseen_payloads seen (c # cs) =
     (if hc_Bytes c \<in> set seen then unseen_payloads seen cs else c # unseen_payloads (hc_Bytes c # seen) cs)"

definition buildHelloPayloadCandidates :: "(string \<Rightarrow> string option) \<Rightarrow> nv_config \<Rightarrow> hello_candidate list" where
  "buildHelloPayloadCandidates LocalAddr cfg =
     (case resolveHelloLayouts (nc_helloLayouts cfg) of
        Inl err \<Rightarrow> []
      | Inr layouts \<Rightarrow>
          (let localHost = TrimSpace (nc_helloHostValue cfg);
               localHost = (if localHost = [] then detectLocalIP LocalAddr (nc_host cfg) (nc_port cfg) else localHost)
           in unseen_payloads [] (hello_calls cfg localHost layouts)))"

definition buildHelloAttempts :: "(string \<Rightarrow> string option) \<Rightarrow> nv_config \<Rightarrow> attempt list" where
  "buildHelloAttempts LocalAddr cfg =
     [zero_attempt\<lparr>at_FrameStyle := frameStyle, at_ServiceTag := serviceTag, at_CommandTag := commandTag,
        at_PayloadTag := payloadTag, at_ServiceID := serviceID, at_CommandID := commandID,
        at_Template := ''hello'', at_PayloadDesc := hc_Description payload, at_HasCustomPayload := True,
        at_PayloadBytes := hc_Bytes payload\<rparr>.
        frameStyle \<leftarrow> nc_frameStyles cfg, serviceTag \<leftarrow> nc_serviceTags cfg, commandTag \<leftarrow> nc_commandTags cfg,
        commandTag \<noteq> serviceTag, serviceID \<leftarrow> nc_serviceIDs cfg, commandID \<leftarrow> nc_commandIDs cfg,
        payloadTag \<leftarrow> nc_payloadTags cfg,
        \<not> (payloadTag \<le> 0 \<or> payloadTag = serviceTag \<or> payloadTag = commandTag),
        payload \<leftarrow> buildHelloPayloadCandidates LocalAddr cfg]"

definition attachHelloPreambles :: "(string \<Rightarrow> string option) \<Rightarrow> nv_config \<Rightarrow> attempt list \<Rightarrow> attempt list" where
  "attachHelloPreambles LocalAddr cfg attempts =
     (let payloads = buildHelloPayloadCandidates LocalAddr cfg in
      if length payloads = 0 \<or> length attempts = 0 then attempts
      else [a\<lparr>at_Template := nc_mode cfg @ ''+hello-preamble'', at_PreambleDesc := hc_Description payload,
              at_PreambleBytes := buildCanonicalHelloRaw (hc_Bytes payload)\<rparr>.
              a \<leftarrow> attempts, payload \<leftarrow> payloads])"

definition buildAttempts :: "(string \<Rightarrow> string option) \<Rightarrow> nv_config \<Rightarrow> attempt list" where
  "buildAttempts LocalAddr cfg =
     (if nc_mode cfg \<notin> {''empty'', ''special'', ''hello''} then []
      else
        (let attempts = (if nc_mode cfg = ''empty'' then buildEmptyAttempts cfg
                         else if nc_mode cfg = ''special'' then buildSpecialAttempts cfg
                         else buildHelloAttempts LocalAddr cfg)
         in if nc_helloPreamble cfg then attachHelloPreambles LocalAddr cfg attempts else attempts))"

definition countAttempts :: "(string \<Rightarrow> string option) \<Rightarrow> nv_config \<Rightarrow> int" where
  "countAttempts LocalAddr cfg = int (length (buildAttempts LocalAddr cfg))"

section \<open>Lemmas\<close>

lemma i64_bounds: "- (2 ^ 63) \<le> i64 x" "i64 x < 2 ^ 63"
  using signed_take_bit_int_greater_eq_minus_exp [of 63 x] signed_take_bit_int_less_exp [of 63 x]
  by (simp_all add: i64_def)

lemma i64_same: "- (2 ^ 63) \<le> x \<Longrightarrow> x < 2 ^ 63 \<Longrightarrow> i64 x = x"
  unfolding i64_def by (rule signed_take_bit_int_eq_self) auto

lemma set_add_value [simp]: "set (add_value v vs) = insert v (set vs)"
  by (auto simp: add_value_def)

lemma distinct_add_value [simp]: "distinct (add_value v vs) = distinct vs"
  by (auto simp: add_value_def)

text \<open>A range that ends below the greatest integer adds its numbers; one that ends there has no end.\<close>

lemma range_loop_ends:
  assumes "- (2 ^ 63) \<le> v" "stop < 2 ^ 63 - 1" "distinct vs"
  shows "\<exists>ws. range_loop v stop vs = Some ws \<and> distinct ws \<and> set ws = set vs \<union> {v..stop}"
  using assms
proof (induction "nat (stop + 1 - v)" arbitrary: v vs)
  case 0
  then show ?case by (subst range_loop.simps) simp
next
  case (Suc n)
  then have le: "v \<le> stop" by arith
  then have i: "i64 (v + 1) = v + 1" using Suc.prems by (intro i64_same) auto
  have "n = nat (stop + 1 - (v + 1))" using Suc.hyps(2) by arith
  from Suc.hyps(1) [OF this, of "add_value v vs"] Suc.prems obtain ws where
    ws: "range_loop (v + 1) stop (add_value v vs) = Some ws" "distinct ws"
      "set ws = insert v (set vs) \<union> {v + 1..stop}" by auto
  have "{v..stop} = insert v {v + 1..stop}" using le by auto
  with ws le i show ?case by (subst range_loop.simps) auto
qed

lemma range_loop_max:
  assumes "range_loop v stop vs = Some ws"
  shows "- (2 ^ 63) \<le> v \<longrightarrow> v < 2 ^ 63 \<longrightarrow> stop \<noteq> 2 ^ 63 - 1"
proof (rule range_loop.raw_induct [OF _ assms])
  fix loop v stop vs ws
  assume IH: "\<And>v stop vs ws. loop v stop vs = Some ws \<Longrightarrow> - (2 ^ 63) \<le> v \<longrightarrow> v < 2 ^ 63 \<longrightarrow> stop \<noteq> 2 ^ 63 - 1"
    and run: "(if v \<le> stop then loop (i64 (v + 1)) stop (add_value v vs) else Some vs) = Some ws"
  show "- (2 ^ 63) \<le> v \<longrightarrow> v < 2 ^ 63 \<longrightarrow> stop \<noteq> 2 ^ 63 - 1"
  proof (cases "v \<le> stop")
    case True
    with IH [of "i64 (v + 1)" stop "add_value v vs" ws] run i64_bounds [of "v + 1"] show ?thesis by simp
  qed simp
qed

lemma Atoi_bounds: "Atoi s = Inr v \<Longrightarrow> - (2 ^ 63) \<le> v \<and> v < 2 ^ 63"
  by (auto simp: Atoi_def Let_def split: prod.splits if_splits option.splits)

text \<open>What a part of an integer list stands for: nothing, or the numbers from one to another.\<close>

definition part_range :: "string \<Rightarrow> (int \<times> int) option res" where
  "part_range part =
     (let part = TrimSpace part in
      if part = [] then Inr None
      else
        (case cut_char (CHR ''-'') part of
           None \<Rightarrow>
             (case Atoi part of
                Inl err \<Rightarrow> Inl (Errorf ''invalid integer %q: %w'' [FS part] (Some err))
              | Inr v \<Rightarrow> Inr (Some (v, v)))
         | Some (b0, b1) \<Rightarrow>
             (case (Atoi (TrimSpace b0), Atoi (TrimSpace b1)) of
                (Inl err, _) \<Rightarrow> Inl (Errorf ''invalid range start %q: %w'' [FS b0] (Some err))
              | (_, Inl err) \<Rightarrow> Inl (Errorf ''invalid range end %q: %w'' [FS b1] (Some err))
              | (Inr start, Inr stop) \<Rightarrow>
                  if stop < start then Inl (Errorf ''descending range %q'' [FS part] None)
                  else Inr (Some (start, stop)))))"

definition part_values :: "string \<Rightarrow> int set" where
  "part_values part = (case part_range part of Inr (Some (a, b)) \<Rightarrow> {a..b} | _ \<Rightarrow> {})"

lemma Contains_dash: "Contains part ''-'' \<longleftrightarrow> cut_char (CHR ''-'') part \<noteq> None"
  by (auto simp: Contains_iff cut_char_None in_set_conv_decomp simp flip: not_None_eq)

text \<open>
  A part that is written as a range and goes up to the greatest integer, and a part after which
  the loop goes on: neither such a range nor an error.
\<close>

definition endless_range :: "string \<Rightarrow> bool" where
  "endless_range part \<longleftrightarrow> CHR ''-'' \<in> set (TrimSpace part) \<and> (\<exists>a. part_range part = Inr (Some (a, 2 ^ 63 - 1)))"

definition part_fine :: "string \<Rightarrow> bool" where
  "part_fine part \<longleftrightarrow> \<not> isl (part_range part) \<and> \<not> endless_range part"

lemma dash_iff: "CHR ''-'' \<in> set part \<longleftrightarrow> cut_char (CHR ''-'') part \<noteq> None"
  by (metis cut_char_None)

text \<open>One part of the loop.\<close>

lemma int_parts_Cons:
  assumes "distinct vs"
  obtains
    (error) e where "part_range part = Inl e" "int_parts (part # parts) vs = Some (Inl e)"
  | (endless) "endless_range part" "int_parts (part # parts) vs = None"
  | (next_part) ws where "int_parts (part # parts) vs = int_parts parts ws" "distinct ws"
      "set ws = set vs \<union> part_values part" "part_fine part"
proof (cases "TrimSpace part = []")
  case True
  with assms show thesis by (intro next_part [of vs]) (simp_all add: part_range_def part_values_def part_fine_def endless_range_def)
next
  case ne: False
  show thesis
  proof (cases "cut_char (CHR ''-'') (TrimSpace part)")
    case None
    then have c: "\<not> Contains (TrimSpace part) ''-''" by (simp add: Contains_dash)
    show thesis
    proof (cases "Atoi (TrimSpace part)")
      case (Inl e)
      with ne None c show thesis by (intro error) (simp_all add: part_range_def)
    next
      case (Inr v)
      with ne None c assms show thesis
        by (intro next_part [of "add_value v vs"])
          (simp_all add: part_range_def part_values_def part_fine_def endless_range_def dash_iff)
    qed
  next
    case (Some b)
    then obtain b0 b1 where b: "cut_char (CHR ''-'') (TrimSpace part) = Some (b0, b1)" by (cases b) auto
    then have c: "Contains (TrimSpace part) ''-''" by (simp add: Contains_dash)
    note d = ne b c
    show thesis
    proof (cases "Atoi (TrimSpace b0)")
      case (Inl e)
      with d show thesis by (intro error) (simp_all add: part_range_def)
    next
      case a0: (Inr start)
      show thesis
      proof (cases "Atoi (TrimSpace b1)")
        case (Inl e)
        with d a0 show thesis by (intro error) (simp_all add: part_range_def)
      next
        case a1: (Inr stop)
        note bd = Atoi_bounds [OF a0] Atoi_bounds [OF a1]
        consider "stop < start" | "start \<le> stop" "stop < 2 ^ 63 - 1" | "start \<le> stop" "stop = 2 ^ 63 - 1"
          using bd by fastforce
        then show thesis
        proof cases
          case 1
          with d a0 a1 show thesis by (intro error) (simp_all add: part_range_def)
        next
          case 2
          with range_loop_ends [of start stop vs] bd assms obtain ws where
            "range_loop start stop vs = Some ws" "distinct ws" "set ws = set vs \<union> {start..stop}" by auto
          with 2 d a0 a1 show thesis
            by (intro next_part [of ws]) (simp_all add: part_range_def part_values_def part_fine_def endless_range_def)
        next
          case 3
          have "range_loop start stop vs = None"
            using range_loop_max [of start stop vs] bd 3(2) by (cases "range_loop start stop vs") auto
          with 3 d a0 a1 show thesis by (intro endless) (simp_all add: part_range_def endless_range_def dash_iff)
        qed
      qed
    qed
  qed
qed

lemma int_parts_fine:
  assumes "list_all part_fine pre" "distinct vs"
  shows "\<exists>ws. int_parts (pre @ rest) vs = int_parts rest ws \<and> distinct ws \<and> set ws = set vs \<union> \<Union> (part_values ` set pre)"
  using assms
proof (induction pre arbitrary: vs)
  case (Cons part pre)
  then have fine: "part_fine part" by simp
  from Cons.prems(2) show ?case
  proof (cases rule: int_parts_Cons [of vs part "pre @ rest"])
    case (error e)
    with fine show ?thesis by (simp add: part_fine_def)
  next
    case endless
    with fine show ?thesis by (simp add: part_fine_def)
  next
    case (next_part ws)
    with Cons.IH [of ws] Cons.prems(1) show ?thesis by (simp add: Un_assoc del: int_parts.simps)
  qed
qed auto

lemma int_parts_stop:
  assumes "\<not> part_fine part" "distinct vs"
  shows "int_parts (part # parts) vs = (case part_range part of Inl e \<Rightarrow> Some (Inl e) | Inr _ \<Rightarrow> None)"
  using assms(2)
proof (cases rule: int_parts_Cons [of vs part parts])
  case endless
  then show ?thesis by (auto simp: endless_range_def simp del: int_parts.simps)
qed (use assms(1) in \<open>simp_all del: int_parts.simps\<close>)

text \<open>The first part, if any, at which the loop does not go on.\<close>

definition first_stop :: "string list \<Rightarrow> string \<Rightarrow> bool" where
  "first_stop parts p \<longleftrightarrow> (\<exists>pre post. parts = pre @ p # post \<and> list_all part_fine pre \<and> \<not> part_fine p)"

lemma int_parts_first_stop:
  assumes "first_stop parts p"
  shows "int_parts parts [] = (case part_range p of Inl e \<Rightarrow> Some (Inl e) | Inr _ \<Rightarrow> None)"
proof -
  obtain pre post where p: "parts = pre @ p # post" "list_all part_fine pre" "\<not> part_fine p"
    using assms by (auto simp: first_stop_def)
  obtain ws where "int_parts parts [] = int_parts (p # post) ws" "distinct ws"
    using int_parts_fine [OF p(2), of "[]" "p # post"] p(1) by (auto simp del: int_parts.simps)
  with int_parts_stop [OF p(3)] show ?thesis by (simp del: int_parts.simps)
qed

lemma fine_or_stop:
  obtains (fine) "list_all part_fine parts" "\<nexists>p. first_stop parts p"
  | (stop) p where "first_stop parts p" "\<not> list_all part_fine parts" "\<And>q. first_stop parts q \<Longrightarrow> q = p"
proof (cases "list_all part_fine parts")
  case True
  then have "\<nexists>p. first_stop parts p" by (auto simp: first_stop_def)
  with True fine show thesis by blast
next
  case False
  then obtain p where "p \<in> set parts" "\<not> part_fine p" by (auto simp: list_all_iff)
  then obtain pre q post where q: "parts = pre @ q # post" "\<not> part_fine q" "\<forall>x \<in> set pre. part_fine x"
    using split_list_first_prop [of parts "\<lambda>x. \<not> part_fine x"] by blast
  have 1: "first_stop parts q" unfolding first_stop_def list_all_iff using q by blast
  have "r = q" if "first_stop parts r" for r
  proof -
    obtain pre' post' where r: "parts = pre' @ r # post'" "list_all part_fine pre'" "\<not> part_fine r"
      using \<open>first_stop parts r\<close> by (auto simp: first_stop_def)
    have "dropWhile part_fine parts = q # post"
      unfolding q(1) using q(2,3) by (subst dropWhile_append2) auto
    moreover have "dropWhile part_fine parts = r # post'"
      unfolding r(1) using r(2,3) by (subst dropWhile_append2) (auto simp: list_all_iff)
    ultimately show ?thesis by simp
  qed
  with 1 False stop show thesis by blast
qed

text \<open>
  The tags of the attempts that are built: the service's, the command's and the payload's differ,
  where there is a payload, and so do those inside of the payload.
\<close>

definition tags_differ :: "attempt \<Rightarrow> bool" where
  "tags_differ a \<longleftrightarrow> at_CommandTag a \<noteq> at_ServiceTag a \<and>
     (at_PayloadTag a = 0 \<or> at_PayloadTag a \<noteq> at_ServiceTag a \<and> at_PayloadTag a \<noteq> at_CommandTag a \<and>
        (at_HasCustomPayload a \<or> at_InputTag a \<noteq> at_SpecialTag a))"

lemma tags_differ_built:
  assumes "a \<in> set (buildAttempts L cfg)"
  shows "tags_differ a"
proof -
  have e: "tags_differ a" if "a \<in> set (buildEmptyAttempts cfg)" for a
    using that by (auto simp: buildEmptyAttempts_def tags_differ_def zero_attempt_def)
  have s: "tags_differ a" if "a \<in> set (buildSpecialAttempts cfg)" for a
    using that by (auto simp: buildSpecialAttempts_def tags_differ_def zero_attempt_def)
  have h: "tags_differ a" if "a \<in> set (buildHelloAttempts L cfg)" for a
    using that by (auto simp: buildHelloAttempts_def tags_differ_def)
  have p: "\<exists>b\<in>set as. tags_differ b = tags_differ a" if mem: "a \<in> set (attachHelloPreambles L cfg as)" for a as
  proof (cases "length (buildHelloPayloadCandidates L cfg) = 0 \<or> length as = 0")
    case True
    then have "attachHelloPreambles L cfg as = as" unfolding attachHelloPreambles_def Let_def by (rule if_P)
    with that show ?thesis by auto
  next
    case False
    obtain b t d x where b: "b \<in> set as" "a = b\<lparr>at_Template := t, at_PreambleDesc := d, at_PreambleBytes := x\<rparr>"
      using mem unfolding attachHelloPreambles_def Let_def if_not_P [OF False] by auto
    then have "tags_differ b = tags_differ a" by (simp add: tags_differ_def)
    with b(1) show ?thesis by blast
  qed
  let ?base = "if nc_mode cfg = ''empty'' then buildEmptyAttempts cfg
    else if nc_mode cfg = ''special'' then buildSpecialAttempts cfg else buildHelloAttempts L cfg"
  have "?base = buildEmptyAttempts cfg \<or> ?base = buildSpecialAttempts cfg \<or> ?base = buildHelloAttempts L cfg"
    by (simp only: if_True if_False split: if_split) blast
  then have base: "tags_differ b" if "b \<in> set ?base" for b
    using that e [of b] s [of b] h [of b] by (elim disjE) (simp_all only:)
  have m: "nc_mode cfg \<in> {''empty'', ''special'', ''hello''}"
  proof (rule ccontr)
    assume "nc_mode cfg \<notin> {''empty'', ''special'', ''hello''}"
    then have "buildAttempts L cfg = []" unfolding buildAttempts_def by (rule if_P)
    with assms show False by simp
  qed
  have a: "a \<in> set (if nc_helloPreamble cfg then attachHelloPreambles L cfg ?base else ?base)"
    using assms unfolding buildAttempts_def Let_def by (subst (asm) if_not_P) (use m in blast)+
  show ?thesis
  proof (cases "nc_helloPreamble cfg")
    case True
    with a p [of a ?base] base show ?thesis by auto
  next
    case False
    with a base show ?thesis by simp
  qed
qed

text \<open>Frames carry their message.\<close>

lemma unframe_applyFrame:
  assumes "length msg < 2 ^ 32"
  shows "unframe style (applyFrame style msg) = Some (msg, [])"
proof -
  let ?n = "length msg"
  have n: "int ?n < 2 ^ 63" using assms by simp
  obtain w where w: "ReadUvarint (encodeVarint (int ?n) @ msg) = (Inr w, msg)" "unat w = ?n"
    using nv_read_ex [OF _ n, of msg] by auto
  note u = u32_bytes [OF assms] take_msg_append [of msg "[]"]
  show ?thesis
    using w u by (auto simp: unframe_def applyFrame_def Let_def)
qed

section \<open>Properties\<close>

text \<open>
  C40: What \<open>parseIntList\<close> returns for every text, by its first part that is an error or a range up to
  the greatest integer. It never returns exactly when there is such a part and it is such a
  range, where the loop has no end. It returns an error exactly when that part is one, its error,
  or when no part is and none stands for a number. In all other cases, and only in these, it
  returns a list: the numbers that the parts stand for, sorted and without duplicates.
\<close>

theorem parseIntList_spec:
  "let parts = split_char (CHR '','') raw; values = \<Union> (part_values ` set parts) in
   (parseIntList raw = None \<longleftrightarrow> (\<exists>p. first_stop parts p \<and> endless_range p)) \<and>
   (\<forall>err. parseIntList raw = Some (Inl err) \<longleftrightarrow>
      (\<exists>p. first_stop parts p \<and> part_range p = Inl err) \<or>
      list_all part_fine parts \<and> values = {} \<and> err = new_err ''empty list'') \<and>
   (\<forall>vs. parseIntList raw = Some (Inr vs) \<longleftrightarrow>
      list_all part_fine parts \<and> vs \<noteq> [] \<and> sorted vs \<and> distinct vs \<and> set vs = values)"
proof -
  obtain parts where parts: "split_char (CHR '','') raw = parts" by blast
  show ?thesis
  proof (cases rule: fine_or_stop [of parts])
    case fine
    obtain ws where ws: "int_parts parts [] = Some (Inr ws)" "distinct ws" "set ws = \<Union> (part_values ` set parts)"
      using int_parts_fine [OF fine(1), of "[]" "[]"] by auto
    have r: "parseIntList raw = (if ws = [] then Some (Inl (new_err ''empty list'')) else Some (Inr (sort ws)))"
      using ws(1) by (simp add: parseIntList_def parts)
    have e: "\<Union> (part_values ` set parts) = {} \<longleftrightarrow> ws = []" using ws(3) by (metis set_empty)
    have u: "sort ws = vs \<longleftrightarrow> sorted vs \<and> distinct vs \<and> set vs = \<Union> (part_values ` set parts)" for vs
      using ws(2,3) sorted_distinct_set_unique [of vs "sort ws"] by auto
    have ne: "sort ws = [] \<longleftrightarrow> ws = []" by (metis length_0_conv length_sort)
    show ?thesis
    proof (cases "ws = []")
      case True
      with r e fine show ?thesis by (auto simp: parts Let_def)
    next
      case False
      with r e fine have "parseIntList raw = Some (Inr (sort ws))" "\<Union> (part_values ` set parts) \<noteq> {}" "sort ws \<noteq> []"
        using ne by simp_all
      with fine u show ?thesis unfolding Let_def parts by (simp only: option.inject sum.inject sum.distinct) blast
    qed
  next
    case (stop p)
    have r: "parseIntList raw = (case part_range p of Inl e \<Rightarrow> Some (Inl e) | Inr _ \<Rightarrow> None)"
      using int_parts_first_stop [OF stop(1)] by (simp add: parseIntList_def parts split: sum.split)
    have nf: "\<not> part_fine p" using stop(1) by (auto simp: first_stop_def)
    have iff: "(\<exists>q. first_stop parts q \<and> P q) \<longleftrightarrow> P p" for P using stop(1,3) by blast
    have en: "endless_range p \<longleftrightarrow> \<not> isl (part_range p)"
      using nf by (auto simp: part_fine_def endless_range_def)
    show ?thesis
      unfolding Let_def parts iff using stop(2) r en by (cases "part_range p") simp_all
  qed
qed

text \<open>The fields that the message of an attempt should have, and the values for which it has them.\<close>

definition attempt_payload :: "attempt \<Rightarrow> byte list" where
  "attempt_payload a =
     (if at_HasCustomPayload a then at_PayloadBytes a
      else fieldVarint (at_InputTag a) (at_InputType a) @ fieldVarint (at_SpecialTag a) (at_SpecialInput a))"

definition attempt_fields :: "attempt \<Rightarrow> (nat \<times> wire_value) list" where
  "attempt_fields a =
     [(nat (at_ServiceTag a), WVarint (nat (at_ServiceID a))), (nat (at_CommandTag a), WVarint (nat (at_CommandID a)))] @
     (if at_PayloadTag a = 0 then [] else [(nat (at_PayloadTag a), WBytes (attempt_payload a))])"

definition attempt_in_range :: "attempt \<Rightarrow> bool" where
  "attempt_in_range a \<longleftrightarrow>
     list_all (\<lambda>t. 0 \<le> t \<and> t < 2 ^ 60) [at_ServiceTag a, at_CommandTag a, at_PayloadTag a] \<and>
     list_all (\<lambda>v. 0 \<le> v \<and> v < 2 ^ 63) [at_ServiceID a, at_CommandID a] \<and>
     length (buildMessage a) < 2 ^ 32"

lemma buildMessage_eq:
  "buildMessage a = fieldVarint (at_ServiceTag a) (at_ServiceID a) @ fieldVarint (at_CommandTag a) (at_CommandID a) @
     (if at_PayloadTag a = 0 then [] else fieldBytes (at_PayloadTag a) (attempt_payload a))"
  by (simp add: buildMessage_def Let_def attempt_payload_def)

lemma read_buildMessage:
  assumes "attempt_in_range a"
  shows "read_fields (buildMessage a) = Some (attempt_fields a)"
proof -
  have r: "0 \<le> at_ServiceTag a" "at_ServiceTag a < 2 ^ 60" "0 \<le> at_CommandTag a" "at_CommandTag a < 2 ^ 60"
    "0 \<le> at_PayloadTag a" "at_PayloadTag a < 2 ^ 60" "0 \<le> at_ServiceID a" "at_ServiceID a < 2 ^ 63"
    "0 \<le> at_CommandID a" "at_CommandID a < 2 ^ 63"
    using assms by (simp_all add: attempt_in_range_def)
  note s = read_fields_fieldVarint [OF r(1,2,7,8)] read_fields_fieldVarint [OF r(3,4,9,10)]
  show ?thesis
  proof (cases "at_PayloadTag a = 0")
    case True
    then show ?thesis using s(2) [of "[]"] by (simp add: buildMessage_eq s attempt_fields_def)
  next
    case False
    have "length (attempt_payload a) \<le> length (buildMessage a)" using False by (simp add: buildMessage_eq fieldBytes_def)
    then have "length (attempt_payload a) < 2 ^ 63" using assms by (simp add: attempt_in_range_def)
    from read_fields_fieldBytes [OF r(5,6) this, of "[]"] False show ?thesis
      by (simp add: buildMessage_eq s attempt_fields_def)
  qed
qed

text \<open>
  C38: What \<open>nvprobe\<close> sends is what it logs: the frame of every attempt that it builds, taken
  apart by the rules of the frame style and of the wire format, gives back the service, the
  command and the payload of the attempt, under field numbers that are all different. The
  hypothesis is that the tags and values of the attempt can be encoded at all.
\<close>

theorem nv_attempt_wire:
  assumes "a \<in> set (buildAttempts LocalAddr cfg)" "attempt_in_range a"
  shows "unframe (at_FrameStyle a) (applyFrame (at_FrameStyle a) (buildMessage a)) = Some (buildMessage a, []) \<and>
    read_fields (buildMessage a) = Some (attempt_fields a) \<and> distinct (map fst (attempt_fields a))"
proof -
  have "length (buildMessage a) < 2 ^ 32" "0 \<le> at_ServiceTag a" "0 \<le> at_CommandTag a" "0 \<le> at_PayloadTag a"
    using assms(2) by (simp_all add: attempt_in_range_def)
  moreover from this tags_differ_built [OF assms(1)] have "distinct (map fst (attempt_fields a))"
    by (auto simp: attempt_fields_def tags_differ_def nat_eq_iff)
  ultimately show ?thesis using unframe_applyFrame read_buildMessage [OF assms(2)] by simp
qed

definition demo_nv :: nv_config where
  "demo_nv = \<lparr>nc_host = ''tv'', nc_port = 8987, nc_monitor = True, nc_monitorHost = ''tv'', nc_monitorPort = 6466,
     nc_certPath = [], nc_keyPath = [], nc_mode = ''special'', nc_frameStyles = [''varint''], nc_serviceTags = [1],
     nc_commandTags = [1, 2], nc_payloadTags = [1, 3], nc_inputTags = [1], nc_specialTags = [1, 2], nc_serviceIDs = [5],
     nc_commandIDs = [0], nc_inputTypes = [1], nc_specialInputs = [30], nc_helloDevInfoTags = [], nc_helloCapabilityTags = [],
     nc_helloLayouts = [], nc_helloName = [], nc_helloPackageName = [], nc_helloAndroidID = [], nc_helloHostValue = [],
     nc_helloRemotePorts = [], nc_helloDeviceOSValues = [], nc_helloCapabilityValues = [], nc_helloPreamble = False,
     nc_connectTimeout = 1, nc_responseWait = 1, nc_pollWindow = 1, nc_pollInterval = 1, nc_delayBetween = 0,
     nc_startAt = 0, nc_limit = 0, nc_stopOnChange = True, nc_logFile = []\<rparr>"

definition demo_attempt :: attempt where
  "demo_attempt = zero_attempt\<lparr>at_FrameStyle := ''varint'', at_ServiceTag := 1, at_CommandTag := 2, at_PayloadTag := 3,
     at_InputTag := 1, at_SpecialTag := 2, at_ServiceID := 5, at_CommandID := 0, at_InputType := 1, at_SpecialInput := 30\<rparr>"

theorem nv_attempt_wire_witness:
  "buildMessage demo_attempt = [8, 5, 16, 0, 26, 4, 8, 1, 16, 30] \<and>
   read_fields (buildMessage demo_attempt) =
     Some [(1, WVarint 5), (2, WVarint 0), (3, WBytes [8, 1, 16, 30])]"
proof -
  have b: "buildMessage demo_attempt = [8, 5, 16, 0, 26, 4, 8, 1, 16, 30]" by code_simp
  have m: "demo_attempt \<in> set (buildAttempts (\<lambda>_. None) demo_nv)"
    by (simp add: buildAttempts_def buildSpecialAttempts_def demo_nv_def demo_attempt_def)
  have "fieldVarint 1 1 @ fieldVarint 2 30 = [8, 1, 16, 30]" by code_simp
  then have f: "attempt_fields demo_attempt = [(1, WVarint 5), (2, WVarint 0), (3, WBytes [8, 1, 16, 30])]"
    by (simp add: attempt_fields_def attempt_payload_def demo_attempt_def zero_attempt_def)
  have "attempt_in_range demo_attempt"
    using b by (simp add: attempt_in_range_def) (simp add: demo_attempt_def)
  from nv_attempt_wire [OF m this] b f show ?thesis by simp
qed

end
