(* ===== verification/Power_Poll.thy ===== *)
theory Power_Poll
  imports Session Xdg_Store
begin

text \<open>
  What the tools \<open>cmd/nvprobe\<close> and \<open>cmd/wakeprobe\<close> have in common: the default target and
  credentials, the attempts that are selected, and the polling of the power state. A loop that
  may not end is a partial function, None when it does not; a division by zero, or a slice of a
  negative capacity, is \<open>Panic\<close>. The clock is an argument: the time at each consultation.
\<close>

section \<open>Outcomes\<close>

datatype 'a outcome = Panic | Ret 'a

type_synonym lines = "(string \<times> farg list) list"

text \<open>An argument printed with \<open>%t\<close>.\<close>

definition bool_arg :: "bool \<Rightarrow> farg" where
  "bool_arg b = FS (if b then ''true'' else ''false'')"

section \<open>Selecting attempts\<close>

text \<open>The attempts from \<open>start-at\<close> on, at most \<open>limit\<close> of them; None if there are none to start at.\<close>

definition select_attempts :: "int \<Rightarrow> int \<Rightarrow> 'a list \<Rightarrow> 'a list option" where
  "select_attempts startAt limit xs =
     (if 0 < startAt \<and> int (length xs) \<le> startAt then None
      else
        (let xs = (if 0 < startAt then drop (nat startAt) xs else xs)
         in Some (if 0 < limit \<and> limit < int (length xs) then take (nat limit) xs else xs)))"

section \<open>The log file\<close>

definition openLogFile :: "string \<Rightarrow> 'a fs_scheme \<Rightarrow> goerr option \<times> 'a fs_scheme" where
  "openLogFile path w =
     (case os_MkdirAll (path_Dir path) 493 w of
        (Some err, w) \<Rightarrow> (Some (wrap_err ''create log dir: %w'' err), w)
      | (None, w) \<Rightarrow>
          (case os_WriteFile path [] 384 w of
             (Some err, w) \<Rightarrow> (Some (wrap_err ''open log file: %w'' err), w)
           | (None, w) \<Rightarrow> (None, w)))"

section \<open>Sampling\<close>

record power_sample =
  sm_Powered :: bool
  sm_HasPower :: bool
  sm_Error :: string

definition zero_sample :: power_sample where
  "zero_sample = \<lparr>sm_Powered = False, sm_HasPower = False, sm_Error = []\<rparr>"

record poll_env =
  pl_atv :: atv_env
  pl_pb :: "remote_message pb"
  pl_Error :: "goerr \<Rightarrow> string"
  pl_now :: "nat \<Rightarrow> int"

definition session_params :: "string \<Rightarrow> int \<Rightarrow> string \<Rightarrow> string \<Rightarrow> send_key_params" where
  "session_params host port cert key =
     \<lparr>sp_Host = host, sp_Port = port, sp_CertPath = cert, sp_KeyPath = key, sp_ReadyTimeout = 0, sp_PostDelay = 0\<rparr>"

definition sample_session :: "poll_env \<Rightarrow> send_key_params \<Rightarrow> nat \<Rightarrow> power_sample \<times> nat" where
  "sample_session E params n =
     (case DialSession (pl_atv E) (pl_pb E) params n of
        (Inl err, n) \<Rightarrow> (zero_sample\<lparr>sm_Error := pl_Error E err\<rparr>, n)
      | (Inr s, n) \<Rightarrow>
          (let (powered, hasPower) = PowerState s in (\<lparr>sm_Powered = powered, sm_HasPower = hasPower, sm_Error = []\<rparr>, n)))"

text \<open>The loop: sampling until a sample hits or the deadline has passed.\<close>

partial_function (option) poll_loop ::
  "(nat \<Rightarrow> power_sample \<times> nat) \<Rightarrow> (power_sample \<Rightarrow> bool) \<Rightarrow> (nat \<Rightarrow> int) \<Rightarrow> int \<Rightarrow> power_sample list \<Rightarrow> nat \<Rightarrow>
    ((power_sample list \<times> bool) \<times> nat) option" where
  "poll_loop smp hit now deadline samples n =
     (let s = fst (smp n); n = snd (smp n); samples = samples @ [s] in
      if hit s then Some ((samples, True), n)
      else if deadline < now n then Some ((samples, False), n + 1)
      else poll_loop smp hit now deadline samples (n + 1))"

declare poll_loop.simps [code]

text \<open>\<open>make([]T, 0, 1+int(window/interval))\<close>; Go's division is towards zero.\<close>

definition make_samples :: "int \<Rightarrow> int \<Rightarrow> unit outcome" where
  "make_samples window interval =
     (if interval = 0 then Panic
      else if 1 + sgn window * sgn interval * (\<bar>window\<bar> div \<bar>interval\<bar>) < 0 then Panic else Ret ())"

definition poll_power ::
  "(nat \<Rightarrow> power_sample \<times> nat) \<Rightarrow> (power_sample \<Rightarrow> bool) \<Rightarrow> (nat \<Rightarrow> int) \<Rightarrow> int \<Rightarrow> int \<Rightarrow> nat \<Rightarrow>
    ((power_sample list \<times> bool) \<times> nat) outcome option" where
  "poll_power smp hit now window interval n =
     (case make_samples window interval of
        Panic \<Rightarrow> Some Panic
      | Ret _ \<Rightarrow> map_option Ret (poll_loop smp hit now (now n + window) [] (n + 1)))"

section \<open>Lemmas\<close>

text \<open>The three ways a loop can go.\<close>

lemma option_outcome_cases:
  obtains (diverges) "r = None" | (panics) "r = Some Panic" | (returns) x where "r = Some (Ret x)"
  by (metis option.exhaust outcome.exhaust)

lemma map_outcome_Ret [simp]: "map_outcome f r = Ret y \<longleftrightarrow> (\<exists>x. r = Ret x \<and> y = f x)"
  by (cases r) auto

lemma map_outcome_Panic [simp]: "map_outcome f r = Panic \<longleftrightarrow> r = Panic"
  by (cases r) auto

lemma DialSession_time: "DialSession env pb params n = (r, n') \<Longrightarrow> n \<le> n'"
  by (auto simp: DialSession_def Let_def split: if_splits sum.splits option.splits prod.splits)

lemma sample_time: "n \<le> snd (sample_session E params n)"
  using DialSession_time [of "pl_atv E" "pl_pb E" params n]
  by (auto simp: sample_session_def Let_def split: prod.splits sum.splits)

lemma Inr_map_sum: "Inr y = map_sum f g x \<longleftrightarrow> (\<exists>z. x = Inr z \<and> y = g z)"
  by (cases x) auto

text \<open>When the clock passes the deadline for good, the loop ends.\<close>

lemma poll_loop_returns:
  assumes "\<And>n. n \<le> snd (smp n)" "\<And>m. N \<le> m \<Longrightarrow> deadline < now m"
  shows "\<exists>r. poll_loop smp hit now deadline samples n = Some r"
proof (induction "N - n" arbitrary: n samples rule: less_induct)
  case less
  show ?case
  proof (cases "hit (fst (smp n)) \<or> deadline < now (snd (smp n))")
    case True
    then show ?thesis by (subst poll_loop.simps) (auto simp: Let_def)
  next
    case False
    then have "\<not> N \<le> snd (smp n)" using assms(2) by blast
    with assms(1) [of n] have "N - (snd (smp n) + 1) < N - n" by arith
    from less [OF this, of "samples @ [fst (smp n)]"] False show ?thesis
      by (subst poll_loop.simps) (simp add: Let_def)
  qed
qed

text \<open>So polling returns when the interval is positive, the window is not negative and time goes on.\<close>

lemma poll_power_returns:
  assumes "0 < interval" "0 \<le> window" "\<And>n. n \<le> snd (smp n)" "\<And>T. \<exists>N. \<forall>m \<ge> N. T < now m"
  shows "\<exists>r. poll_power smp hit now window interval n = Some (Ret r)"
proof -
  from assms(4) [of "now n + window"] obtain N where "\<And>m. N \<le> m \<Longrightarrow> now n + window < now m" by blast
  from poll_loop_returns [of smp N _ now, OF assms(3) this]
  obtain r where "poll_loop smp hit now (now n + window) [] (n + 1) = Some r" by blast
  moreover have "make_samples window interval = Ret ()"
    using assms(1,2) by (simp add: make_samples_def sgn_if)
      (metis add_nonneg_nonneg linorder_not_less pos_imp_zdiv_nonneg_iff zero_le_one)
  ultimately show ?thesis by (simp add: poll_power_def)
qed

text \<open>What the loop returns: the samples up to the first hit, or none of which hits.\<close>

lemma poll_loop_result:
  assumes "poll_loop smp hit now deadline samples n = Some ((ss, found), n')"
  shows "\<exists>new. ss = samples @ new \<and> new \<noteq> [] \<and> (found \<longleftrightarrow> hit (last new)) \<and> list_all (\<lambda>s. \<not> hit s) (butlast new)"
proof -
  have "\<forall>ss found n'. r = ((ss, found), n') \<longrightarrow>
      (\<exists>new. ss = samples @ new \<and> new \<noteq> [] \<and> (found \<longleftrightarrow> hit (last new)) \<and> list_all (\<lambda>s. \<not> hit s) (butlast new))"
    if "poll_loop smp hit now deadline samples n = Some r" for r
  proof (rule poll_loop.raw_induct [OF _ that])
    fix loop smp hit now deadline samples n r
    assume IH: "\<And>smp hit now deadline samples n r. loop smp hit now deadline samples n = Some r \<Longrightarrow>
        \<forall>ss found n'. r = ((ss, found), n') \<longrightarrow>
          (\<exists>new. ss = samples @ new \<and> new \<noteq> [] \<and> (found \<longleftrightarrow> hit (last new)) \<and> list_all (\<lambda>s. \<not> hit s) (butlast new))"
      and run: "(let s = fst (smp n); n = snd (smp n); samples = samples @ [s] in
        if hit s then Some ((samples, True), n)
        else if deadline < now n then Some ((samples, False), n + 1)
        else loop smp hit now deadline samples (n + 1)) = Some r"
    let ?s = "fst (smp n)"
    show "\<forall>ss found n'. r = ((ss, found), n') \<longrightarrow>
        (\<exists>new. ss = samples @ new \<and> new \<noteq> [] \<and> (found \<longleftrightarrow> hit (last new)) \<and> list_all (\<lambda>s. \<not> hit s) (butlast new))"
    proof (cases "hit ?s \<or> deadline < now (snd (smp n))")
      case True
      with run show ?thesis by (auto simp: Let_def intro!: exI [of _ "[?s]"] split: if_splits)
    next
      case False
      with run have "loop smp hit now deadline (samples @ [?s]) (snd (smp n) + 1) = Some r" by (simp add: Let_def)
      from IH [OF this] False show ?thesis
        by (fastforce intro: exI [of _ "?s # new" for new])
    qed
  qed
  with assms show ?thesis by blast
qed

lemma poll_power_result:
  assumes "poll_power smp hit now window interval n = Some (Ret ((ss, found), n'))"
  shows "ss \<noteq> [] \<and> (found \<longleftrightarrow> hit (last ss)) \<and> list_all (\<lambda>s. \<not> hit s) (butlast ss)"
proof -
  from assms have "poll_loop smp hit now (now n + window) [] (n + 1) = Some ((ss, found), n')"
    by (auto simp: poll_power_def split: outcome.splits)
  from poll_loop_result [OF this] show ?thesis by simp
qed

text \<open>A device whose power cannot be read, first for one reason and then for another; a disk.\<close>

definition demo_poll :: poll_env where
  "demo_poll = \<lparr>pl_atv = test_env\<lparr>en_LoadX509KeyPair := (\<lambda>n _ _. Inl (new_err (if n = 0 then ''x'' else ''y'')))\<rparr>,
     pl_pb = few_pb, pl_Error = (\<lambda>err. if err = wrap_err ''load cert/key: %w'' (new_err ''x'') then ''x'' else ''y''), pl_now = int\<rparr>"

definition demo_disk :: fs where
  "demo_disk = \<lparr>fs_configDir = Inr ''/c'', fs_files = Map.empty, fs_dirs = (\<lambda>p. if p = ''/'' then Some 493 else None),
     fs_fault = (\<lambda>_ _. None), fs_short = (\<lambda>_. 0)\<rparr>"

section \<open>A loop over attempts\<close>

text \<open>
  Both tools run through their attempts in the same way: each is a turn that gives its entry of
  the log and says whether to stop. \<open>i\<close> counts the attempts and \<open>n\<close> the time.
\<close>

locale attempt_loop =
  fixes loop :: "nat \<Rightarrow> 'a list \<Rightarrow> nat \<Rightarrow> ('e list \<times> bool) outcome option"
    and turn :: "nat \<Rightarrow> 'a \<Rightarrow> nat \<Rightarrow> ('e \<times> bool \<times> nat) outcome option"
  assumes loop_Nil: "loop i [] n = Some (Ret ([], False))"
    and loop_None: "turn i a n = None \<Longrightarrow> loop i (a # as) n = None"
    and loop_Panic: "turn i a n = Some Panic \<Longrightarrow> loop i (a # as) n = Some Panic"
    and loop_stop: "turn i a n = Some (Ret (e, True, n')) \<Longrightarrow> loop i (a # as) n = Some (Ret ([e], True))"
    and loop_on: "turn i a n = Some (Ret (e, False, n')) \<Longrightarrow>
      loop i (a # as) n = map_option (map_outcome (\<lambda>(es, stopped). (e # es, stopped))) (loop (i + 1) as n')"
begin

lemma turn_cases:
  obtains (diverges) "turn i a n = None" | (panics) "turn i a n = Some Panic"
    | (stops) e n' where "turn i a n = Some (Ret (e, True, n'))"
    | (goes_on) e n' where "turn i a n = Some (Ret (e, False, n'))"
proof (cases "turn i a n" rule: option_outcome_cases)
  case (returns x)
  then show ?thesis using stops goes_on by (cases x) (metis (full_types) surj_pair)
qed (use diverges panics in blast)+

text \<open>If every turn returns, so does the loop.\<close>

lemma returns:
  assumes "\<And>i a n. \<exists>r. turn i a n = Some (Ret r)"
  shows "\<exists>r. loop i as n = Some (Ret r)"
proof (induction as arbitrary: i n)
  case Nil
  show ?case by (rule exI) (rule loop_Nil)
next
  case (Cons a as)
  show ?case
  proof (cases i a n rule: turn_cases)
    case (stops e n')
    then show ?thesis by (auto simp: loop_stop)
  next
    case (goes_on e n')
    with Cons [of "i + 1" n'] show ?thesis by (auto simp: loop_on)
  qed (use assms [of i a n] in simp_all)
qed

lemma log_stopped:
  "loop i as n = Some (Ret (es, stopped)) \<Longrightarrow> stopped \<Longrightarrow> es \<noteq> []"
proof (induction as arbitrary: i n es)
  case (Cons a as)
  show ?case
  proof (cases i a n rule: turn_cases)
    case (goes_on e n')
    with Cons.prems show ?thesis by (auto simp: loop_on)
  qed (use Cons.prems in \<open>auto simp: loop_None loop_Panic loop_stop\<close>)
qed (simp add: loop_Nil)

text \<open>The turns follow each other: each begins at the time at which the one before it ended.\<close>

lemma timed:
  assumes "loop i as n = Some (Ret (es, stopped))"
  shows "\<exists>ts. ts 0 = n \<and>
    (\<forall>j < length es. turn (i + j) (as ! j) (ts j) = Some (Ret (es ! j, stopped \<and> j = length es - 1, ts (Suc j))))"
  using assms
proof (induction as arbitrary: i n es)
  case Nil
  then show ?case by (auto simp: loop_Nil intro: exI [of _ "\<lambda>_. n"])
next
  case (Cons a as)
  show ?case
  proof (cases i a n rule: turn_cases)
    case (stops e n')
    with Cons.prems have "es = [e]" "stopped" by (simp_all add: loop_stop)
    with stops show ?thesis by (intro exI [of _ "case_nat n (\<lambda>_. n')"]) simp
  next
    case (goes_on e n')
    with Cons.prems obtain es' where rest: "loop (i + 1) as n' = Some (Ret (es', stopped))" "es = e # es'"
      by (auto simp: loop_on)
    from Cons.IH [OF rest(1)] obtain ts where ts: "ts 0 = n'"
      "\<And>j. j < length es' \<Longrightarrow> turn (i + 1 + j) (as ! j) (ts j) =
        Some (Ret (es' ! j, stopped \<and> j = length es' - 1, ts (Suc j)))" by blast
    have ne: "stopped \<Longrightarrow> es' \<noteq> []" using log_stopped [OF rest(1)] by blast
    have "turn (i + j) ((a # as) ! j) (case_nat n ts j) =
        Some (Ret (es ! j, stopped \<and> j = length es - 1, case_nat n ts (Suc j)))" if "j < length es" for j
    proof (cases j)
      case 0
      with goes_on rest(2) ne ts(1) show ?thesis by auto
    next
      case (Suc k)
      with that rest(2) ts(2) [of k] show ?thesis by auto
    qed
    then show ?thesis by (intro exI [of _ "case_nat n ts"]) simp
  qed (use Cons.prems in \<open>simp_all add: loop_None loop_Panic\<close>)
qed

text \<open>
  The entries are those of the turns of the first attempts, in order. No turn but the last one
  said stop, and the last one did if the loop stopped; otherwise all attempts were made.
\<close>

lemma log:
  assumes "loop i as n = Some (Ret (es, stopped))"
  shows "length es \<le> length as
    \<and> (\<forall>j < length es. \<exists>n n'. turn (i + j) (as ! j) n = Some (Ret (es ! j, stopped \<and> j = length es - 1, n')))
    \<and> (\<not> stopped \<longrightarrow> length es = length as) \<and> (stopped \<longrightarrow> es \<noteq> [])"
proof -
  have "length es \<le> length as \<and> (\<not> stopped \<longrightarrow> length es = length as)"
    using assms
  proof (induction as arbitrary: i n es)
    case (Cons a as)
    show ?case
    proof (cases i a n rule: turn_cases)
      case (goes_on e n')
      with Cons.prems obtain es' where "loop (i + 1) as n' = Some (Ret (es', stopped))" "es = e # es'"
        by (auto simp: loop_on)
      with Cons.IH [of "i + 1" n' es'] show ?thesis by simp
    qed (use Cons.prems in \<open>auto simp: loop_None loop_Panic loop_stop\<close>)
  qed (simp add: loop_Nil)
  with timed [OF assms] log_stopped [OF assms] show ?thesis by blast
qed

end

end
