(* ===== verification/NvProbe_Run.thy ===== *)
theory NvProbe_Run
  imports NvProbe_Attempts Power_Poll
begin

text \<open>
  \<open>cmd/nvprobe/main.go\<close>: the configuration after the flags are parsed, and the loop that sends
  each attempt and watches the power state. The TLS connections are an argument: what dialling,
  writing and reading give for each attempt.
\<close>

section \<open>Configuration\<close>

definition nv_populateDefaults :: "target_json \<Rightarrow> nv_config \<Rightarrow> 'a fs_scheme \<Rightarrow> nv_config \<times> 'a fs_scheme" where
  "nv_populateDefaults js cfg w =
     (let (cfg, w) =
        (if nc_host cfg = [] \<or> nc_monitorHost cfg = [] \<or> nc_monitorPort cfg = 0 then
           (case target_Load js w of
              (Inl err, w) \<Rightarrow> (cfg, w)
            | (Inr t, w) \<Rightarrow>
                (let cfg = (if nc_host cfg = [] then cfg\<lparr>nc_host := t_Host t\<rparr> else cfg);
                     cfg = (if nc_monitorHost cfg = [] then cfg\<lparr>nc_monitorHost := t_Host t\<rparr> else cfg);
                     cfg = (if nc_monitorPort cfg = 0 \<and> t_Port t \<noteq> 0 then cfg\<lparr>nc_monitorPort := t_Port t\<rparr> else cfg)
                 in (cfg, w)))
         else (cfg, w))
      in if nc_certPath cfg = [] \<or> nc_keyPath cfg = [] then
           (case creds_Load w of
              (Inl err, w) \<Rightarrow> (cfg, w)
            | (Inr creds, w) \<Rightarrow>
                (let cfg = (if nc_certPath cfg = [] then cfg\<lparr>nc_certPath := cr_CertPath creds\<rparr> else cfg);
                     cfg = (if nc_keyPath cfg = [] then cfg\<lparr>nc_keyPath := cr_KeyPath creds\<rparr> else cfg)
                 in (cfg, w)))
         else (cfg, w))"

text \<open>The flags: those that fill the configuration, and the texts of the lists.\<close>

record nv_flags =
  nf_cfg :: nv_config
  nf_frameStyles :: string
  nf_serviceTags :: string
  nf_commandTags :: string
  nf_payloadTags :: string
  nf_inputTags :: string
  nf_specialTags :: string
  nf_serviceIDs :: string
  nf_commandIDs :: string
  nf_inputTypes :: string
  nf_specialInputs :: string
  nf_helloDevInfoTags :: string
  nf_helloCapabilityTags :: string
  nf_helloLayouts :: string
  nf_helloRemotePorts :: string
  nf_helloDeviceOSValues :: string
  nf_helloCapabilityValues :: string

definition parse_into :: "string \<Rightarrow> string \<Rightarrow> (int list \<Rightarrow> 'c res option) \<Rightarrow> 'c res option" where
  "parse_into name raw k =
     (case parseIntList raw of
        None \<Rightarrow> None
      | Some (Inl err) \<Rightarrow> Some (Inl (wrap_err (''parse '' @ name @ '': %w'') err))
      | Some (Inr vs) \<Rightarrow> k vs)"

definition nv_lists :: "unicode \<Rightarrow> nv_flags \<Rightarrow> nv_config \<Rightarrow> nv_config res option" where
  "nv_lists u f cfg =
     (let cfg = cfg\<lparr>nc_frameStyles := parseFrameStyles u (nf_frameStyles f)\<rparr> in
      if length (nc_frameStyles cfg) = 0 then Some (Inl (new_err ''at least one frame style is required''))
      else
        parse_into ''service-tags'' (nf_serviceTags f) (\<lambda>serviceTags.
        parse_into ''command-tags'' (nf_commandTags f) (\<lambda>commandTags.
        parse_into ''payload-tags'' (nf_payloadTags f) (\<lambda>payloadTags.
        parse_into ''input-tags'' (nf_inputTags f) (\<lambda>inputTags.
        parse_into ''special-tags'' (nf_specialTags f) (\<lambda>specialTags.
        parse_into ''service-ids'' (nf_serviceIDs f) (\<lambda>serviceIDs.
        parse_into ''command-ids'' (nf_commandIDs f) (\<lambda>commandIDs.
        parse_into ''input-types'' (nf_inputTypes f) (\<lambda>inputTypes.
        parse_into ''special-inputs'' (nf_specialInputs f) (\<lambda>specialInputs.
        parse_into ''hello-devinfo-tags'' (nf_helloDevInfoTags f) (\<lambda>devInfoTags.
        parse_into ''hello-capability-tags'' (nf_helloCapabilityTags f) (\<lambda>capabilityTags.
          (let layouts = parseStringList (nf_helloLayouts f) in
           if length layouts = 0 then Some (Inl (new_err ''at least one hello layout is required''))
           else
             (case resolveHelloLayouts layouts of
                Inl err \<Rightarrow> Some (Inl (wrap_err ''parse hello-layouts: %w'' err))
              | Inr _ \<Rightarrow>
                  parse_into ''hello-remote-ports'' (nf_helloRemotePorts f) (\<lambda>remotePorts.
                  parse_into ''hello-device-os-values'' (nf_helloDeviceOSValues f) (\<lambda>deviceOSValues.
                  parse_into ''hello-capability-values'' (nf_helloCapabilityValues f) (\<lambda>capabilityValues.
                    Some (Inr (cfg\<lparr>nc_serviceTags := serviceTags, nc_commandTags := commandTags,
                      nc_payloadTags := payloadTags, nc_inputTags := inputTags, nc_specialTags := specialTags,
                      nc_serviceIDs := serviceIDs, nc_commandIDs := commandIDs, nc_inputTypes := inputTypes,
                      nc_specialInputs := specialInputs, nc_helloDevInfoTags := devInfoTags,
                      nc_helloCapabilityTags := capabilityTags, nc_helloLayouts := layouts,
                      nc_helloRemotePorts := remotePorts, nc_helloDeviceOSValues := deviceOSValues,
                      nc_helloCapabilityValues := capabilityValues\<rparr>)))))))))))))))))))"

definition nv_parseConfig ::
  "unicode \<Rightarrow> target_json \<Rightarrow> string \<Rightarrow> nv_flags \<Rightarrow> 'a fs_scheme \<Rightarrow> nv_config res option \<times> 'a fs_scheme" where
  "nv_parseConfig u js tempLog f w =
     (let (cfg, w) = nv_populateDefaults js (nf_cfg f) w in
      if nc_host cfg = [] then (Some (Inl (new_err ''host is required'')), w)
      else
        (let cfg = (if nc_monitorHost cfg = [] then cfg\<lparr>nc_monitorHost := nc_host cfg\<rparr> else cfg);
             cfg = (if nc_monitorPort cfg = 0 then cfg\<lparr>nc_monitorPort := DefaultRemotePort\<rparr> else cfg);
             cfg = (if nc_logFile cfg = [] then cfg\<lparr>nc_logFile := tempLog\<rparr> else cfg);
             cfg = cfg\<lparr>nc_mode := ToLower u (TrimSpace (nc_mode cfg))\<rparr>
         in if nc_mode cfg \<noteq> ''special'' \<and> nc_mode cfg \<noteq> ''empty'' \<and> nc_mode cfg \<noteq> ''hello''
            then (Some (Inl (Errorf ''unsupported mode %q (want special, empty, or hello)'' [FS (nc_mode cfg)] None)), w)
            else if nc_mode cfg = ''hello'' \<and> nc_helloPreamble cfg
            then (Some (Inl (new_err ''hello-preamble cannot be used together with mode=hello'')), w)
            else (nv_lists u f cfg, w)))"

section \<open>Sending\<close>

datatype tls_read = Read_bytes "byte list" | Read_timeout goerr | Read_error goerr

record tls_script =
  ts_Dial :: "goerr option"
  ts_SetDeadline :: "goerr option"
  ts_Handshake :: "goerr option"
  ts_Write :: "nat \<Rightarrow> goerr option"
  ts_SetReadDeadline :: "nat \<Rightarrow> goerr option"
  ts_Read :: "nat \<Rightarrow> tls_read"

definition os_ErrDeadlineExceeded :: goerr where "os_ErrDeadlineExceeded = Sentinel ''i/o timeout''"

text \<open>
  The loop over the payloads, from the \<open>i\<close>-th on: the payloads that were written, and what it returns.
\<close>

fun send_payloads :: "nv_config \<Rightarrow> tls_script \<Rightarrow> nat \<Rightarrow> byte list list \<Rightarrow> byte list list \<times> byte list res" where
  "send_payloads cfg t i [] = ([], Inr [])"
| "send_payloads cfg t i (payload # payloads) =
     (let continue = (case send_payloads cfg t (i + 1) payloads of (sent, r) \<Rightarrow> (payload # sent, r)) in
      case ts_Write t i of
        Some err \<Rightarrow> ([], Inl (wrap_err ''write payload: %w'' err))
      | None \<Rightarrow>
          if nc_responseWait cfg \<le> 0 then continue
          else
            (case ts_SetReadDeadline t i of
               Some err \<Rightarrow> ([payload], Inl (wrap_err ''set read deadline: %w'' err))
             | None \<Rightarrow>
                 (case ts_Read t i of
                    Read_bytes bs \<Rightarrow> ([payload], Inr bs)
                  | Read_timeout err \<Rightarrow> continue
                  | Read_error err \<Rightarrow>
                      if errors_is err os_ErrDeadlineExceeded then continue
                      else ([payload], Inl (wrap_err ''read response: %w'' err)))))"

definition sendTLS :: "nv_config \<Rightarrow> tls_script \<Rightarrow> byte list list \<Rightarrow> byte list list \<times> byte list res" where
  "sendTLS cfg t payloads =
     (case ts_Dial t of
        Some err \<Rightarrow> ([], Inl (wrap_err ''connect tls: %w'' err))
      | None \<Rightarrow>
          (case ts_SetDeadline t of
             Some err \<Rightarrow> ([], Inl (wrap_err ''set deadline: %w'' err))
           | None \<Rightarrow>
               (case ts_Handshake t of
                  Some err \<Rightarrow> ([], Inl (wrap_err ''handshake: %w'' err))
                | None \<Rightarrow> send_payloads cfg t 0 payloads)))"

section \<open>Watching\<close>

definition stateChanged :: "power_sample \<Rightarrow> power_sample \<Rightarrow> bool" where
  "stateChanged before after =
     (if sm_Error before \<noteq> sm_Error after then True
      else if sm_HasPower before \<noteq> sm_HasPower after then True
      else if sm_Powered before \<noteq> sm_Powered after then True
      else False)"

definition lastSample :: "power_sample list \<Rightarrow> power_sample" where
  "lastSample samples = (if length samples = 0 then zero_sample else samples ! (length samples - 1))"

definition nv_samplePowerState :: "poll_env \<Rightarrow> nv_config \<Rightarrow> nat \<Rightarrow> power_sample \<times> nat" where
  "nv_samplePowerState E cfg n =
     (if \<not> nc_monitor cfg \<or> nc_certPath cfg = [] \<or> nc_keyPath cfg = [] \<or> nc_monitorHost cfg = []
      then (zero_sample\<lparr>sm_Error := ''monitoring is not configured''\<rparr>, n)
      else sample_session E
        (session_params (nc_monitorHost cfg) (nc_monitorPort cfg) (nc_certPath cfg) (nc_keyPath cfg)) n)"

definition pollForStateChange ::
  "poll_env \<Rightarrow> nv_config \<Rightarrow> power_sample \<Rightarrow> nat \<Rightarrow> ((power_sample list \<times> bool) \<times> nat) outcome option" where
  "pollForStateChange E cfg baseline n =
     (if \<not> nc_monitor cfg \<or> nc_certPath cfg = [] \<or> nc_keyPath cfg = [] then Some (Ret (([], False), n))
      else poll_power (nv_samplePowerState E cfg) (stateChanged baseline) (pl_now E) (nc_pollWindow cfg)
        (nc_pollInterval cfg) n)"

section \<open>The loop over the attempts\<close>

record attempt_log =
  lg_Index :: nat
  lg_Total :: nat
  lg_Attempt :: attempt
  lg_StartedAt :: int
  lg_EndedAt :: int
  lg_SentHex :: string
  lg_SentHexes :: "string list"
  lg_ResponseHex :: string
  lg_SendError :: string
  lg_PollSamples :: "power_sample list"
  lg_StateChanged :: bool

definition attempt_payloads :: "attempt \<Rightarrow> byte list list" where
  "attempt_payloads a =
     (if 0 < length (at_PreambleBytes a) then [applyFrame (at_FrameStyle a) (at_PreambleBytes a)] else []) @
     [applyFrame (at_FrameStyle a) (buildMessage a)]"

definition attempt_entry ::
  "poll_env \<Rightarrow> nat \<Rightarrow> nat \<Rightarrow> attempt \<Rightarrow> int \<Rightarrow> int \<Rightarrow> byte list res \<Rightarrow> power_sample list \<Rightarrow> bool \<Rightarrow> attempt_log" where
  "attempt_entry E cnt idx a startedAt endedAt r samples changed =
     \<lparr>lg_Index = idx + 1, lg_Total = cnt, lg_Attempt = a, lg_StartedAt = startedAt, lg_EndedAt = endedAt,
      lg_SentHex = hex_EncodeToString (applyFrame (at_FrameStyle a) (buildMessage a)),
      lg_SentHexes = map hex_EncodeToString (attempt_payloads a),
      lg_ResponseHex = (case r of Inl _ \<Rightarrow> [] | Inr response \<Rightarrow> hex_EncodeToString response),
      lg_SendError = (case r of Inl err \<Rightarrow> pl_Error E err | Inr _ \<Rightarrow> []),
      lg_PollSamples = samples, lg_StateChanged = changed\<rparr>"

definition attempt_line :: "nat \<Rightarrow> nat \<Rightarrow> attempt \<Rightarrow> lines" where
  "attempt_line cnt idx a =
     [(''[%04d/%04d] frame=%s svc(tag=%d,val=%d) cmd(tag=%d,val=%d) payload(tag=%d input %d=%d special %d=%d)'',
        [FI (int (idx + 1)), FI (int cnt), FS (at_FrameStyle a), FI (at_ServiceTag a), FI (at_ServiceID a),
         FI (at_CommandTag a), FI (at_CommandID a), FI (at_PayloadTag a), FI (at_InputTag a), FI (at_InputType a),
         FI (at_SpecialTag a), FI (at_SpecialInput a)])] @
     (if at_Template a \<noteq> [] then [('' template=%s'', [FS (at_Template a)])] else []) @
     (if at_PayloadDesc a \<noteq> [] then [('' desc=%s'', [FS (at_PayloadDesc a)])] else []) @
     (if at_PreambleDesc a \<noteq> [] then [('' preamble=%s'', [FS (at_PreambleDesc a)])] else [])"

definition verdict_line :: "poll_env \<Rightarrow> byte list res \<Rightarrow> power_sample list \<Rightarrow> bool \<Rightarrow> lines" where
  "verdict_line E r samples changed =
     (case r of
        Inl err \<Rightarrow> [('' -> send-error: %v'', [FS (pl_Error E err)])]
      | Inr response \<Rightarrow>
          if changed then
            (let s = lastSample samples in
             [('' -> STATE CHANGED hasPower=%t powered=%t err=%q'',
                [bool_arg (sm_HasPower s), bool_arg (sm_Powered s), FS (sm_Error s)])])
          else if 0 < length response then [('' -> response=%s'', [FS (hex_EncodeToString response)])]
          else [('' -> no observable change'', [])])"

text \<open>
  The loop, with the script of each attempt's connection. It gives the log entries, in order, what
  is printed, and whether it stopped on a change.
\<close>

fun nv_loop ::
  "poll_env \<Rightarrow> (nat \<Rightarrow> tls_script) \<Rightarrow> nv_config \<Rightarrow> power_sample \<Rightarrow> nat \<Rightarrow> nat \<Rightarrow> attempt list \<Rightarrow> nat \<Rightarrow>
    (attempt_log list \<times> lines \<times> bool) outcome option" where
  "nv_loop E net cfg baseline cnt idx [] n =
     Some (Ret ([], [(''nvprobe completed without an observable state change.'', [])], False))"
| "nv_loop E net cfg baseline cnt idx (a # as) n =
     (let startedAt = pl_now E n; r = snd (sendTLS cfg (net idx) (attempt_payloads a)) in
      case pollForStateChange E cfg baseline (n + 1) of
        None \<Rightarrow> None
      | Some Panic \<Rightarrow> Some Panic
      | Some (Ret ((samples, changed), n)) \<Rightarrow>
          (let entry = attempt_entry E cnt idx a startedAt (pl_now E n) r samples changed;
               out = attempt_line cnt idx a @ verdict_line E r samples changed in
           if \<not> isl r \<and> changed \<and> nc_stopOnChange cfg
           then Some (Ret ([entry], out @ [(''Stopping after observed power-state change.'', [])], True))
           else
             (case nv_loop E net cfg baseline cnt (idx + 1) as (n + 1) of
                Some (Ret (entries, out', stopped)) \<Rightarrow> Some (Ret (entry # entries, out @ out', stopped))
              | Some Panic \<Rightarrow> Some Panic
              | None \<Rightarrow> None)))"

definition start_lines :: "int \<Rightarrow> nv_config \<Rightarrow> power_sample \<Rightarrow> lines" where
  "start_lines cnt cfg baseline =
     (''nvprobe start: mode=%s host=%s:%d monitor=%t target=%s:%d attempts=%d log=%s'',
        [FS (nc_mode cfg), FS (nc_host cfg), FI (nc_port cfg), bool_arg (nc_monitor cfg), FS (nc_monitorHost cfg),
         FI (nc_monitorPort cfg), FI cnt, FS (nc_logFile cfg)]) #
     (if nc_monitor cfg
      then [(''baseline power: hasPower=%t powered=%t err=%q'',
               [bool_arg (sm_HasPower baseline), bool_arg (sm_Powered baseline), FS (sm_Error baseline)])]
      else [])"

text \<open>\<open>main\<close> after the configuration; an error, with what was printed before, is the exit with 1.\<close>

definition nv_probe ::
  "poll_env \<Rightarrow> (string \<Rightarrow> string option) \<Rightarrow> (nat \<Rightarrow> tls_script) \<Rightarrow> nv_config \<Rightarrow> 'a fs_scheme \<Rightarrow>
    (goerr \<times> lines + attempt_log list \<times> lines \<times> bool) outcome option \<times> 'a fs_scheme" where
  "nv_probe E LocalAddr net cfg w =
     (case openLogFile (nc_logFile cfg) w of
        (Some err, w) \<Rightarrow> (Some (Ret (Inl (err, []))), w)
      | (None, w) \<Rightarrow>
          (let (baseline, n) = (if nc_monitor cfg then nv_samplePowerState E cfg 0 else (zero_sample, 0));
               header = start_lines (countAttempts LocalAddr cfg) cfg baseline;
               attempts = buildAttempts LocalAddr cfg
           in case select_attempts (nc_startAt cfg) (nc_limit cfg) attempts of
                None \<Rightarrow>
                  (Some (Ret (Inl (Errorf ''start-at=%d is past the attempt list (%d)''
                     [FI (nc_startAt cfg), FI (int (length attempts))] None, header))), w)
              | Some attempts \<Rightarrow>
                  (case nv_loop E net cfg baseline (length attempts) 0 attempts n of
                     None \<Rightarrow> (None, w)
                   | Some Panic \<Rightarrow> (Some Panic, w)
                   | Some (Ret (entries, out, stopped)) \<Rightarrow> (Some (Ret (Inr (entries, header @ out, stopped))), w))))"

section \<open>What is sent\<close>

lemma send_payloads_written:
  "send_payloads cfg t i payloads = (sent, r) \<Longrightarrow>
    \<exists>k \<le> length payloads. sent = take k payloads \<and>
      (k = length payloads \<or> (\<exists>err. r = Inl err) \<or>
        (0 < k \<and> 0 < nc_responseWait cfg \<and> (\<exists>bs. r = Inr bs \<and> ts_Read t (i + k - 1) = Read_bytes bs)))"
proof (induction payloads arbitrary: i sent r)
  case Nil
  then show ?case by simp
next
  case (Cons payload payloads)
  obtain sent' r' where rest: "send_payloads cfg t (i + 1) payloads = (sent', r')" by fastforce
  consider (on) "(sent, r) = (payload # sent', r')" | (none) err where "sent = []" "r = Inl err"
    | (err) err where "sent = [payload]" "r = Inl err" | (reply) bs where "sent = [payload]" "r = Inr bs" "0 < nc_responseWait cfg" "ts_Read t i = Read_bytes bs"
    using Cons.prems rest
    by (auto simp: Let_def split: option.splits tls_read.splits if_splits)
  then show ?case
  proof cases
    case on
    from Cons.IH [OF rest] obtain k where k: "k \<le> length payloads" "sent' = take k payloads"
      "k = length payloads \<or> (\<exists>err. r' = Inl err) \<or>
        (0 < k \<and> 0 < nc_responseWait cfg \<and> (\<exists>bs. r' = Inr bs \<and> ts_Read t (i + 1 + k - 1) = Read_bytes bs))"
      by blast
    then show ?thesis using on by (intro exI [of _ "Suc k"]) auto
  next
    case none
    then show ?thesis by (intro exI [of _ 0]) simp
  next
    case err
    then show ?thesis by (intro exI [of _ 1]) simp
  next
    case reply
    then show ?thesis by (intro exI [of _ 1]) auto
  qed
qed

text \<open>
  one exchange with the device writes a prefix of the payloads, in their order; if it is not all of
  them, then either the exchange failed, or the answer that is returned was read right after the last
  payload that was written.
\<close>

theorem sendTLS_written:
  assumes "sendTLS cfg t payloads = (sent, r)"
  shows "\<exists>k \<le> length payloads. sent = take k payloads \<and>
    (k = length payloads \<or> (\<exists>err. r = Inl err) \<or>
      (0 < k \<and> 0 < nc_responseWait cfg \<and> (\<exists>bs. r = Inr bs \<and> ts_Read t (k - 1) = Read_bytes bs)))"
proof (cases "ts_Dial t = None \<and> ts_SetDeadline t = None \<and> ts_Handshake t = None")
  case True
  with assms have "send_payloads cfg t 0 payloads = (sent, r)" by (simp add: sendTLS_def)
  from send_payloads_written [OF this] show ?thesis by simp
next
  case False
  with assms show ?thesis by (auto simp: sendTLS_def split: option.splits)
qed

text \<open>
  So an attempt with a preamble which the device answers is not sent, although the log says it was:
  the answer to the preamble ends the exchange.
\<close>

lemma preamble_reply_ends:
  assumes "ts_Dial t = None" "ts_SetDeadline t = None" "ts_Handshake t = None" "ts_Write t 0 = None"
    "ts_SetReadDeadline t 0 = None" "ts_Read t 0 = Read_bytes bs" "0 < nc_responseWait cfg" "at_PreambleBytes a \<noteq> []"
  shows "sendTLS cfg t (attempt_payloads a) = ([applyFrame (at_FrameStyle a) (at_PreambleBytes a)], Inr bs)"
    and "length (lg_SentHexes (attempt_entry E cnt idx a s e (Inr bs) samples changed)) = 2"
  using assms by (simp_all add: sendTLS_def attempt_payloads_def attempt_entry_def Let_def)

text \<open>A device that answers everything, for the witnesses.\<close>

definition demo_net :: "nat \<Rightarrow> tls_script" where
  "demo_net idx = \<lparr>ts_Dial = None, ts_SetDeadline = None, ts_Handshake = None, ts_Write = (\<lambda>_. None),
     ts_SetReadDeadline = (\<lambda>_. None), ts_Read = (\<lambda>_. Read_bytes [8])\<rparr>"

definition demo_probe :: nv_config where
  "demo_probe = demo_nv\<lparr>nc_certPath := ''c'', nc_keyPath := ''k'', nc_logFile := ''/l'', nc_serviceIDs := [5, 6]\<rparr>"
theorem sendTLS_written_witness:
  "sendTLS demo_probe (demo_net 0) [[1], [2]] = ([[1]], Inr [8]) \<and>
   (\<exists>k \<le> 2. [[1]] = take k [[1], [2::byte]] \<and> 0 < k)"
proof -
  have "sendTLS demo_probe (demo_net 0) [[1], [2]] = ([[1]], Inr [8])"
    by (simp add: sendTLS_def demo_net_def demo_probe_def demo_nv_def Let_def)
  with sendTLS_written [OF this] show ?thesis by (auto simp: numeral_2_eq_2)
qed

section \<open>The runs\<close>

lemma nv_sample_time: "n \<le> snd (nv_samplePowerState E cfg n)"
  by (simp add: nv_samplePowerState_def sample_time)

lemma pollForStateChange_returns:
  assumes "0 < nc_pollInterval cfg" "0 \<le> nc_pollWindow cfg" "\<And>T. \<exists>N. \<forall>m \<ge> N. T < pl_now E m"
  shows "\<exists>r. pollForStateChange E cfg baseline n = Some (Ret r)"
proof (cases "\<not> nc_monitor cfg \<or> nc_certPath cfg = [] \<or> nc_keyPath cfg = []")
  case True
  then show ?thesis by (auto simp: pollForStateChange_def)
next
  case False
  with poll_power_returns [OF assms(1,2) nv_sample_time assms(3)] show ?thesis
    by (simp add: pollForStateChange_def)
qed

text \<open>The log: one entry per attempt, in order, up to the first one whose change stops the run.\<close>

definition stops :: "nv_config \<Rightarrow> attempt_log \<Rightarrow> bool" where
  "stops cfg e = (lg_SendError e = [] \<and> lg_StateChanged e \<and> nc_stopOnChange cfg)"

text \<open>One turn of the loop: the entry it makes, and whether it is the last one.\<close>

definition nv_turn ::
  "poll_env \<Rightarrow> (nat \<Rightarrow> tls_script) \<Rightarrow> nv_config \<Rightarrow> power_sample \<Rightarrow> nat \<Rightarrow> nat \<Rightarrow> attempt \<Rightarrow> nat \<Rightarrow>
    (attempt_log \<times> bool \<times> nat) outcome option" where
  "nv_turn E net cfg baseline cnt idx a n =
     (let r = snd (sendTLS cfg (net idx) (attempt_payloads a)) in
      map_option (map_outcome (\<lambda>((samples, changed), n').
        (attempt_entry E cnt idx a (pl_now E n) (pl_now E n') r samples changed,
         \<not> isl r \<and> changed \<and> nc_stopOnChange cfg, n' + 1)))
        (pollForStateChange E cfg baseline (n + 1)))"

definition nv_entries ::
  "poll_env \<Rightarrow> (nat \<Rightarrow> tls_script) \<Rightarrow> nv_config \<Rightarrow> power_sample \<Rightarrow> nat \<Rightarrow> nat \<Rightarrow> attempt list \<Rightarrow> nat \<Rightarrow>
    (attempt_log list \<times> bool) outcome option" where
  "nv_entries E net cfg baseline cnt idx as n =
     map_option (map_outcome (\<lambda>(es, out, stopped). (es, stopped))) (nv_loop E net cfg baseline cnt idx as n)"

lemma nv_loop_step:
  assumes "pollForStateChange E cfg baseline (n + 1) = Some (Ret ((samples, changed), n'))"
  shows "nv_entries E net cfg baseline cnt idx (a # as) n =
    (let r = snd (sendTLS cfg (net idx) (attempt_payloads a));
         e = attempt_entry E cnt idx a (pl_now E n) (pl_now E n') r samples changed
     in if \<not> isl r \<and> changed \<and> nc_stopOnChange cfg then Some (Ret ([e], True))
        else map_option (map_outcome (\<lambda>(es, stopped). (e # es, stopped)))
          (nv_entries E net cfg baseline cnt (idx + 1) as (n' + 1)))"
  unfolding nv_entries_def nv_loop.simps Let_def assms option.case outcome.case prod.case
  by (cases "nv_loop E net cfg baseline cnt (idx + 1) as (n' + 1)" rule: option_outcome_cases)
    (auto split: prod.splits)

interpretation nv_turns: attempt_loop "nv_entries E net cfg baseline cnt" "nv_turn E net cfg baseline cnt"
  for E net cfg baseline cnt
proof
  fix i a as n e n'
  show "nv_entries E net cfg baseline cnt i [] n = Some (Ret ([], False))"
    by (simp add: nv_entries_def)
  show "nv_entries E net cfg baseline cnt i (a # as) n = None" if "nv_turn E net cfg baseline cnt i a n = None"
    using that by (simp add: nv_turn_def nv_entries_def Let_def)
  show "nv_entries E net cfg baseline cnt i (a # as) n = Some Panic"
    if "nv_turn E net cfg baseline cnt i a n = Some Panic"
    using that by (simp add: nv_turn_def nv_entries_def Let_def)
  show "nv_entries E net cfg baseline cnt i (a # as) n = Some (Ret ([e], True))"
    if "nv_turn E net cfg baseline cnt i a n = Some (Ret (e, True, n'))"
    using that by (auto simp: nv_turn_def nv_loop_step Let_def)
  show "nv_entries E net cfg baseline cnt i (a # as) n =
      map_option (map_outcome (\<lambda>(es, stopped). (e # es, stopped))) (nv_entries E net cfg baseline cnt (i + 1) as n')"
    if "nv_turn E net cfg baseline cnt i a n = Some (Ret (e, False, n'))"
    using that by (auto simp: nv_turn_def nv_loop_step Let_def)
qed

lemma nv_loop_returns:
  assumes "0 < nc_pollInterval cfg" "0 \<le> nc_pollWindow cfg" "\<And>T. \<exists>N. \<forall>m \<ge> N. T < pl_now E m"
  shows "\<exists>r. nv_loop E net cfg baseline cnt idx as n = Some (Ret r)"
proof -
  have "\<exists>r. nv_turn E net cfg baseline cnt i a n = Some (Ret r)" for i a n
    using pollForStateChange_returns [OF assms, of baseline "n + 1"] by (auto simp: nv_turn_def Let_def)
  from nv_turns.returns [OF this, of idx as n] show ?thesis by (auto simp: nv_entries_def)
qed

text \<open>
  What an entry says: the attempt, begun at \<open>n\<close>, what the exchange with the device gave, and the
  samples after it, none of which but the last differs from the baseline; \<open>n'\<close> is when the next
  attempt begins.
\<close>

definition entry_of ::
  "poll_env \<Rightarrow> (nat \<Rightarrow> tls_script) \<Rightarrow> nv_config \<Rightarrow> power_sample \<Rightarrow> nat \<Rightarrow> nat \<Rightarrow> attempt \<Rightarrow> nat \<Rightarrow> nat \<Rightarrow> attempt_log \<Rightarrow> bool" where
  "entry_of E net cfg baseline cnt idx a n n' e \<longleftrightarrow>
     (\<exists>m. pollForStateChange E cfg baseline (n + 1) = Some (Ret ((lg_PollSamples e, lg_StateChanged e), m)) \<and>
        n' = m + 1 \<and> lg_StartedAt e = pl_now E n \<and> lg_EndedAt e = pl_now E m) \<and>
     lg_Index e = idx + 1 \<and> lg_Total e = cnt \<and> lg_Attempt e = a \<and>
     lg_SentHexes e = map hex_EncodeToString (attempt_payloads a) \<and>
     (case snd (sendTLS cfg (net idx) (attempt_payloads a)) of
        Inl err \<Rightarrow> lg_ResponseHex e = [] \<and> lg_SendError e = pl_Error E err
      | Inr response \<Rightarrow> lg_ResponseHex e = hex_EncodeToString response \<and> lg_SendError e = []) \<and>
     (if nc_monitor cfg \<and> nc_certPath cfg \<noteq> [] \<and> nc_keyPath cfg \<noteq> []
      then lg_PollSamples e \<noteq> [] \<and> (lg_StateChanged e \<longleftrightarrow> stateChanged baseline (last (lg_PollSamples e))) \<and>
        list_all (\<lambda>smp. \<not> stateChanged baseline smp) (butlast (lg_PollSamples e))
      else lg_PollSamples e = [] \<and> \<not> lg_StateChanged e)"

lemma nv_turn_entry:
  assumes "nv_turn E net cfg baseline cnt idx a n = Some (Ret (e, last_one, n'))" "\<And>err. pl_Error E err \<noteq> []"
  shows "entry_of E net cfg baseline cnt idx a n n' e \<and> (last_one \<longleftrightarrow> stops cfg e)"
proof -
  let ?r = "snd (sendTLS cfg (net idx) (attempt_payloads a))"
  from assms(1) obtain samples changed m
    where poll: "pollForStateChange E cfg baseline (n + 1) = Some (Ret ((samples, changed), m))"
      and e: "e = attempt_entry E cnt idx a (pl_now E n) (pl_now E m) ?r samples changed" and n': "n' = m + 1"
      and l: "last_one \<longleftrightarrow> \<not> isl ?r \<and> changed \<and> nc_stopOnChange cfg"
    by (auto simp: nv_turn_def Let_def)
  have smp: "if nc_monitor cfg \<and> nc_certPath cfg \<noteq> [] \<and> nc_keyPath cfg \<noteq> []
      then samples \<noteq> [] \<and> (changed \<longleftrightarrow> stateChanged baseline (last samples)) \<and>
        list_all (\<lambda>smp. \<not> stateChanged baseline smp) (butlast samples)
      else samples = [] \<and> \<not> changed"
    using poll poll_power_result [of _ "stateChanged baseline"] by (auto simp: pollForStateChange_def split: if_splits)
  have "stops cfg e \<longleftrightarrow> \<not> isl ?r \<and> changed \<and> nc_stopOnChange cfg"
    unfolding e using assms(2) by (cases ?r) (simp_all add: stops_def attempt_entry_def)
  moreover have "entry_of E net cfg baseline cnt idx a n n' e"
    unfolding entry_of_def e n' using poll smp by (cases ?r) (simp_all add: attempt_entry_def)
  ultimately show ?thesis using l by blast
qed

lemma nv_loop_log:
  assumes "nv_loop E net cfg baseline cnt 0 as n = Some (Ret (entries, out, stopped))"
    "\<And>err. pl_Error E err \<noteq> []"
  shows "\<exists>times. length entries \<le> length as \<and> times 0 = n
    \<and> (\<forall>j < length entries. entry_of E net cfg baseline cnt j (as ! j) (times j) (times (Suc j)) (entries ! j)
        \<and> (stops cfg (entries ! j) \<longleftrightarrow> stopped \<and> j = length entries - 1))
    \<and> (\<not> stopped \<longrightarrow> length entries = length as) \<and> (stopped \<longrightarrow> entries \<noteq> [])"
proof -
  from assms(1) have run: "nv_entries E net cfg baseline cnt 0 as n = Some (Ret (entries, stopped))"
    by (simp add: nv_entries_def)
  from nv_turns.timed [OF run] obtain times where t: "times 0 = n"
    "\<forall>j < length entries. nv_turn E net cfg baseline cnt (0 + j) (as ! j) (times j) =
       Some (Ret (entries ! j, stopped \<and> j = length entries - 1, times (Suc j)))" by blast
  have "entry_of E net cfg baseline cnt j (as ! j) (times j) (times (Suc j)) (entries ! j)
      \<and> (stops cfg (entries ! j) \<longleftrightarrow> stopped \<and> j = length entries - 1)" if "j < length entries" for j
    using nv_turn_entry [OF _ assms(2)] t(2) that by fastforce
  with t(1) nv_turns.log [OF run] show ?thesis by blast
qed

text \<open>
  with a positive poll interval, a poll window that is not negative and a clock that passes every
  time, a run of nvprobe over its attempts always ends, without a panic.
\<close>

theorem nv_probe_returns:
  assumes "0 < nc_pollInterval cfg" "0 \<le> nc_pollWindow cfg" "\<And>T. \<exists>N. \<forall>m \<ge> N. T < pl_now E m"
  shows "\<exists>r w'. nv_probe E LocalAddr net cfg w = (Some (Ret r), w')"
proof (cases "openLogFile (nc_logFile cfg) w")
  case (Pair err w1)
  let ?as = "buildAttempts LocalAddr cfg"
  let ?b = "if nc_monitor cfg then nv_samplePowerState E cfg 0 else (zero_sample, 0)"
  note start = nv_probe_def Let_def Pair option.case prod.case
  show ?thesis
  proof (cases err)
    case (Some e)
    then show ?thesis by (simp add: start)
  next
    case None
    show ?thesis
    proof (cases "select_attempts (nc_startAt cfg) (nc_limit cfg) ?as")
      case None
      then show ?thesis using \<open>err = None\<close> by (auto simp: start split: prod.splits)
    next
      case (Some as)
      from nv_loop_returns [OF assms, of net "fst ?b" "length as" 0 as "snd ?b"] obtain entries out stopped where "nv_loop E net cfg (fst ?b) (length as) 0 as (snd ?b) = Some (Ret (entries, out, stopped))"
        by (metis surj_pair)
      then show ?thesis using \<open>err = None\<close> Some by (simp add: start case_prod_unfold)
    qed
  qed
qed

theorem nv_probe_returns_witness:
  "\<exists>r w'. nv_probe demo_poll (\<lambda>_. None) demo_net demo_probe demo_disk = (Some (Ret r), w')"
proof (rule nv_probe_returns)
  show "0 < nc_pollInterval demo_probe" "0 \<le> nc_pollWindow demo_probe" by (simp_all add: demo_probe_def demo_nv_def)
  show "\<exists>N. \<forall>m \<ge> N. T < pl_now demo_poll m" for T
    by (intro exI [of _ "nat T + 1"]) (auto simp: demo_poll_def)
qed

text \<open>
  C15: When nvprobe ends with a log, its entries are those of the selected attempts, in order, the first
  made right after the baseline was sampled (if the power is monitored; it is the empty sample
  otherwise) and each after the one before. An entry has its attempt, number, payloads, and the
  response or the error of its exchange, and the power samples that followed, with a change exactly
  when the last of them differs from the baseline. The run stopped early exactly when
  stop-on-change is set and the last entry has a change and no send error; no other entry is like
  that, and if the run did not stop early, every selected attempt was made.
\<close>

theorem nv_probe_log:
  assumes "nv_probe E LocalAddr net cfg w = (Some (Ret (Inr (entries, out, stopped))), w')"
    "\<And>err. pl_Error E err \<noteq> []"
  shows "let (baseline, start) = (if nc_monitor cfg then nv_samplePowerState E cfg 0 else (zero_sample, 0)) in
    \<exists>attempts times. select_attempts (nc_startAt cfg) (nc_limit cfg) (buildAttempts LocalAddr cfg) = Some attempts
    \<and> length entries \<le> length attempts \<and> times 0 = start
    \<and> (\<forall>j < length entries.
        entry_of E net cfg baseline (length attempts) j (attempts ! j) (times j) (times (Suc j)) (entries ! j)
        \<and> (lg_SendError (entries ! j) = [] \<and> lg_StateChanged (entries ! j) \<and> nc_stopOnChange cfg
             \<longleftrightarrow> stopped \<and> j = length entries - 1))
    \<and> (\<not> stopped \<longrightarrow> length entries = length attempts) \<and> (stopped \<longrightarrow> entries \<noteq> [])"
proof -
  obtain baseline start where b: "(if nc_monitor cfg then nv_samplePowerState E cfg 0 else (zero_sample, 0)) = (baseline, start)"
    by fastforce
  from assms(1) obtain attempts out'
    where sel: "select_attempts (nc_startAt cfg) (nc_limit cfg) (buildAttempts LocalAddr cfg) = Some attempts"
      and run: "nv_loop E net cfg baseline (length attempts) 0 attempts start = Some (Ret (entries, out', stopped))"
    unfolding nv_probe_def Let_def b by (auto split: prod.splits option.splits outcome.splits)
  from nv_loop_log [OF run assms(2)] sel show ?thesis unfolding b Let_def prod.case stops_def by blast
qed

theorem nv_probe_log_witness:
  "\<exists>e out w'. nv_probe demo_poll (\<lambda>_. None) demo_net demo_probe demo_disk = (Some (Ret (Inr ([e], out, True))), w')
    \<and> lg_StateChanged e \<and> lg_Attempt e = demo_attempt \<and> lg_Total e = 2
    \<and> stateChanged (fst (nv_samplePowerState demo_poll demo_probe 0)) (last (lg_PollSamples e))"
proof -
  have "map_option (map_outcome (map_sum (\<lambda>e. ()) (\<lambda>(es, os, b). (length es, b))))
      (fst (nv_probe demo_poll (\<lambda>_. None) demo_net demo_probe demo_disk)) = Some (Ret (Inr (1, True)))" by code_simp
  then obtain e out w' where run:
    "nv_probe demo_poll (\<lambda>_. None) demo_net demo_probe demo_disk = (Some (Ret (Inr ([e], out, True))), w')"
    by (cases "nv_probe demo_poll (\<lambda>_. None) demo_net demo_probe demo_disk") (auto simp: Inr_map_sum length_Suc_conv eq_commute [of "Suc 0"])
  have "pl_Error demo_poll err \<noteq> []" for err by (simp add: demo_poll_def)
  note log = nv_probe_log [OF run this]
  have mon: "nc_monitor demo_probe" "nc_certPath demo_probe \<noteq> []" "nc_keyPath demo_probe \<noteq> []"
    by (simp_all add: demo_probe_def demo_nv_def)
  have "map_option (\<lambda>as. (take 1 as, length as))
      (select_attempts (nc_startAt demo_probe) (nc_limit demo_probe) (buildAttempts (\<lambda>_. None) demo_probe)) = Some ([demo_attempt], 2)"
    by code_simp
  then obtain attempts where sel: "select_attempts (nc_startAt demo_probe) (nc_limit demo_probe) (buildAttempts (\<lambda>_. None) demo_probe) = Some attempts"
    "attempts ! 0 = demo_attempt" "length attempts = 2"
    by (auto simp: take_Suc_conv_app_nth split: list.splits)
  obtain b n where b: "nv_samplePowerState demo_poll demo_probe 0 = (b, n)" by fastforce
  from log have "\<exists>n n'. entry_of demo_poll demo_net demo_probe b 2 0 demo_attempt n n' e \<and> lg_StateChanged e"
    using sel mon(1) b by auto
  then show ?thesis using run b mon by (auto simp: entry_of_def)
qed

end
