(* ===== verification/Wakeprobe.thy ===== *)
theory Wakeprobe
  imports Power_Poll
begin

text \<open>
  \<open>cmd/wakeprobe/main.go\<close>: the tool that tries which key wakes the device. The names of the key
  codes are a map of the protocol package; the numbers in it are an argument, in the order in
  which Go's loop happens to visit them, and so is the conversion of a number to a key code.
\<close>

section \<open>Configuration\<close>

record wk_config =
  wc_host :: string
  wc_port :: int
  wc_certPath :: string
  wc_keyPath :: string
  wc_mode :: string
  wc_withLong :: bool
  wc_settle :: int
  wc_pollWindow :: int
  wc_pollInterval :: int
  wc_delayBetween :: int
  wc_connectTimeout :: int
  wc_startAt :: int
  wc_limit :: int
  wc_stopOnWake :: bool
  wc_logFile :: string

definition wk_populateDefaults :: "target_json \<Rightarrow> wk_config \<Rightarrow> 'a fs_scheme \<Rightarrow> wk_config \<times> 'a fs_scheme" where
  "wk_populateDefaults js cfg w =
     (let (cfg, w) =
        (if wc_host cfg = [] \<or> wc_port cfg = 0 then
           (case target_Load js w of
              (Inl err, w) \<Rightarrow> (cfg, w)
            | (Inr t, w) \<Rightarrow>
                (let cfg = (if wc_host cfg = [] then cfg\<lparr>wc_host := t_Host t\<rparr> else cfg);
                     cfg = (if wc_port cfg = 0 then cfg\<lparr>wc_port := t_Port t\<rparr> else cfg)
                 in (cfg, w)))
         else (cfg, w))
      in if wc_certPath cfg = [] \<or> wc_keyPath cfg = [] then
           (case creds_Load w of
              (Inl err, w) \<Rightarrow> (cfg, w)
            | (Inr creds, w) \<Rightarrow>
                (let cfg = (if wc_certPath cfg = [] then cfg\<lparr>wc_certPath := cr_CertPath creds\<rparr> else cfg);
                     cfg = (if wc_keyPath cfg = [] then cfg\<lparr>wc_keyPath := cr_KeyPath creds\<rparr> else cfg)
                 in (cfg, w)))
         else (cfg, w))"

text \<open>\<open>tempLog\<close> is the path the tool makes from the directory for temporary files and the time.\<close>

definition wk_parseConfig :: "target_json \<Rightarrow> string \<Rightarrow> wk_config \<Rightarrow> 'a fs_scheme \<Rightarrow> wk_config res \<times> 'a fs_scheme" where
  "wk_parseConfig js tempLog flags w =
     (let (cfg, w) = wk_populateDefaults js flags w in
      if wc_host cfg = [] then (Inl (new_err ''host is required''), w)
      else if wc_certPath cfg = [] \<or> wc_keyPath cfg = []
      then (Inl (new_err ''cert and key paths are required''), w)
      else
        (let cfg = (if wc_port cfg = 0 then cfg\<lparr>wc_port := DefaultRemotePort\<rparr> else cfg);
             cfg = (if wc_logFile cfg = [] then cfg\<lparr>wc_logFile := tempLog\<rparr> else cfg)
         in (Inr cfg, w)))"

section \<open>Attempts\<close>

record key_attempt =
  ka_keyCode :: keycode
  ka_direction :: direction

definition likely_codes :: "keycode list" where
  "likely_codes =
     [KEYCODE_WAKEUP, KEYCODE_POWER, KEYCODE_TV_POWER, KEYCODE_STB_POWER, KEYCODE_AVR_POWER, KEYCODE_HOME,
      KEYCODE_SLEEP, KEYCODE_SOFT_SLEEP, KEYCODE_ALL_APPS, KEYCODE_SYSTEM_NAVIGATION_UP]"

definition allKnownKeyCodes :: "(int \<Rightarrow> keycode) \<Rightarrow> int list \<Rightarrow> keycode list" where
  "allKnownKeyCodes code names = map code (sort (filter (\<lambda>v. v \<noteq> 0) names))"

definition code_attempts :: "bool \<Rightarrow> keycode \<Rightarrow> key_attempt list" where
  "code_attempts withLong c =
     \<lparr>ka_keyCode = c, ka_direction = SHORT\<rparr> #
     (if withLong
      then [\<lparr>ka_keyCode = c, ka_direction = START_LONG\<rparr>, \<lparr>ka_keyCode = c, ka_direction = END_LONG\<rparr>]
      else [])"

definition candidateAttempts ::
  "unicode \<Rightarrow> (int \<Rightarrow> keycode) \<Rightarrow> int list \<Rightarrow> string \<Rightarrow> bool \<Rightarrow> key_attempt list res" where
  "candidateAttempts u code names mode withLong =
     (let m = ToLower u (TrimSpace mode) in
      if m = ''likely'' then Inr (concat (map (code_attempts withLong) likely_codes))
      else if m = ''full'' then Inr (concat (map (code_attempts withLong) (allKnownKeyCodes code names)))
      else Inl (Errorf ''unsupported mode %q (want likely or full)'' [FS mode] None))"

section \<open>Sending and watching\<close>

text \<open>The environment: that of the polling, and the names of the protocol package.\<close>

record wake_env =
  wv_poll :: poll_env
  wv_code :: "int \<Rightarrow> keycode"
  wv_names :: "int list"
  wv_direction :: "direction \<Rightarrow> string"

definition wk_params :: "wk_config \<Rightarrow> send_key_params" where
  "wk_params cfg = session_params (wc_host cfg) (wc_port cfg) (wc_certPath cfg) (wc_keyPath cfg)"

definition sendAttempt :: "poll_env \<Rightarrow> wk_config \<Rightarrow> keycode \<Rightarrow> direction \<Rightarrow> nat \<Rightarrow> goerr option \<times> nat" where
  "sendAttempt E cfg keyCode dir n =
     (case DialSession (pl_atv E) (pl_pb E) (wk_params cfg) n of
        (Inl err, n) \<Rightarrow> (Some err, n)
      | (Inr s, n) \<Rightarrow>
          (case SendKeyCode (pl_atv E) (pl_pb E) s keyCode dir n of
             (Inl err, _, n) \<Rightarrow> (Some err, n)
           | (Inr _, _, n) \<Rightarrow> (None, n)))"

definition wk_samplePowerState :: "poll_env \<Rightarrow> wk_config \<Rightarrow> nat \<Rightarrow> power_sample \<times> nat" where
  "wk_samplePowerState E cfg n = sample_session E (wk_params cfg) n"

definition awake :: "power_sample \<Rightarrow> bool" where
  "awake s = (sm_HasPower s \<and> sm_Powered s)"

text \<open>The last sample is returned a second time, as the state after the attempt.\<close>

definition pollForWake ::
  "poll_env \<Rightarrow> wk_config \<Rightarrow> nat \<Rightarrow> ((power_sample list \<times> power_sample \<times> bool) \<times> nat) outcome option" where
  "pollForWake E cfg n =
     map_option (map_outcome (\<lambda>((samples, woke), n). ((samples, last samples, woke), n)))
       (poll_power (wk_samplePowerState E cfg) awake (pl_now E) (wc_pollWindow cfg) (wc_pollInterval cfg) n)"

section \<open>The loop over the attempts\<close>

record wk_log =
  wl_Index :: nat
  wl_Total :: nat
  wl_KeyCode :: string
  wl_Direction :: string
  wl_StartedAt :: int
  wl_EndedAt :: int
  wl_SendError :: string
  wl_Before :: power_sample
  wl_After :: power_sample
  wl_PollSamples :: "power_sample list"
  wl_WakeDetected :: bool

definition wk_entry ::
  "wake_env \<Rightarrow> nat \<Rightarrow> nat \<Rightarrow> key_attempt \<Rightarrow> power_sample \<Rightarrow> int \<Rightarrow> int \<Rightarrow> goerr option \<Rightarrow> power_sample list \<Rightarrow>
    power_sample \<Rightarrow> bool \<Rightarrow> wk_log" where
  "wk_entry W cnt idx a before startedAt endedAt sendErr polls after woke =
     \<lparr>wl_Index = idx + 1, wl_Total = cnt,
      wl_KeyCode = en_keycode_String (pl_atv (wv_poll W)) (ka_keyCode a), wl_Direction = wv_direction W (ka_direction a),
      wl_StartedAt = startedAt, wl_EndedAt = endedAt,
      wl_SendError = (case sendErr of None \<Rightarrow> [] | Some err \<Rightarrow> pl_Error (wv_poll W) err),
      wl_Before = before, wl_After = after, wl_PollSamples = polls, wl_WakeDetected = woke\<rparr>"

definition wk_verdict :: "wake_env \<Rightarrow> goerr option \<Rightarrow> power_sample \<Rightarrow> bool \<Rightarrow> lines" where
  "wk_verdict W sendErr after woke =
     (case sendErr of
        Some err \<Rightarrow> [(''send-error: %v'', [FS (pl_Error (wv_poll W) err)])]
      | None \<Rightarrow>
          if woke
          then [(''WAKE DETECTED (hasPower=%t powered=%t)'', [bool_arg (sm_HasPower after), bool_arg (sm_Powered after)])]
          else [(''no change (hasPower=%t powered=%t)'', [bool_arg (sm_HasPower after), bool_arg (sm_Powered after)])])"

text \<open>
  The loop. It gives the log entries, in order, what is printed, and whether it stopped because the
  device woke.
\<close>

fun wk_loop ::
  "wake_env \<Rightarrow> wk_config \<Rightarrow> nat \<Rightarrow> nat \<Rightarrow> key_attempt list \<Rightarrow> nat \<Rightarrow> (wk_log list \<times> lines \<times> bool) outcome option" where
  "wk_loop W cfg cnt idx [] n =
     Some (Ret ([], [(''Wake probe completed without detecting powered=true.'', [])], False))"
| "wk_loop W cfg cnt idx (a # as) n =
     (let (before, n) = wk_samplePowerState (wv_poll W) cfg n;
          out = [(''[%03d/%03d] %s / %s ... '',
            [FI (int (idx + 1)), FI (int cnt), FS (en_keycode_String (pl_atv (wv_poll W)) (ka_keyCode a)),
             FS (wv_direction W (ka_direction a))])];
          startedAt = pl_now (wv_poll W) n;
          (sendErr, n) = sendAttempt (wv_poll W) cfg (ka_keyCode a) (ka_direction a) (n + 1) in
      case pollForWake (wv_poll W) cfg n of
        None \<Rightarrow> None
      | Some Panic \<Rightarrow> Some Panic
      | Some (Ret ((polls, after, woke), n)) \<Rightarrow>
          (let entry = wk_entry W cnt idx a before startedAt (pl_now (wv_poll W) n) sendErr polls after woke;
               out = out @ wk_verdict W sendErr after woke in
           if sendErr = None \<and> woke \<and> wc_stopOnWake cfg
           then Some (Ret ([entry], out @ [(''Stopping after successful wake detection.'', [])], True))
           else
             (case wk_loop W cfg cnt (idx + 1) as (n + 1) of
                None \<Rightarrow> None
              | Some Panic \<Rightarrow> Some Panic
              | Some (Ret (entries, out', stopped)) \<Rightarrow> Some (Ret (entry # entries, out @ out', stopped)))))"

definition wk_header :: "wk_config \<Rightarrow> nat \<Rightarrow> lines" where
  "wk_header cfg cnt =
     [(''Wake probe starting: host=%s port=%d mode=%s candidates=%d withLong=%t'',
         [FS (wc_host cfg), FI (wc_port cfg), FS (wc_mode cfg), FI (int cnt), bool_arg (wc_withLong cfg)]),
      (''Log file: %s'', [FS (wc_logFile cfg)])]"

text \<open>\<open>main\<close> after the configuration; an error is the exit with 1.\<close>

definition wk_probe ::
  "wake_env \<Rightarrow> wk_config \<Rightarrow> 'a fs_scheme \<Rightarrow> (wk_log list \<times> lines \<times> bool) res outcome option \<times> 'a fs_scheme" where
  "wk_probe W cfg w =
     (case openLogFile (wc_logFile cfg) w of
        (Some err, w) \<Rightarrow> (Some (Ret (Inl err)), w)
      | (None, w) \<Rightarrow>
          (case candidateAttempts (en_unicode (pl_atv (wv_poll W))) (wv_code W) (wv_names W) (wc_mode cfg) (wc_withLong cfg) of
             Inl err \<Rightarrow> (Some (Ret (Inl err)), w)
           | Inr candidates \<Rightarrow>
               (case select_attempts (wc_startAt cfg) (wc_limit cfg) candidates of
                  None \<Rightarrow>
                    (Some (Ret (Inl (Errorf ''start-at=%d is past the candidate list (%d)''
                       [FI (wc_startAt cfg), FI (int (length candidates))] None))), w)
                | Some candidates \<Rightarrow>
                    (map_option (map_outcome (\<lambda>(entries, out, stopped).
                       Inr (entries, wk_header cfg (length candidates) @ out, stopped)))
                       (wk_loop W cfg (length candidates) 0 candidates 0), w))))"

section \<open>The candidates\<close>

text \<open>The loop over a Go map visits its keys in any order; the candidates are the same.\<close>

lemma allKnownKeyCodes_order:
  assumes "mset names = mset names'"
  shows "allKnownKeyCodes code names = allKnownKeyCodes code names'"
proof -
  have "mset (filter (\<lambda>v. v \<noteq> 0) names) = mset (filter (\<lambda>v. v \<noteq> 0) names')" using assms by simp
  then have "sort (filter (\<lambda>v. v \<noteq> 0) names) = sort (filter (\<lambda>v. v \<noteq> 0) names')"
    by (metis properties_for_sort mset_sort sorted_sort)
  then show ?thesis by (simp only: allKnownKeyCodes_def)
qed

text \<open>Every press that is held is released by the next attempt.\<close>

fun releases :: "key_attempt list \<Rightarrow> bool" where
  "releases [] = True"
| "releases (a # as) =
     ((ka_direction a = START_LONG \<longrightarrow> as \<noteq> [] \<and> hd as = \<lparr>ka_keyCode = ka_keyCode a, ka_direction = END_LONG\<rparr>) \<and> releases as)"

lemma releases_append: "releases as \<Longrightarrow> releases bs \<Longrightarrow> releases (as @ bs)"
  by (induction as) (auto simp: hd_append)

lemma releases_codes: "releases (concat (map (code_attempts withLong) cs))"
  by (induction cs) (auto intro!: releases_append simp: code_attempts_def)

text \<open>
  The candidates of wakeprobe do not depend on the order of Go's map; each key of the mode is
  tried with a short press and, if asked for, a long one, whose start is directly followed by its
  end; no other attempts are made.
\<close>

theorem candidateAttempts_spec:
  assumes "candidateAttempts u code names mode withLong = Inr as"
  shows "(\<forall>names'. mset names' = mset names \<longrightarrow> candidateAttempts u code names' mode withLong = Inr as)
    \<and> releases as
    \<and> (\<exists>cs. (cs = likely_codes \<or> set cs = code ` {v \<in> set names. v \<noteq> 0})
        \<and> set as = {\<lparr>ka_keyCode = c, ka_direction = d\<rparr> | c d. c \<in> set cs \<and> (d = SHORT \<or> withLong \<and> d \<in> {START_LONG, END_LONG})})"
proof -
  from assms obtain cs where cs: "cs = likely_codes \<or> cs = allKnownKeyCodes code names"
    and as: "as = concat (map (code_attempts withLong) cs)"
    by (auto simp: candidateAttempts_def Let_def split: if_splits)
  have 1: "set as = {\<lparr>ka_keyCode = c, ka_direction = d\<rparr> | c d. c \<in> set cs \<and> (d = SHORT \<or> withLong \<and> d \<in> {START_LONG, END_LONG})}"
    unfolding as by (auto simp: code_attempts_def)
  have 2: "cs = likely_codes \<or> set cs = code ` {v \<in> set names. v \<noteq> 0}"
    using cs by (auto simp: allKnownKeyCodes_def)
  have 3: "candidateAttempts u code names' mode withLong = Inr as" if "mset names' = mset names" for names'
    using assms unfolding candidateAttempts_def allKnownKeyCodes_order [OF that, of code] .
  have "releases as" unfolding as by (rule releases_codes)
  with 1 2 show ?thesis by (intro conjI exI [of _ cs] allI impI) (simp_all only: 3)
qed

theorem candidateAttempts_spec_witness:
  "candidateAttempts ascii_unicode KEYCODE_OTHER [3, 0, 2] ''Full'' True =
     Inr (code_attempts True (KEYCODE_OTHER 2) @ code_attempts True (KEYCODE_OTHER 3)) \<and>
   releases (code_attempts True (KEYCODE_OTHER 2) @ code_attempts True (KEYCODE_OTHER 3))"
proof -
  have "candidateAttempts ascii_unicode KEYCODE_OTHER [3, 0, 2] ''Full'' True =
     Inr (code_attempts True (KEYCODE_OTHER 2) @ code_attempts True (KEYCODE_OTHER 3))" by code_simp
  with candidateAttempts_spec [OF this] show ?thesis by blast
qed

text \<open>
  The run does not keep that: a limit, or the stop after a wake, may leave a key held.
\<close>

lemma long_press_left:
  "select_attempts 0 2 (code_attempts True c) =
     Some [\<lparr>ka_keyCode = c, ka_direction = SHORT\<rparr>, \<lparr>ka_keyCode = c, ka_direction = START_LONG\<rparr>]"
  "\<not> releases [\<lparr>ka_keyCode = c, ka_direction = SHORT\<rparr>, \<lparr>ka_keyCode = c, ka_direction = START_LONG\<rparr>]"
  by (simp_all add: select_attempts_def code_attempts_def numeral_2_eq_2)

section \<open>The runs\<close>

lemma wk_sample_time: "n \<le> snd (wk_samplePowerState E cfg n)"
  by (simp add: wk_samplePowerState_def sample_time)

lemma pollForWake_returns:
  assumes "0 < wc_pollInterval cfg" "0 \<le> wc_pollWindow cfg" "\<And>T. \<exists>N. \<forall>m \<ge> N. T < pl_now E m"
  shows "\<exists>r. pollForWake E cfg n = Some (Ret r)"
  using poll_power_returns [where hit = awake, OF assms(1,2) wk_sample_time assms(3)]
  by (auto simp: pollForWake_def)

text \<open>One turn of the loop: the entry it makes, and whether it is the last one.\<close>

definition wk_turn :: "wake_env \<Rightarrow> wk_config \<Rightarrow> nat \<Rightarrow> nat \<Rightarrow> key_attempt \<Rightarrow> nat \<Rightarrow> (wk_log \<times> bool \<times> nat) outcome option" where
  "wk_turn W cfg cnt idx a n =
     (let b = wk_samplePowerState (wv_poll W) cfg n;
          r = sendAttempt (wv_poll W) cfg (ka_keyCode a) (ka_direction a) (snd b + 1) in
      map_option (map_outcome (\<lambda>((polls, after, woke), n').
        (wk_entry W cnt idx a (fst b) (pl_now (wv_poll W) (snd b)) (pl_now (wv_poll W) n') (fst r) polls after woke,
         fst r = None \<and> woke \<and> wc_stopOnWake cfg, n' + 1)))
        (pollForWake (wv_poll W) cfg (snd r)))"

definition wk_entries ::
  "wake_env \<Rightarrow> wk_config \<Rightarrow> nat \<Rightarrow> nat \<Rightarrow> key_attempt list \<Rightarrow> nat \<Rightarrow> (wk_log list \<times> bool) outcome option" where
  "wk_entries W cfg cnt idx as n =
     map_option (map_outcome (\<lambda>(es, out, stopped). (es, stopped))) (wk_loop W cfg cnt idx as n)"

lemma wk_loop_step:
  assumes "wk_samplePowerState (wv_poll W) cfg n = (before, n1)"
    "sendAttempt (wv_poll W) cfg (ka_keyCode a) (ka_direction a) (n1 + 1) = (sendErr, n2)"
    "pollForWake (wv_poll W) cfg n2 = Some (Ret ((polls, after, woke), n'))"
  shows "wk_entries W cfg cnt idx (a # as) n =
    (let e = wk_entry W cnt idx a before (pl_now (wv_poll W) n1) (pl_now (wv_poll W) n') sendErr polls after woke
     in if sendErr = None \<and> woke \<and> wc_stopOnWake cfg then Some (Ret ([e], True))
        else map_option (map_outcome (\<lambda>(es, stopped). (e # es, stopped))) (wk_entries W cfg cnt (idx + 1) as (n' + 1)))"
  unfolding wk_entries_def wk_loop.simps Let_def assms option.case outcome.case prod.case
  by (cases "wk_loop W cfg cnt (idx + 1) as (n' + 1)" rule: option_outcome_cases) (auto split: prod.splits)

lemma wk_loop_fails:
  assumes "wk_turn W cfg cnt idx a n = None \<or> wk_turn W cfg cnt idx a n = Some Panic"
  shows "wk_entries W cfg cnt idx (a # as) n = (if wk_turn W cfg cnt idx a n = None then None else Some Panic)"
  using assms by (auto simp: wk_turn_def wk_entries_def Let_def split: prod.splits)

interpretation wk_turns: attempt_loop "wk_entries W cfg cnt" "wk_turn W cfg cnt" for W cfg cnt
proof
  fix i a as n e n'
  show "wk_entries W cfg cnt i [] n = Some (Ret ([], False))" by (simp add: wk_entries_def)
  show "wk_entries W cfg cnt i (a # as) n = None" if "wk_turn W cfg cnt i a n = None"
    using that by (simp add: wk_loop_fails)
  show "wk_entries W cfg cnt i (a # as) n = Some Panic" if "wk_turn W cfg cnt i a n = Some Panic"
    using that by (simp add: wk_loop_fails)
  obtain b n1 r n2 where c: "wk_samplePowerState (wv_poll W) cfg n = (b, n1)"
    "sendAttempt (wv_poll W) cfg (ka_keyCode a) (ka_direction a) (n1 + 1) = (r, n2)" by (metis surj_pair)
  show "wk_entries W cfg cnt i (a # as) n = Some (Ret ([e], True))"
    if "wk_turn W cfg cnt i a n = Some (Ret (e, True, n'))"
    using that c by (auto simp: wk_turn_def wk_loop_step [OF c] Let_def)
  show "wk_entries W cfg cnt i (a # as) n =
      map_option (map_outcome (\<lambda>(es, stopped). (e # es, stopped))) (wk_entries W cfg cnt (i + 1) as n')"
    if "wk_turn W cfg cnt i a n = Some (Ret (e, False, n'))"
    using that c by (auto simp: wk_turn_def wk_loop_step [OF c] Let_def)
qed

text \<open>What an entry says of its attempt.\<close>

definition wk_entry_ok :: "wake_env \<Rightarrow> wk_config \<Rightarrow> nat \<Rightarrow> nat \<Rightarrow> key_attempt \<Rightarrow> wk_log \<Rightarrow> bool" where
  "wk_entry_ok W cfg cnt idx a e =
     (wl_Index e = idx + 1 \<and> wl_Total e = cnt
      \<and> wl_KeyCode e = en_keycode_String (pl_atv (wv_poll W)) (ka_keyCode a)
      \<and> wl_Direction e = wv_direction W (ka_direction a)
      \<and> (\<exists>n. wl_Before e = fst (wk_samplePowerState (wv_poll W) cfg n))
      \<and> (\<exists>n. wl_SendError e = (case fst (sendAttempt (wv_poll W) cfg (ka_keyCode a) (ka_direction a) n) of
            None \<Rightarrow> [] | Some err \<Rightarrow> pl_Error (wv_poll W) err))
      \<and> wl_PollSamples e \<noteq> [] \<and> wl_After e = last (wl_PollSamples e)
      \<and> wl_WakeDetected e = awake (wl_After e)
      \<and> list_all (\<lambda>s. \<not> awake s) (butlast (wl_PollSamples e)))"

definition wk_stops :: "wk_config \<Rightarrow> wk_log \<Rightarrow> bool" where
  "wk_stops cfg e = (wl_SendError e = [] \<and> wl_WakeDetected e \<and> wc_stopOnWake cfg)"

lemma wk_turn_entry:
  assumes "wk_turn W cfg cnt idx a n = Some (Ret (e, last_one, n'))" "\<And>err. pl_Error (wv_poll W) err \<noteq> []"
  shows "wk_entry_ok W cfg cnt idx a e \<and> (last_one \<longleftrightarrow> wk_stops cfg e)"
proof -
  let ?b = "wk_samplePowerState (wv_poll W) cfg n"
  let ?r = "sendAttempt (wv_poll W) cfg (ka_keyCode a) (ka_direction a) (snd ?b + 1)"
  from assms(1) obtain polls after woke m
    where poll: "pollForWake (wv_poll W) cfg (snd ?r) = Some (Ret ((polls, after, woke), m))"
      and e: "e = wk_entry W cnt idx a (fst ?b) (pl_now (wv_poll W) (snd ?b)) (pl_now (wv_poll W) m) (fst ?r) polls after woke"
      and l: "last_one \<longleftrightarrow> fst ?r = None \<and> woke \<and> wc_stopOnWake cfg"
    by (auto simp: wk_turn_def Let_def)
  from poll have "after = last polls"
    and "poll_power (wk_samplePowerState (wv_poll W) cfg) awake (pl_now (wv_poll W)) (wc_pollWindow cfg)
      (wc_pollInterval cfg) (snd ?r) = Some (Ret ((polls, woke), m))"
    by (auto simp: pollForWake_def)
  with poll_power_result [OF this(2)] have "wk_entry_ok W cfg cnt idx a e"
    unfolding e wk_entry_ok_def wk_entry_def by auto
  moreover have "last_one \<longleftrightarrow> wk_stops cfg e"
    unfolding l e using assms(2) by (cases "fst ?r") (simp_all add: wk_stops_def wk_entry_def)
  ultimately show ?thesis ..
qed

lemma wk_loop_returns:
  assumes "0 < wc_pollInterval cfg" "0 \<le> wc_pollWindow cfg" "\<And>T. \<exists>N. \<forall>m \<ge> N. T < pl_now (wv_poll W) m"
  shows "\<exists>r. wk_loop W cfg cnt idx as n = Some (Ret r)"
proof -
  have "\<exists>r. wk_turn W cfg cnt i a n = Some (Ret r)" for i a n
    using pollForWake_returns [OF assms] by (fastforce simp: wk_turn_def Let_def)
  from wk_turns.returns [OF this, of idx as n] show ?thesis by (auto simp: wk_entries_def)
qed

text \<open>
  C31: With a positive poll interval, a poll window that is not negative and a clock that passes every
  time, a run of wakeprobe ends without a panic. If it ends with a log, this has one entry for each
  attempt made, in the order of the candidates from \<open>start-at\<close> on, with the key that was sent, the
  power state before and after, and a wake exactly when the last sample shows the device awake. The run
  stopped early exactly when the last entry, and no other, has a wake that stops it.
\<close>

theorem wk_probe_run:
  assumes "0 < wc_pollInterval cfg" "0 \<le> wc_pollWindow cfg" "\<And>T. \<exists>N. \<forall>m \<ge> N. T < pl_now (wv_poll W) m"
    "\<And>err. pl_Error (wv_poll W) err \<noteq> []"
  shows "\<exists>r w'. wk_probe W cfg w = (Some (Ret r), w') \<and>
    (case r of
       Inl err \<Rightarrow> True
     | Inr (entries, out, stopped) \<Rightarrow>
         \<exists>all attempts. candidateAttempts (en_unicode (pl_atv (wv_poll W))) (wv_code W) (wv_names W) (wc_mode cfg)
             (wc_withLong cfg) = Inr all
           \<and> select_attempts (wc_startAt cfg) (wc_limit cfg) all = Some attempts
           \<and> length entries \<le> length attempts
           \<and> (\<forall>j < length entries. wk_entry_ok W cfg (length attempts) j (attempts ! j) (entries ! j)
               \<and> (wk_stops cfg (entries ! j) \<longleftrightarrow> stopped \<and> j = length entries - 1))
           \<and> (\<not> stopped \<longrightarrow> length entries = length attempts) \<and> (stopped \<longrightarrow> entries \<noteq> []))"
proof (cases "openLogFile (wc_logFile cfg) w")
  case (Pair err w1)
  note start = wk_probe_def Pair option.case prod.case
  show ?thesis
  proof (cases err)
    case (Some e)
    then show ?thesis by (simp add: start)
  next
    case None
    show ?thesis
    proof (cases "candidateAttempts (en_unicode (pl_atv (wv_poll W))) (wv_code W) (wv_names W) (wc_mode cfg) (wc_withLong cfg)")
      case (Inl e)
      then show ?thesis using None by (simp add: start)
    next
      case (Inr all)
      show ?thesis
      proof (cases "select_attempts (wc_startAt cfg) (wc_limit cfg) all")
        case None
        then show ?thesis using \<open>err = None\<close> Inr by (simp add: start)
      next
        case (Some as)
        from wk_loop_returns [OF assms(1-3), of "length as" 0 as 0] obtain entries out stopped
          where run: "wk_loop W cfg (length as) 0 as 0 = Some (Ret (entries, out, stopped))" by (metis surj_pair)
        then have "wk_entries W cfg (length as) 0 as 0 = Some (Ret (entries, stopped))" by (simp add: wk_entries_def)
        note log = wk_turns.log [OF this]
        have "wk_entry_ok W cfg (length as) j (as ! j) (entries ! j)
            \<and> (wk_stops cfg (entries ! j) \<longleftrightarrow> stopped \<and> j = length entries - 1)" if "j < length entries" for j
        proof -
          from log that obtain m m' where
            "wk_turn W cfg (length as) (0 + j) (as ! j) m = Some (Ret (entries ! j, stopped \<and> j = length entries - 1, m'))"
            by blast
          from wk_turn_entry [OF this assms(4)] show ?thesis by simp
        qed
        with log show ?thesis using \<open>err = None\<close> Inr Some run by (simp add: start)
      qed
    qed
  qed
qed

definition demo_wk :: wk_config where
  "demo_wk = \<lparr>wc_host = ''tv'', wc_port = 6466, wc_certPath = ''c'', wc_keyPath = ''k'', wc_mode = ''likely'',
     wc_withLong = True, wc_settle = 0, wc_pollWindow = 3, wc_pollInterval = 1, wc_delayBetween = 0, wc_connectTimeout = 5,
     wc_startAt = 1, wc_limit = 2, wc_stopOnWake = True, wc_logFile = ''/l''\<rparr>"

definition demo_wake :: wake_env where
  "demo_wake = \<lparr>wv_poll = demo_poll, wv_code = KEYCODE_OTHER, wv_names = [], wv_direction = (\<lambda>_. ''SHORT'')\<rparr>"

theorem wk_probe_run_witness:
  "\<exists>entries out w'. wk_probe demo_wake demo_wk demo_disk = (Some (Ret (Inr (entries, out, False))), w')
    \<and> length entries = 2 \<and> \<not> wl_WakeDetected (entries ! 1)"
proof -
  have "0 < wc_pollInterval demo_wk" "0 \<le> wc_pollWindow demo_wk" by (simp_all add: demo_wk_def)
  moreover have "\<exists>N. \<forall>m \<ge> N. T < pl_now (wv_poll demo_wake) m" for T
    by (intro exI [of _ "nat T + 1"]) (auto simp: demo_poll_def demo_wake_def)
  moreover have "pl_Error (wv_poll demo_wake) err \<noteq> []" for err by (simp add: demo_poll_def demo_wake_def)
  ultimately have "\<exists>r w'. wk_probe demo_wake demo_wk demo_disk = (Some (Ret r), w')"
    using wk_probe_run [of demo_wk demo_wake demo_disk] by fast
  moreover have "map_option (map_outcome (map_sum (\<lambda>e. ()) (\<lambda>(es, os, b). (length es, wl_WakeDetected (es ! 1), b))))
      (fst (wk_probe demo_wake demo_wk demo_disk)) = Some (Ret (Inr (2, False, False)))" by code_simp
  ultimately show ?thesis by (auto simp: Inr_map_sum)
qed

end
