(* ===== verification/Beyonder_String.thy ===== *)
theory Beyonder_String
  imports Beyonder_Messages
begin

text \<open>
  \<open>Message.String\<close> of \<open>internal/beyonder/messages.go\<close>: a message as a line of text, with the secrets left
  out. The text is a list of formats with their arguments; a number in base 16 is an argument of \<open>%X\<close>,
  bytes in base 16 are written out. The names of the enumerations are generated code and an argument.
\<close>

record bey_names =
  nm_ServiceId :: "int32 \<Rightarrow> string"
  nm_Handshake_Command :: "int32 \<Rightarrow> string"
  nm_DeviceOs :: "int32 \<Rightarrow> string"
  nm_Authentication_Command :: "int32 \<Rightarrow> string"
  nm_Level :: "int32 \<Rightarrow> string"
  nm_ResultType :: "int32 \<Rightarrow> string"
  nm_Launcher_Command :: "int32 \<Rightarrow> string"
  nm_LaunchResult :: "int32 \<Rightarrow> string"
  nm_HostInfo_Command :: "int32 \<Rightarrow> string"

text \<open>The slice of strings under \<open>%v\<close>.\<close>

definition show_strings :: "string list \<Rightarrow> string" where
  "show_strings vs = ''['' @ JoinStr '' '' vs @ '']''"

text \<open>None is the panic on a nil envelope, which the fields it holds do not exclude by themselves.\<close>

definition string_parts :: "bey_names \<Rightarrow> bey_message \<Rightarrow> base_message \<Rightarrow> (string \<times> farg list) option" where
  "string_parts N m b =
     (case ms_Handshake m of
        Some h \<Rightarrow>
          Some ('' %v name=%q os=%v capability=0x%X'',
            [FS (nm_Handshake_Command N (hs_Command h)), FS (hs_Name h), FS (nm_DeviceOs N (hs_DeviceOs h)),
             FI (sint (hs_Capability h))])
      | None \<Rightarrow>
     (case ms_AuthLevel m of
        Some l \<Rightarrow>
          map_option (\<lambda>a. ('' %v level=%v device=%q capability=0x%X'',
            [FS (nm_Authentication_Command N (ap_Command a)), FS (nm_Level N (al_Level l)), FS (al_DeviceName l),
             FI (sint (al_Capability l))])) (ms_Authentication m)
      | None \<Rightarrow>
     (case ms_PairingResult m of
        Some r \<Rightarrow>
          map_option (\<lambda>a. ('' %v result=%v %q key=%dB cert=%dB'',
            [FS (nm_Authentication_Command N (ap_Command a)), FS (nm_ResultType N (br_ResultType r)), FS (br_ResultString r),
             FI (int (length (br_PrivateKey r))), FI (int (length (br_Certificate r)))])) (ms_Authentication m)
      | None \<Rightarrow>
     (case ms_Authentication m of
        Some a \<Rightarrow>
          Some ('' %v object=%x'', [FS (nm_Authentication_Command N (ap_Command a)), FS (hex_EncodeToString (ap_Object a))])
      | None \<Rightarrow>
     (case ms_LaunchResult m of
        Some r \<Rightarrow>
          map_option (\<lambda>l. ('' %v result=%v'', [FS (nm_Launcher_Command N (lp_Command l)), FS (nm_LaunchResult N r)]))
            (ms_Launcher m)
      | None \<Rightarrow>
     (case ms_Launcher m of
        Some l \<Rightarrow>
          Some ('' %v object=%x'', [FS (nm_Launcher_Command N (lp_Command l)), FS (hex_EncodeToString (lp_Object l))])
      | None \<Rightarrow>
     (case ms_HostInfo m of
        Some i \<Rightarrow>
          map_option (\<lambda>h. ('' %v name=%q ip=%q port=%d androidId=%q abis=%v'',
            [FS (nm_HostInfo_Command N (hp_Command h)), FS (hi_DeviceName i), FS (hi_Ip i), FI (sint (hi_Port i)),
             FS (hi_AndroidId i), FS (show_strings (hi_SupportedAbis i))])) (ms_HostInfoPayload m)
      | None \<Rightarrow>
     (case ms_HostInfoPayload m of
        Some h \<Rightarrow>
          Some ('' %v object=%x'', [FS (nm_HostInfo_Command N (hp_Command h)), FS (hex_EncodeToString (hp_Object h))])
      | None \<Rightarrow> Some ('' payload=%x'', [FS (hex_EncodeToString (bm_Payload b))])))))))))"

definition bey_String :: "bey_names \<Rightarrow> bey_message \<Rightarrow> (string \<times> farg list) list option" where
  "bey_String N m =
     (case ms_Base m of
        None \<Rightarrow> Some [(''<empty>'', [])]
      | Some b \<Rightarrow>
          if IsRTT m then Some [(''RTT timestamp=%d'', [FI (uint (bm_TimeStamp b))])]
          else if 0 < sint (bm_Size b) \<and> length (bm_Payload b) = 0 then Some [(''SIZE %d'', [FI (sint (bm_Size b))])]
          else map_option (\<lambda>p. [(''%v'', [FS (nm_ServiceId N (ms_ServiceID m))]), p]) (string_parts N m b))"

section \<open>Lemmas\<close>

text \<open>What the decoder sets goes with its envelope.\<close>

lemma Decode_envelopes:
  assumes "bey_Decode c frame = Inr m"
  shows "ms_AuthLevel m \<noteq> None \<Longrightarrow> ms_Authentication m \<noteq> None"
    and "ms_LaunchResult m \<noteq> None \<Longrightarrow> ms_Launcher m \<noteq> None"
    and "ms_HostInfo m \<noteq> None \<Longrightarrow> ms_HostInfoPayload m \<noteq> None"
    and "ms_PairingResult m = Some r \<Longrightarrow> ms_ServiceID m = SERVICEID_AUTHENTICATION \<and> ms_Handshake m = None
      \<and> ms_AuthLevel m = None \<and> (\<exists>a. ms_Authentication m = Some a \<and> ap_Command a = COMMAND_PAIRING_RESULT)"
    and "ms_Base m \<noteq> None"
  using assms
  by (auto simp: bey_Decode_def decodeAuth_def decodeLauncher_def decodeHostInfo_def message_of_def Let_def
      split: sum.splits if_splits)

text \<open>What may be read of a pairing result, and of the message that carries it.\<close>

definition public :: "bey_message \<Rightarrow> (int32 \<times> string \<times> nat \<times> nat) option \<times> (64 word \<times> int32 \<times> bool) option" where
  "public m =
     (map_option (\<lambda>r. (br_ResultType r, br_ResultString r, length (br_PrivateKey r), length (br_Certificate r)))
        (ms_PairingResult m),
      map_option (\<lambda>b. (bm_TimeStamp b, bm_Size b, bm_Payload b = [])) (ms_Base m))"

text \<open>
  C34: A pairing result that the decoder returns can be printed, no envelope that its text needs is missing,
  and the text does not depend on its secrets: two of them that differ in the bytes of the private key and
  of the certificate, or in the raw bytes that these were decoded from, but not in their number, give the
  same text.
\<close>

theorem String_elides:
  assumes "bey_Decode c frame = Inr m" "bey_Decode c' frame' = Inr m'" "ms_PairingResult m \<noteq> None" "public m = public m'"
  shows "bey_String N m = bey_String N m' \<and> bey_String N m \<noteq> None"
proof -
  from assms(3,4) obtain r r' where r: "ms_PairingResult m = Some r" "ms_PairingResult m' = Some r'"
    "br_ResultType r = br_ResultType r'" "br_ResultString r = br_ResultString r'"
    "length (br_PrivateKey r) = length (br_PrivateKey r')" "length (br_Certificate r) = length (br_Certificate r')"
    by (cases "ms_PairingResult m'") (auto simp: public_def)
  from Decode_envelopes(5) [OF assms(1)] Decode_envelopes(5) [OF assms(2)] assms(4)
  obtain b b' where b: "ms_Base m = Some b" "ms_Base m' = Some b'" "bm_TimeStamp b = bm_TimeStamp b'"
    "bm_Size b = bm_Size b'" "bm_Payload b = [] \<longleftrightarrow> bm_Payload b' = []"
    by (auto simp: public_def)
  from Decode_envelopes(4) [OF assms(1) r(1)] Decode_envelopes(4) [OF assms(2) r(2)]
  have "string_parts N m b = string_parts N m' b'" "string_parts N m b \<noteq> None" "ms_ServiceID m = ms_ServiceID m'"
    using r by (auto simp: string_parts_def)
  with b show ?thesis by (auto simp: bey_String_def IsRTT_def)
qed

lemma String_total:
  assumes "bey_Decode c frame = Inr m"
  shows "bey_String N m \<noteq> None"
proof -
  have "ms_PairingResult m \<noteq> None \<Longrightarrow> ms_Authentication m \<noteq> None"
    using Decode_envelopes(4) [OF assms] by auto
  with Decode_envelopes(1-3) [OF assms] have "string_parts N m b \<noteq> None" for b
    unfolding string_parts_def by (auto split: option.split)
  then show ?thesis by (simp add: bey_String_def split: option.split)
qed

text \<open>Two pairing results with different keys.\<close>

definition secret_codec :: "byte list \<Rightarrow> bey_codec" where
  "secret_codec key = (test_codec [(zero_base\<lparr>bm_ServiceId := 10, bm_Payload := key\<rparr>, key)] [])
     \<lparr>bc_auth := table_codec [(\<lparr>ap_Command = 2101, ap_Object = key\<rparr>, key)],
      bc_result := table_codec [(\<lparr>br_ResultType = 1, br_ResultString = ''ok'', br_PrivateKey = key, br_Certificate = key\<rparr>, key)]\<rparr>"

definition secret_message_of :: "byte list \<Rightarrow> bey_message" where
  "secret_message_of key = (message_of (zero_base\<lparr>bm_ServiceId := 10, bm_Payload := key\<rparr>))
     \<lparr>ms_Authentication := Some \<lparr>ap_Command = 2101, ap_Object = key\<rparr>,
      ms_PairingResult := Some \<lparr>br_ResultType = 1, br_ResultString = ''ok'', br_PrivateKey = key, br_Certificate = key\<rparr>\<rparr>"

definition demo_names :: bey_names where
  "demo_names = \<lparr>nm_ServiceId = (\<lambda>_. ''service''), nm_Handshake_Command = (\<lambda>_. ''command''), nm_DeviceOs = (\<lambda>_. ''os''),
     nm_Authentication_Command = (\<lambda>_. ''command''), nm_Level = (\<lambda>_. ''level''), nm_ResultType = (\<lambda>_. ''result''),
     nm_Launcher_Command = (\<lambda>_. ''command''), nm_LaunchResult = (\<lambda>_. ''result''), nm_HostInfo_Command = (\<lambda>_. ''command'')\<rparr>"

theorem String_elides_witness:
  "bey_String demo_names (secret_message_of [1, 2]) = bey_String demo_names (secret_message_of [3, 4])
   \<and> bey_String demo_names (secret_message_of [1, 2]) \<noteq> None"
proof (rule String_elides)
  have d: "bey_Decode (secret_codec key) key = Inr (secret_message_of key)" if "key \<noteq> []" for key
    using that
    by (simp add: bey_Decode_def secret_codec_def secret_message_of_def test_codec_def table_codec_def decodeAuth_def
        message_of_def service_ids auth_commands Let_def zero_base_def)
  show "bey_Decode (secret_codec [1, 2]) [1, 2] = Inr (secret_message_of [1, 2])"
    "bey_Decode (secret_codec [3, 4]) [3, 4] = Inr (secret_message_of [3, 4])" by (simp_all add: d)
  show "ms_PairingResult (secret_message_of [1, 2]) \<noteq> None" "public (secret_message_of [1, 2]) = public (secret_message_of [3, 4])"
    by (simp_all add: secret_message_of_def public_def message_of_def)
qed

end
