(* ===== verification/Beyonder_Probe.thy ===== *)
theory Beyonder_Probe
  imports Power_Sender Beyonder_String Power_Poll
begin

text \<open>
  \<open>cmd/beyonderprobe/main.go\<close>: the tool that pairs with a SHIELD over the beyonder protocol and sends
  special inputs. The flags are parsed by the library. A command that never returns is None; what it
  leaves of its connections is part of its result.
\<close>

section \<open>Names\<close>

record probe_options =
  op_host :: string
  op_port :: int
  op_name :: string
  op_timeout :: int
  op_dump :: bool
  op_wait :: int

definition specialNames :: "(string \<times> int32) list" where
  "specialNames =
     [(''home'', 11), (''back'', 12), (''settings'', 20), (''power-menu'', 21), (''sleep'', ACTION_SLEEP_NOW),
      (''assist'', 31), (''osc'', 10)]"

definition parseSpecialName :: "unicode \<Rightarrow> string \<Rightarrow> int32 res" where
  "parseSpecialName u s =
     (case map_of specialNames (ToLower u (TrimSpace s)) of
        Some v \<Rightarrow> Inr v
      | None \<Rightarrow> Inl (Errorf ''unknown special name %q (home|back|settings|power-menu|sleep|assist|osc)'' [FS s] None))"

text \<open>The names of the capabilities, as the generated code has them.\<close>

definition Capability_name :: "(int32 \<times> string) list" where
  "Capability_name =
     [(0, ''NONE''), (1, ''INPUT_GENERIC''), (2, ''INPUT_METHOD''), (4, ''INPUT_ABSOLUTE''), (8, ''FILE_TRANSFER''),
      (16, ''VOICE_SEARCH''), (32, ''MEDIA_CONTROL''), (64, ''HOST_INFO''), (128, ''MESSAGE_FRAMING''),
      (256, ''APP_INSTALL''), (512, ''PIN_CODE_CANCEL''), (1024, ''RTT_MESSAGING''), (2048, ''FEEDBACK''),
      (4096, ''VOLUME_CONTROL''), (8192, ''REMOTE_LAUNCHER''), (16384, ''PRIVATE_LISTENING''),
      (32768, ''ACCESSORY_LOCATOR''), (65536, ''ACCESSORY_LISTENER'')]"

text \<open>The verb \<open>%x\<close> on a signed number.\<close>

definition hex_int :: "int \<Rightarrow> string" where
  "hex_int i = (if i < 0 then CHR ''-'' # hex_number (nat (- i)) else hex_number (nat i))"

text \<open>The bits the loop runs through: the next one after \<open>1 << 30\<close> would be negative.\<close>

definition capability_bits :: "int32 list" where
  "capability_bits = map (\<lambda>i. push_bit i 1) [0..<31]"

definition capability_step :: "int32 \<Rightarrow> string list \<times> int32 \<Rightarrow> int32 \<Rightarrow> string list \<times> int32" where
  "capability_step caps s b =
     (case map_of Capability_name b of
        None \<Rightarrow> s
      | Some name \<Rightarrow> (if caps AND b \<noteq> 0 then fst s @ [name] else fst s, snd s OR b))"

definition capabilityNames :: "int32 \<Rightarrow> string list" where
  "capabilityNames caps =
     (let (out, known) = foldl (capability_step caps) ([], 0) capability_bits; rest = caps AND NOT known
      in if rest \<noteq> 0 then out @ [''UNKNOWN(0x'' @ hex_int (sint rest) @ '')''] else out)"

section \<open>The environment\<close>

text \<open>
  The network is asked once for each connection. \<open>bp_stdin\<close> is what reading a line gives, and the error of
  the context at that time.
\<close>

record bprobe_env =
  bp_codec :: bey_codec
  bp_crypto :: bey_crypto
  bp_names :: bey_names
  bp_special_String :: "int32 \<Rightarrow> string"
  bp_Error :: "goerr \<Rightarrow> string"
  bp_unicode :: unicode
  bp_json :: target_json
  bp_net :: "nat \<Rightarrow> bey_net"
  bp_rand :: "byte list res"
  bp_stdin :: "(string \<times> goerr option) \<times> goerr option"
  bp_parse :: "string \<Rightarrow> string list \<Rightarrow> (probe_options \<times> int \<times> string) option"

definition op_addr :: "probe_options \<Rightarrow> string" where
  "op_addr o' = JoinHostPort (op_host o') (Itoa (op_port o'))"

definition bp_connect :: "bprobe_env \<Rightarrow> nat \<Rightarrow> probe_options \<Rightarrow> tls_certificate option \<Rightarrow> bey_client res" where
  "bp_connect E i o' cert = bey_Dial (bp_net E i) (op_addr o') cert"

definition message_lines :: "bprobe_env \<Rightarrow> bey_message \<Rightarrow> lines" where
  "message_lines E m = (case bey_String (bp_names E) m of None \<Rightarrow> [] | Some ps \<Rightarrow> ps)"

text \<open>
  What \<open>--dump\<close> prints of the frames of a connection; the frames that arrive are taken apart a second time.
\<close>

fun dump_frames :: "bprobe_env \<Rightarrow> (string \<times> byte list) list \<Rightarrow> reassembler \<Rightarrow> lines" where
  "dump_frames E [] r = []"
| "dump_frames E ((dir, b) # frames) r =
     (if dir = ''tx'' then (''> %x'', [FS (hex_EncodeToString b)]) # dump_frames E frames r
      else
        (case Feed (bp_codec E) b r of
           ((ms, err), r) \<Rightarrow>
             (''< %x'', [FS (hex_EncodeToString b)]) #
             concat (map (\<lambda>m. ('' = '', []) # message_lines E m) ms) @
             (case err of None \<Rightarrow> [] | Some e \<Rightarrow> [('' = decode error: %v'', [FS (bp_Error E e)])]) @
             dump_frames E frames r))"

definition bp_dump :: "bprobe_env \<Rightarrow> probe_options \<Rightarrow> bey_client \<Rightarrow> lines" where
  "bp_dump E o' cl = (if op_dump o' then dump_frames E (bl_hooks cl) new_reassembler else [])"

section \<open>Steps\<close>

definition printAuth :: "authorization_level \<Rightarrow> lines" where
  "printAuth al =
     [(''auth level: %d'', [FI (sint (al_Level al))]), (''device name: %s'', [FS (al_DeviceName al)]),
      (''capabilities: 0x%x [%s]'', [FS (hex_int (sint (al_Capability al))),
         FS (JoinStr '', '' (capabilityNames (al_Capability al)))])]"

definition printMsg :: "bprobe_env \<Rightarrow> bey_message \<Rightarrow> lines" where
  "printMsg E m = (''< '', []) # message_lines E m"

text \<open>The loop of \<open>listen\<close>, until the time \<open>t\<close>, along the events of the schedule.\<close>

fun listen_loop :: "bprobe_env \<Rightarrow> int \<Rightarrow> event list \<Rightarrow> bey_client \<Rightarrow> (lines \<times> bey_client) option" where
  "listen_loop E t [] cl = None"
| "listen_loop E t (Ev_Done # evs) cl =
     (if bl_ctx cl \<noteq> None \<or> t \<le> bl_now cl then Some ([], cl\<lparr>bl_sched := evs\<rparr>) else listen_loop E t evs cl)"
| "listen_loop E t (Ev_Receive # evs) cl =
     (case bl_msgs cl of
        m # ms \<Rightarrow>
          map_option (\<lambda>(out, cl). (printMsg E m @ out, cl)) (listen_loop E t evs (cl\<lparr>bl_msgs := ms\<rparr>))
      | [] \<Rightarrow>
          if bl_ended cl
          then Some ([(''connection closed: %v'', [FS (case bl_err cl of None \<Rightarrow> ''<nil>'' | Some e \<Rightarrow> bp_Error E e)])],
                 cl\<lparr>bl_sched := evs\<rparr>)
          else listen_loop E t evs cl)"
| "listen_loop E t (ev # evs) cl = listen_loop E t evs (background (bp_codec E) ev cl)"

definition listen :: "bprobe_env \<Rightarrow> int \<Rightarrow> bey_client \<Rightarrow> (lines \<times> bey_client) option" where
  "listen E d cl =
     (if d \<le> 0 then Some ([], cl) else listen_loop E (bl_now cl + d) (bl_sched cl) (cl\<lparr>bl_sched := []\<rparr>))"

definition loadCreds :: "bprobe_env \<Rightarrow> 'a fs_scheme \<Rightarrow> tls_certificate option res" where
  "loadCreds E w =
     (case LoadCredentials (bp_crypto E) w of
        Inl err \<Rightarrow> Inl (wrap_err ''load credentials: %w'' err)
      | Inr cert \<Rightarrow> Inr cert)"

text \<open>
  \<open>Hello\<close> runs beside a timer. What happens before the timer fires is \<open>Hello\<close>'s; if it has not returned by
  then, the connection is closed, and the error is the context's if that has ended.
\<close>

definition before :: "int \<Rightarrow> event \<Rightarrow> bool" where
  "before t ev = (case ev of Ev_Time t' \<Rightarrow> t' < t | _ \<Rightarrow> True)"

definition helloTimeout :: "bprobe_env \<Rightarrow> probe_options \<Rightarrow> bey_client \<Rightarrow> authorization_level res option \<times> bey_client" where
  "helloTimeout E o' cl =
     (let t = bl_now cl + op_timeout o';
          later = dropWhile (before t) (bl_sched cl) in
      case Hello (bp_codec E) (op_name o') (cl\<lparr>bl_sched := takeWhile (before t) (bl_sched cl)\<rparr>) of
        (Some r, cl) \<Rightarrow> (Some r, cl\<lparr>bl_sched := bl_sched cl @ later\<rparr>)
      | (None, cl) \<Rightarrow>
          (case bl_ctx cl of
             Some err \<Rightarrow> (Some (Inl err), bl_Close (cl\<lparr>bl_sched := later\<rparr>))
           | None \<Rightarrow>
               if later = [] then (None, cl)
               else (Some (Inl (Errorf ''hello timed out after %s'' [FI (op_timeout o')] None)),
                     bl_Close (cl\<lparr>bl_sched := later\<rparr>))))"

section \<open>The commands\<close>

type_synonym probe_end = "goerr option \<times> lines \<times> bey_client list"

definition cmdHello :: "bprobe_env \<Rightarrow> probe_options \<Rightarrow> 'a fs_scheme \<Rightarrow> probe_end option" where
  "cmdHello E o' w =
     (case loadCreds E w of
        Inl err \<Rightarrow> Some (Some err, [], [])
      | Inr cert \<Rightarrow>
     (case bp_connect E 0 o' cert of
        Inl err \<Rightarrow> Some (Some err, [], [])
      | Inr cl \<Rightarrow>
     (case helloTimeout E o' cl of
        (None, _) \<Rightarrow> None
      | (Some (Inl err), cl) \<Rightarrow> Some (Some err, [], [bl_Close cl])
      | (Some (Inr al), cl) \<Rightarrow>
          map_option (\<lambda>(out, cl). (None, printAuth al @ out, [bl_Close cl])) (listen E (op_wait o') cl))))"

text \<open>The answer to the prompt, whose own text is not among the lines.\<close>

definition pin_prompt :: "bprobe_env \<Rightarrow> string res" where
  "pin_prompt E =
     (case fst (bp_stdin E) of
        (line, Some err) \<Rightarrow> if line = [] then Inl err else Inr (TrimSpace line)
      | (line, None) \<Rightarrow> Inr (TrimSpace line))"

text \<open>
  The context of \<open>Pair\<close> has a deadline of its own; the one around it only ends by an interrupt, so that
  the error tells them apart.
\<close>

definition parent_context :: "bey_client \<Rightarrow> bey_client" where
  "parent_context cl = (if bl_ctx cl = Some context_DeadlineExceeded then cl\<lparr>bl_ctx := None\<rparr> else cl)"

text \<open>The second connection, with the new certificate.\<close>

definition confirm :: "bprobe_env \<Rightarrow> probe_options \<Rightarrow> tls_certificate \<Rightarrow> probe_end option" where
  "confirm E o' cert =
     (case bp_connect E 1 o' (Some cert) of
        Inl err \<Rightarrow> Some (Some (wrap_err ''reconnect: %w'' err), [], [])
      | Inr cl \<Rightarrow>
     (case helloTimeout E o' cl of
        (None, _) \<Rightarrow> None
      | (Some (Inl err), cl) \<Rightarrow> Some (Some (wrap_err ''reconnect hello: %w'' err), [], [bl_Close cl])
      | (Some (Inr al), cl) \<Rightarrow>
          if al_Level al = LevelVirtualInput
          then Some (None, printAuth al @ [(''confirmed: level 1000 with new certificate'', [])], [bl_Close cl])
          else Some (Some (Errorf ''after pairing the level is %d, expected %d''
                 [FI (sint (al_Level al)), FI (sint LevelVirtualInput)] None), printAuth al, [bl_Close cl])))"

definition cmdPair :: "bprobe_env \<Rightarrow> probe_options \<Rightarrow> 'a fs_scheme \<Rightarrow> probe_end option \<times> 'a fs_scheme" where
  "cmdPair E o' w =
     (case bp_connect E 0 o' None of
        Inl err \<Rightarrow> (Some (Some err, [], []), w)
      | Inr cl \<Rightarrow>
     (case helloTimeout E o' cl of
        (None, _) \<Rightarrow> (None, w)
      | (Some (Inl err), cl) \<Rightarrow> (Some (Some err, [], [bl_Close cl]), w)
      | (Some (Inr al), cl) \<Rightarrow>
          if al_Level al = LevelVirtualInput
          then (Some (None, printAuth al @ [(''already authorized (level 1000); nothing to pair'', [])], [bl_Close cl]), w)
          else
     (case LoadOrCreateDeviceID (bp_rand E) w of
        (Inl err, w) \<Rightarrow> (Some (Some (wrap_err ''device id: %w'' err), printAuth al, [bl_Close cl]), w)
      | (Inr ident, w) \<Rightarrow>
     (case bl_Pair (bp_codec E) (bp_crypto E) (pin_prompt E, snd (bp_stdin E)) ident cl of
        (None, _) \<Rightarrow> (None, w)
      | (Some (Inl err), cl) \<Rightarrow> (Some (Some err, printAuth al, [bl_Close cl]), w)
      | (Some (Inr cert), cl) \<Rightarrow>
     (case SaveCertificate (bp_crypto E) cert w of
        (Some err, w) \<Rightarrow> (Some (Some (wrap_err ''save certificate: %w'' err), printAuth al, [bl_Close cl]), w)
      | (None, w) \<Rightarrow>
     (case listen E (op_wait o') (parent_context cl) of
        None \<Rightarrow> (None, w)
      | Some (out, cl) \<Rightarrow>
          (map_option (\<lambda>(err, out', conns).
             (err, printAuth al @ [(''paired; certificate saved'', [])] @ out @ out', bl_Close cl # conns))
             (confirm E o' cert), w)))))))"

definition cmdSend :: "bprobe_env \<Rightarrow> probe_options \<Rightarrow> int32 \<Rightarrow> 'a fs_scheme \<Rightarrow> probe_end option" where
  "cmdSend E o' v w =
     (case loadCreds E w of
        Inl err \<Rightarrow> Some (Some err, [], [])
      | Inr None \<Rightarrow> Some (Some (new_err ''no stored credentials: run beyonderprobe pair first''), [], [])
      | Inr (Some cert) \<Rightarrow>
     (case bp_connect E 0 o' (Some cert) of
        Inl err \<Rightarrow> Some (Some err, [], [])
      | Inr cl \<Rightarrow>
     (case helloTimeout E o' cl of
        (None, _) \<Rightarrow> None
      | (Some (Inl err), cl) \<Rightarrow> Some (Some err, [], [bl_Close cl])
      | (Some (Inr al), cl) \<Rightarrow>
     (case SendSpecialInput (bp_codec E) v cl of
        (Some err, cl) \<Rightarrow>
          Some (Some (if errors_is err ErrNotPaired then wrap_err ''%w: run beyonderprobe pair first'' err else err),
                printAuth al, [bl_Close cl])
      | (None, cl) \<Rightarrow>
          map_option (\<lambda>(out, cl).
            (None, printAuth al @ [(''sent special input %s (%d)'', [FS (bp_special_String E v), FI (sint v)])] @ out,
             [bl_Close cl]))
            (listen E (op_wait o') cl)))))"

section \<open>The command line\<close>

definition err_help :: goerr where "err_help = Sentinel ''flag: help requested''"

text \<open>\<open>run\<close>, with the usage text as one line; and what \<open>main\<close> makes of its error: the exit code.\<close>

definition usage_line :: lines where "usage_line = [(''usage: beyonderprobe <command> [flags]'', [])]"

definition special_value :: "bprobe_env \<Rightarrow> int \<Rightarrow> string \<Rightarrow> int32 res" where
  "special_value E v sname =
     (if sname \<noteq> [] \<and> 0 \<le> v then Inl (new_err ''use either --value or --name, not both'')
      else if sname \<noteq> [] then parseSpecialName (bp_unicode E) sname
      else if 0 \<le> v then Inr (word_of_int v)
      else Inl (new_err ''special needs --value N or --name NAME''))"

definition bp_run :: "bprobe_env \<Rightarrow> string list \<Rightarrow> 'a fs_scheme \<Rightarrow> probe_end option \<times> 'a fs_scheme" where
  "bp_run E args w =
     (case args of
        [] \<Rightarrow> (Some (Some (new_err ''missing command''), usage_line, []), w)
      | cmd # rest \<Rightarrow>
          if cmd = ''-h'' \<or> cmd = ''--help'' \<or> cmd = ''help'' then (Some (None, usage_line, []), w)
          else if cmd \<notin> {''hello'', ''pair'', ''power'', ''special''}
          then (Some (Some (Errorf ''unknown command %q'' [FS cmd] None), usage_line, []), w)
          else
            (case bp_parse E cmd rest of
               None \<Rightarrow> (Some (Some err_help, [], []), w)
             | Some (o', v, sname) \<Rightarrow>
                 (let (host, w) =
                    (if op_host o' = []
                     then (case target_Load (bp_json E) w of
                             (Inl _, w) \<Rightarrow> (None, w)
                           | (Inr t, w) \<Rightarrow> (if t_Host t = [] then None else Some (t_Host t), w))
                     else (Some (op_host o'), w))
                  in case host of
                       None \<Rightarrow> (Some (Some (new_err ''no --host given and no saved target''), [], []), w)
                     | Some h \<Rightarrow>
                         (let o' = o'\<lparr>op_host := h\<rparr> in
                          if cmd = ''hello'' then (cmdHello E o' w, w)
                          else if cmd = ''pair'' then cmdPair E o' w
                          else if cmd = ''power'' then (cmdSend E o' ACTION_SLEEP_NOW w, w)
                          else
                            (case special_value E v sname of
                               Inl err \<Rightarrow> (Some (Some err, [], []), w)
                             | Inr i \<Rightarrow> (cmdSend E o' i w, w))))))"

definition bp_main :: "bprobe_env \<Rightarrow> string list \<Rightarrow> 'a fs_scheme \<Rightarrow> (nat \<times> lines) option \<times> 'a fs_scheme" where
  "bp_main E args w =
     (case bp_run E args w of
        (r, w) \<Rightarrow>
          (map_option (\<lambda>(err, out, conns).
             case err of
               None \<Rightarrow> (0, out)
             | Some e \<Rightarrow> if errors_is e err_help then (0, out) else (1, out @ [(''beyonderprobe: %v'', [FS (bp_Error E e)])])) r, w))"

section \<open>Capabilities\<close>













section \<open>The commands\<close>

lemma Send_level: "bl_Send c f cl = (r, cl') \<Longrightarrow> bl_level cl' = bl_level cl"
  using sending_Send by (simp add: sending_def)

text \<open>A greeting within its time: as \<open>Hello\<close>, whatever the timer does.\<close>

lemma helloTimeout_Inr:
  assumes "bl_open cl" "helloTimeout E o' cl = (Some (Inr al), cl')"
  obtains pre m where "incoming (bp_codec E) cl = pre @ m # incoming (bp_codec E) cl'"
    "list_all (\<lambda>x. ms_AuthLevel x = None) pre" "ms_AuthLevel m = Some al" "bl_level cl' = al_Level al"
proof -
  let ?cl = "cl\<lparr>bl_sched := takeWhile (before (bl_now cl + op_timeout o')) (bl_sched cl)\<rparr>"
  obtain r cl1 where h: "Hello (bp_codec E) (op_name o') ?cl = (r, cl1)" by fastforce
  with assms(2) have "r = Some (Inr al)" and left: "incoming (bp_codec E) cl' = incoming (bp_codec E) cl1"
    "bl_level cl' = bl_level cl1"
    by (auto simp: helloTimeout_def Let_def split: option.splits if_splits)
  with h have "Hello (bp_codec E) (op_name o') ?cl = (Some (Inr al), cl1)" by simp
  from Hello_Inr [OF _ this] assms(1) show thesis using left that by (metis incoming_sched open_sched(1))
qed

lemma connect_open: "bp_connect E i o' cert = Inr cl \<Longrightarrow> bl_open cl"
  by (auto simp: bp_connect_def bey_Dial_def bl_open_def split: sum.splits)

text \<open>
  C32: A greeting does not hang: when the time it is given passes, \<open>helloTimeout\<close> returns, whatever the
  server sends or does not send. If it gives up, the connection is closed.
\<close>

theorem helloTimeout_returns:
  assumes "Ev_Time t \<in> set (bl_sched cl)" "bl_now cl + op_timeout o' \<le> t"
  shows "\<exists>r cl'. helloTimeout E o' cl = (Some r, cl') \<and>
    (fst (Hello (bp_codec E) (op_name o') (cl\<lparr>bl_sched := takeWhile (before (bl_now cl + op_timeout o')) (bl_sched cl)\<rparr>)) = None
      \<longrightarrow> isl r \<and> bl_done cl')"
proof -
  let ?t = "bl_now cl + op_timeout o'"
  have later: "dropWhile (before ?t) (bl_sched cl) \<noteq> []"
  proof
    assume "dropWhile (before ?t) (bl_sched cl) = []"
    with assms(1) have "before ?t (Ev_Time t)" by (simp add: dropWhile_eq_Nil_conv)
    with assms(2) show False by (simp add: before_def)
  qed
  obtain r cl1 where h: "Hello (bp_codec E) (op_name o') (cl\<lparr>bl_sched := takeWhile (before ?t) (bl_sched cl)\<rparr>) = (r, cl1)"
    by fastforce
  show ?thesis
  proof (cases r)
    case (Some x)
    with h show ?thesis by (simp add: helloTimeout_def Let_def)
  next
    case None
    with h later show ?thesis by (auto simp: helloTimeout_def Let_def bl_Close_def split: option.split)
  qed
qed

text \<open>A greeting: the first authorization message that came is \<open>al\<close>, and \<open>cl'\<close> is what is left.\<close>

definition greeted :: "bey_codec \<Rightarrow> bey_client \<Rightarrow> authorization_level \<Rightarrow> bey_client \<Rightarrow> bool" where
  "greeted c cl al cl' \<longleftrightarrow>
     (\<exists>pre m. incoming c cl = pre @ m # incoming c cl' \<and> list_all (\<lambda>x. ms_AuthLevel x = None) pre \<and>
        ms_AuthLevel m = Some al)"

lemma connect_greeted:
  assumes "bp_connect E i o' cert = Inr cl" "helloTimeout E o' cl = (Some (Inr al), cl')"
  shows "greeted (bp_codec E) cl al cl' \<and> bl_level cl' = al_Level al"
  using helloTimeout_Inr [OF connect_open [OF assms(1)] assms(2)] unfolding greeted_def by metis

text \<open>Listening only adds to what was written.\<close>

definition wrote :: "bey_client \<Rightarrow> bey_client \<Rightarrow> bool" where
  "wrote cl cl' \<longleftrightarrow> (\<exists>rest. bl_writes cl' = bl_writes cl @ rest)"

lemma wrote_refl [simp]: "wrote cl cl"
  by (simp add: wrote_def)

lemma wrote_trans: "wrote a b \<Longrightarrow> wrote b c \<Longrightarrow> wrote a c"
  by (auto simp: wrote_def)

lemma wrote_background: "wrote cl (background c ev cl)"
  using added_background unfolding added_def wrote_def by blast

lemma wrote_listen_loop: "listen_loop E t evs cl = Some (out, cl') \<Longrightarrow> wrote cl cl'"
proof (induction evs arbitrary: cl out)
  case (Cons ev evs)
  show ?case
  proof (cases "ev \<in> {Ev_Done, Ev_Receive}")
    case True
    with Cons.prems show ?thesis
      by (auto simp: wrote_def split: if_splits list.splits dest!: Cons.IH)
  next
    case False
    then have "listen_loop E t (ev # evs) cl = listen_loop E t evs (background (bp_codec E) ev cl)"
      by (cases ev) auto
    with Cons.prems have "listen_loop E t evs (background (bp_codec E) ev cl) = Some (out, cl')" by simp
    from wrote_trans [OF wrote_background Cons.IH [OF this]] show ?thesis .
  qed
qed simp

lemma wrote_listen: "listen E d cl = Some (out, cl') \<Longrightarrow> wrote cl cl'"
  by (auto simp: listen_def wrote_def split: if_splits dest!: wrote_listen_loop)

lemma SendSpecialInput_ok:
  assumes "SendSpecialInput c v cl = (None, cl')"
  obtains f where "EncodeSpecialInput c v = Inr f" "bl_level cl = 1000" "bl_writes cl' = bl_writes cl @ Frames c f"
proof -
  obtain f where "EncodeSpecialInput c v = Inr f" "bl_level cl = 1000" "bl_Send c f cl = (None, cl')"
    using assms
    by (auto simp: SendSpecialInput_def LevelVirtualInput_def LEVEL_VIRTUAL_INPUT_def split: if_splits sum.splits)
  moreover from this(3) have "bl_writes cl' = bl_writes cl @ Frames c f" by (rule Send_wrote)
  ultimately show thesis using that by blast
qed

text \<open>
  C20: \<open>power\<close> and \<open>special\<close> are only carried out for a remote that is paired: when the command ends without
  an error, stored credentials were presented, the first authorization level of that connection was
  \<open>VIRTUAL_INPUT\<close>, the frames of the input were written whole after it, and the one connection that was
  made is closed.
\<close>

theorem cmdSend_authorized:
  assumes "cmdSend E o' v w = Some (None, out, conns)"
  shows "\<exists>cert cl0 cl al f rest conn.
    LoadCredentials (bp_crypto E) w = Inr (Some cert) \<and> bp_connect E 0 o' (Some cert) = Inr cl0 \<and>
    greeted (bp_codec E) cl0 al cl \<and> al_Level al = 1000 \<and> EncodeSpecialInput (bp_codec E) v = Inr f \<and>
    conns = [conn] \<and> bl_writes conn = bl_writes cl @ Frames (bp_codec E) f @ rest \<and> bl_done conn"
proof -
  obtain cert where cert: "LoadCredentials (bp_crypto E) w = Inr (Some cert)"
    using assms by (auto simp: cmdSend_def loadCreds_def split: sum.splits option.splits)
  obtain cl0 where cl0: "bp_connect E 0 o' (Some cert) = Inr cl0"
    using assms by (auto simp: cmdSend_def loadCreds_def cert split: sum.splits)
  obtain al cl where h: "helloTimeout E o' cl0 = (Some (Inr al), cl)"
    using assms by (auto simp: cmdSend_def loadCreds_def cert cl0 split: prod.splits option.splits sum.splits)
  obtain cl1 where s: "SendSpecialInput (bp_codec E) v cl = (None, cl1)"
    using assms by (auto simp: cmdSend_def loadCreds_def cert cl0 h split: prod.splits option.splits)
  obtain out' cl2 where l: "listen E (op_wait o') cl1 = Some (out', cl2)" "conns = [bl_Close cl2]"
    using assms by (auto simp: cmdSend_def loadCreds_def cert cl0 h s)
  obtain f where f: "EncodeSpecialInput (bp_codec E) v = Inr f" "bl_level cl = 1000"
      "bl_writes cl1 = bl_writes cl @ Frames (bp_codec E) f"
    using SendSpecialInput_ok [OF s] .
  obtain rest where "bl_writes cl2 = bl_writes cl1 @ rest" using wrote_listen [OF l(1)] by (auto simp: wrote_def)
  then have "bl_writes (bl_Close cl2) = bl_writes cl @ Frames (bp_codec E) f @ rest" using f(3) by simp
  with connect_greeted [OF cl0 h] f(1,2) cert cl0 l(2) show ?thesis by (metis Close_kept(1))
qed

lemma LoadOrCreateDeviceID_frame:
  "LoadOrCreateDeviceID rand w = (r, w') \<Longrightarrow> bey_configDir w = Inr dir \<Longrightarrow>
    only_files {path_Join [dir, deviceIDFile]} w w'"
  by (auto simp: LoadOrCreateDeviceID_def Let_def split: sum.splits if_splits prod.splits option.splits
      dest: writePrivate_frame [where S = "{path_Join [dir, deviceIDFile]}"])

text \<open>
  The certificate \<open>cert\<close> is the one in the two files of \<open>dir\<close>, with its key, and \<open>t\<close> is what they
  load as. The key pair is checked as it is stored, so that what was saved can be loaded.
\<close>

definition stored_as :: "bey_crypto \<Rightarrow> string \<Rightarrow> tls_certificate \<Rightarrow> 'a fs_scheme \<Rightarrow> tls_certificate \<Rightarrow> bool" where
  "stored_as k dir cert w t \<longleftrightarrow> (\<exists>der ders priv keyDER.
     tc_Certificate cert = der # ders \<and> tc_PrivateKey cert = Some priv \<and>
     by_MarshalPKCS8PrivateKey k priv = Inr keyDER \<and>
     fs_files w (path_Join [dir, bey_certFile]) = Some (by_PEM_Encode k ''CERTIFICATE'' der, 384) \<and>
     fs_files w (path_Join [dir, bey_keyFile]) = Some (by_PEM_Encode k ''PRIVATE KEY'' keyDER, 384) \<and>
     by_X509KeyPair k (by_PEM_Encode k ''CERTIFICATE'' der) (by_PEM_Encode k ''PRIVATE KEY'' keyDER) = Inr t \<and>
     LoadCredentials k w = Inr (Some t))"

lemma parsed_saved_loads:
  assumes "ParseCredentials k crt key = Inr t" "SaveCertificate k t w = (None, w')" "bey_configDir w = Inr dir"
    and "fs_fault w OpRead (path_Join [dir, bey_certFile]) = None"
    and "fs_fault w OpRead (path_Join [dir, bey_keyFile]) = None"
  shows "\<exists>t'. stored_as k dir t w' t'"
proof -
  let ?pair = "\<lambda>der keyDER. by_X509KeyPair k (by_PEM_Encode k ''CERTIFICATE'' der) (by_PEM_Encode k ''PRIVATE KEY'' keyDER)"
  obtain der ders priv keyDER where s: "tc_Certificate t = der # ders" "tc_PrivateKey t = Some priv"
    "by_MarshalPKCS8PrivateKey k priv = Inr keyDER"
    "fs_files w' (path_Join [dir, bey_certFile]) = Some (by_PEM_Encode k ''CERTIFICATE'' der, 384)"
    "fs_files w' (path_Join [dir, bey_keyFile]) = Some (by_PEM_Encode k ''PRIVATE KEY'' keyDER, 384)"
    and l: "LoadCredentials k w' = (case ?pair der keyDER of
         Inl err \<Rightarrow> Inl (wrap_err ''beyonder: load stored credentials: %w'' err)
       | Inr t \<Rightarrow> Inr (Some t))"
    using SaveCertificate_loads [OF assms(2-5)] by blast
  obtain x where x: "?pair der keyDER = Inr x"
    using assms(1) s(1-3) by (auto simp: ParseCredentials_def Let_def mustKeyPEM_def split: sum.splits)
  with l have "LoadCredentials k w' = Inr (Some x)" by simp
  with s x show ?thesis unfolding stored_as_def by blast
qed

lemma wait_open: "bl_open cl \<Longrightarrow> wait c pred cl = (r, cl') \<Longrightarrow> bl_open cl'"
  using wait_spec [of cl c pred r cl'] by (simp add: wait_result_def)

lemma open_kept:
  "bl_open (StartKeepalive cl) = bl_open cl" "bl_open (touchRTT cl) = bl_open cl"
  "bl_open (cl\<lparr>bl_level := l, bl_caps := ca, bl_name := n\<rparr>) = bl_open cl"
  by (simp_all add: bl_open_def StartKeepalive_def touchRTT_def)

lemma Hello_open: "bl_open cl \<Longrightarrow> Hello c name cl = (Some (Inr al), cl') \<Longrightarrow> bl_open cl'"
  by (auto simp: Hello_def Let_def open_kept split: sum.splits prod.splits option.splits if_splits
      dest!: wait_open [rotated] Send_incoming)

lemma helloTimeout_open:
  assumes "bl_open cl" "helloTimeout E o' cl = (Some (Inr al), cl')"
  shows "bl_open cl'"
proof -
  let ?cl = "cl\<lparr>bl_sched := takeWhile (before (bl_now cl + op_timeout o')) (bl_sched cl)\<rparr>"
  obtain r cl1 where h: "Hello (bp_codec E) (op_name o') ?cl = (r, cl1)" by fastforce
  with assms(2) have "r = Some (Inr al)" "bl_open cl' = bl_open cl1"
    by (auto simp: helloTimeout_def Let_def split: option.splits if_splits)
  with Hello_open [of ?cl] h assms(1) show ?thesis by simp
qed

lemma confirm_level:
  assumes "confirm E o' cert = Some (None, out, conns)"
  shows "\<exists>cl al cl'. bp_connect E 1 o' (Some cert) = Inr cl \<and> greeted (bp_codec E) cl al cl' \<and> al_Level al = 1000 \<and>
    list_all bl_done conns"
proof -
  obtain cl where cl: "bp_connect E 1 o' (Some cert) = Inr cl"
    using assms by (auto simp: confirm_def simp del: One_nat_def split: sum.splits)
  obtain al cl' where h: "helloTimeout E o' cl = (Some (Inr al), cl')"
    using assms by (auto simp: confirm_def cl simp del: One_nat_def split: prod.splits option.splits sum.splits)
  then have "al_Level al = 1000" "conns = [bl_Close cl']"
    using assms by (auto simp: confirm_def cl LevelVirtualInput_def LEVEL_VIRTUAL_INPUT_def simp del: One_nat_def split: if_splits)
  with connect_greeted [OF cl h] cl show ?thesis by (auto simp del: One_nat_def)
qed

lemma cmdPair_None:
  assumes "cmdPair E o' w = (Some (None, out, conns), w')" and "bey_configDir w = Inr dir"
    and "fs_fault w OpRead (path_Join [dir, bey_certFile]) = None"
    and "fs_fault w OpRead (path_Join [dir, bey_keyFile]) = None"
  shows "\<exists>cl0 al cl. bp_connect E 0 o' None = Inr cl0 \<and> greeted (bp_codec E) cl0 al cl \<and> list_all bl_done conns \<and>
    (al_Level al = 1000 \<and> w' = w \<or>
     (\<exists>pin pre challenge between m pr cl1 cert t cl2 al' cl3.
        incoming (bp_codec E) cl = pre @ challenge # between @ m # incoming (bp_codec E) cl1 \<and>
        ms_PinChallenge challenge \<and> pin_prompt E = Inr pin \<and>
        ms_PairingResult m = Some pr \<and> br_ResultType pr = 1 \<and>
        ParseCredentials (bp_crypto E) (string_of (br_Certificate pr)) (string_of (br_PrivateKey pr)) = Inr cert \<and>
        stored_as (bp_crypto E) dir cert w' t \<and>
        bp_connect E 1 o' (Some cert) = Inr cl2 \<and> greeted (bp_codec E) cl2 al' cl3 \<and> al_Level al' = 1000))"
proof -
  obtain cl0 where cl0: "bp_connect E 0 o' None = Inr cl0"
    using assms(1) by (auto simp: cmdPair_def split: sum.splits)
  obtain al cl where h: "helloTimeout E o' cl0 = (Some (Inr al), cl)"
    using assms(1) by (auto simp: cmdPair_def cl0 split: prod.splits option.splits sum.splits)
  have g: "greeted (bp_codec E) cl0 al cl" using connect_greeted [OF cl0 h] by simp
  show ?thesis
  proof (cases "al_Level al = 1000")
    case True
    then have "w' = w" "list_all bl_done conns"
      using assms(1) by (auto simp: cmdPair_def cl0 h LevelVirtualInput_def LEVEL_VIRTUAL_INPUT_def)
    with True cl0 g show ?thesis by blast
  next
    case False
    then have level: "al_Level al \<noteq> LevelVirtualInput" by (simp add: LevelVirtualInput_def LEVEL_VIRTUAL_INPUT_def)
    obtain ident w1 where i: "LoadOrCreateDeviceID (bp_rand E) w = (Inr ident, w1)"
      using assms(1) by (auto simp: cmdPair_def cl0 h level split: prod.splits sum.splits)
    obtain cert cl1 where p: "bl_Pair (bp_codec E) (bp_crypto E) (pin_prompt E, snd (bp_stdin E)) ident cl =
        (Some (Inr cert), cl1)"
      using assms(1) by (auto simp: cmdPair_def cl0 h level i split: prod.splits option.splits sum.splits)
    have s: "SaveCertificate (bp_crypto E) cert w1 = (None, w')"
      using assms(1) by (auto simp: cmdPair_def cl0 h level i p split: prod.splits option.splits)
    obtain out1 cl2 out2 conns2 where l: "confirm E o' cert = Some (None, out2, conns2)" "conns = bl_Close cl2 # conns2"
      using assms(1) by (auto simp: cmdPair_def cl0 h level i p s split: option.splits)
    have f: "only_files {path_Join [dir, deviceIDFile]} w w1" using LoadOrCreateDeviceID_frame [OF i assms(2)] .
    have "bl_open cl" using helloTimeout_open [OF connect_open [OF cl0] h] .
    from Pair_Inr [OF this p] obtain pin pre challenge between m pr mid where
      i: "incoming (bp_codec E) cl = pre @ challenge # incoming (bp_codec E) mid"
        "incoming (bp_codec E) mid = between @ m # incoming (bp_codec E) cl1"
      and 1: "ms_PinChallenge challenge" "pin_prompt E = Inr pin" "ms_PairingResult m = Some pr" "br_ResultType pr = 1"
        "ParseCredentials (bp_crypto E) (string_of (br_Certificate pr)) (string_of (br_PrivateKey pr)) = Inr cert"
      by (metis fst_conv)
    have 0: "incoming (bp_codec E) cl = pre @ challenge # between @ m # incoming (bp_codec E) cl1" using i by simp
    have "bey_configDir w1 = Inr dir" using bey_configDir_cong [OF only_filesD(1) [OF f]] assms(2) by simp
    with parsed_saved_loads [OF 1(5) s] assms(3,4) only_filesD(2) [OF f]
    obtain t where "stored_as (bp_crypto E) dir cert w' t" by auto
    with 0 1 confirm_level [OF l(1)] l(2) cl0 g show ?thesis by (simp del: One_nat_def) blast
  qed
qed

text \<open>
  C12: \<open>pair\<close> reports success only for a remote that is paired. Either the server granted \<open>VIRTUAL_INPUT\<close> at
  once, and nothing is stored; or the challenge came, the PIN was read and a pairing result that says success
  came after it, the certificate and the key of that very result are what the two files hold from now on and
  what loads from them, and a second connection that presents the certificate was granted \<open>VIRTUAL_INPUT\<close>.
  All connections are closed.
\<close>

theorem cmdPair_confirmed:
  assumes "cmdPair E o' w = (Some (None, out, conns), w')" and "bey_configDir w = Inr dir"
    and "fs_fault w OpRead (path_Join [dir, bey_certFile]) = None"
    and "fs_fault w OpRead (path_Join [dir, bey_keyFile]) = None"
  shows "\<exists>cl0 al cl. bp_connect E 0 o' None = Inr cl0 \<and> greeted (bp_codec E) cl0 al cl \<and> list_all bl_done conns \<and>
    (al_Level al = 1000 \<and> w' = w \<or>
     (\<exists>pin pre challenge between m pr cl1 cert t cl2 al' cl3.
        incoming (bp_codec E) cl = pre @ challenge # between @ m # incoming (bp_codec E) cl1 \<and>
        ms_PinChallenge challenge \<and> pin_prompt E = Inr pin \<and>
        ms_PairingResult m = Some pr \<and> br_ResultType pr = 1 \<and>
        ParseCredentials (bp_crypto E) (string_of (br_Certificate pr)) (string_of (br_PrivateKey pr)) = Inr cert \<and>
        stored_as (bp_crypto E) dir cert w' t \<and>
        bp_connect E 1 o' (Some cert) = Inr cl2 \<and> greeted (bp_codec E) cl2 al' cl3 \<and> al_Level al' = 1000))"
  using cmdPair_None [OF assms] .

section \<open>Examples\<close>

text \<open>A network for the witnesses: the first connection is not authorized yet and pairs, the others are.\<close>

definition probe_codec :: bey_codec where
  "probe_codec = (test_codec
     [(on_service 1 [7], [8]), (on_service 10 [1], [10]), (on_service 10 [3], [11]),
      (on_service 10 [4], [12]), (on_service 10 [5], [13]), (on_service 10 [6], [14]), (on_service 10 [15], [15]),
      (on_service 1001 [30], [40])]
     [(hello_handshake, [7])])
     \<lparr>bc_auth := table_codec [(\<lparr>ap_Command = 1000, ap_Object = [2]\<rparr>, [1]), (\<lparr>ap_Command = 1101, ap_Object = []\<rparr>, [3]),
        (\<lparr>ap_Command = 1103, ap_Object = []\<rparr>, [4]), (\<lparr>ap_Command = 1105, ap_Object = [9]\<rparr>, [5]),
        (\<lparr>ap_Command = 2101, ap_Object = [20]\<rparr>, [6]), (\<lparr>ap_Command = 1000, ap_Object = [16]\<rparr>, [15])],
      bc_level := table_codec [(\<lparr>al_Level = 1, al_DeviceName = ''tv'', al_Capability = 1024\<rparr>, [2]),
        (\<lparr>al_Level = 1000, al_DeviceName = ''tv'', al_Capability = 0\<rparr>, [16])],
      bc_pin := table_codec [(\<lparr>pin_PinCode = ''1234'', pin_DeviceId = ''dev''\<rparr>, [9])],
      bc_result := table_codec [(\<lparr>br_ResultType = 1, br_ResultString = [], br_PrivateKey = [1], br_Certificate = [2]\<rparr>, [20])],
      bc_virtual := table_codec [(\<lparr>vi_Request = REQUEST_COMMAND, vi_AccessoryType = ACCESSORY_CONTROLLER,
          vi_InputType = INPUT_SPECIAL, vi_KeyState = 0, vi_Value = [], vi_Text = [], vi_SpecialInput = 30\<rparr>, [30])]\<rparr>"

definition probe_env :: "(nat \<Rightarrow> (byte list \<times> goerr option) list) \<Rightarrow> bprobe_env" where
  "probe_env reads = \<lparr>bp_codec = probe_codec, bp_crypto = plain_crypto, bp_names = demo_names, bp_special_String = (\<lambda>_. []),
     bp_Error = (\<lambda>_. []), bp_unicode = ascii_unicode, bp_json = host_json,
     bp_net = (\<lambda>i. \<lparr>bn_Dial = (\<lambda>_ _. Inr (reads i, None, turns 6)), bn_now = 0, bn_ctx = None\<rparr>),
     bp_rand = Inr [], bp_stdin = ((''1234'', None), None), bp_parse = (\<lambda>_ _. None)\<rparr>"

definition probe_opts :: probe_options where
  "probe_opts = \<lparr>op_host = ''tv'', op_port = 8987, op_name = ''shrmt'', op_timeout = 10, op_dump = False, op_wait = 0\<rparr>"

lemma probe_connect: "bp_connect (probe_env reads) i o' cert = Inr (demo_client (reads i) (turns 6))"
  by (simp add: bp_connect_def probe_env_def bey_Dial_def demo_client_def)

theorem helloTimeout_returns_witness:
  "\<exists>r cl'. helloTimeout (probe_env (\<lambda>_. [])) probe_opts (demo_client [] [Ev_Time 10]) = (Some r, cl')"
proof -
  have "Ev_Time 10 \<in> set (bl_sched (demo_client [] [Ev_Time 10]))"
    "bl_now (demo_client [] [Ev_Time 10]) + op_timeout probe_opts \<le> 10"
    by (simp_all add: demo_client_def bey_Dial_def probe_opts_def)
  from helloTimeout_returns [OF this, of "probe_env (\<lambda>_. [])"] show ?thesis by blast
qed

definition paired_world :: fs where
  "paired_world = plain_world\<lparr>fs_files := [''/c/shrmt/beyonder-device-id'' \<mapsto> (''dev'', 384),
     ''/c/shrmt/beyonder-client-cert.pem'' \<mapsto> (''cert'', 384), ''/c/shrmt/beyonder-client-key.pem'' \<mapsto> (''key'', 384)]\<rparr>"

lemma paired_creds:
  "LoadCredentials plain_crypto paired_world =
     Inr (Some \<lparr>tc_Certificate = [''cert''], tc_PrivateKey = Some ''key'', tc_Leaf = None\<rparr>)"
  by code_simp


lemma probe_env_sel:
  "bp_codec (probe_env reads) = probe_codec" "bp_crypto (probe_env reads) = plain_crypto"
  "bp_rand (probe_env reads) = Inr []" "bp_stdin (probe_env reads) = ((''1234'', None), None)"
  by (simp_all add: probe_env_def)

lemma probe_listen: "listen E (op_wait probe_opts) cl = Some ([], cl)"
  by (simp add: listen_def probe_opts_def)

lemma cmdSend_example:
  "\<exists>out conns. cmdSend (probe_env (\<lambda>_. [([15], None)])) probe_opts 30 paired_world = Some (None, out, conns)"
proof -
  let ?E = "probe_env (\<lambda>_. [([15], None)])"
  have "case helloTimeout ?E probe_opts (demo_client [([15], None)] (turns 6)) of (r, cl) \<Rightarrow>
      r = Some (Inr \<lparr>al_Level = 1000, al_DeviceName = ''tv'', al_Capability = 0\<rparr>) \<and>
      fst (SendSpecialInput probe_codec 30 cl) = None" by code_simp
  then show ?thesis
    by (auto simp: cmdSend_def loadCreds_def probe_connect paired_creds probe_env_sel probe_listen split: prod.splits)
qed

theorem cmdSend_authorized_witness:
  "\<exists>f conn before' rest. EncodeSpecialInput probe_codec 30 = Inr f \<and> bl_done conn \<and>
     bl_writes conn = before' @ Frames probe_codec f @ rest \<and>
     snd (snd (the (cmdSend (probe_env (\<lambda>_. [([15], None)])) probe_opts 30 paired_world))) = [conn]"
proof -
  obtain out conns where s: "cmdSend (probe_env (\<lambda>_. [([15], None)])) probe_opts 30 paired_world = Some (None, out, conns)"
    using cmdSend_example by blast
  from cmdSend_authorized [OF this] s show ?thesis by (auto simp: probe_env_sel)
qed

definition pair_reads :: "nat \<Rightarrow> (byte list \<times> goerr option) list" where
  "pair_reads i = (if i = 0 then [([10], None), ([12], None), ([14], None)] else [([15], None)])"


definition issued :: tls_certificate where
  "issued = \<lparr>tc_Certificate = [string_of [2]], tc_PrivateKey = Some (string_of [1]), tc_Leaf = Some (string_of [2])\<rparr>"

lemma probe_prompt: "pin_prompt (probe_env reads) = Inr ''1234''"
proof -
  have "TrimSpace ''1234'' = ''1234''" by (rule TrimSpace_all) (simp add: edge_char_def)
  then show ?thesis by (simp add: pin_prompt_def probe_env_sel)
qed

lemma probe_ident: "LoadOrCreateDeviceID (Inr []) paired_world = (Inr ''dev'', paired_world)"
proof -
  have "TrimSpace ''dev'' = ''dev''" by (rule TrimSpace_all) (simp add: edge_char_def)
  moreover have "os_ReadFile paired_world ''/c/shrmt/beyonder-device-id'' = Inr ''dev''" by code_simp
  moreover have "bey_configDir paired_world = Inr ''/c/shrmt''" by code_simp
  ultimately show ?thesis by (simp add: LoadOrCreateDeviceID_def plain_paths Let_def)
qed

lemma issued_saved: "fst (SaveCertificate plain_crypto issued paired_world) = None"
  by code_simp

lemma cmdPair_example:
  assumes "LoadOrCreateDeviceID (Inr []) w = (Inr ''dev'', w)" "SaveCertificate plain_crypto issued w = (None, w')"
  shows "\<exists>out conns. cmdPair (probe_env pair_reads) probe_opts w = (Some (None, out, conns), w')"
proof -
  let ?E = "probe_env pair_reads"
  have 1: "case helloTimeout ?E probe_opts (demo_client [([10], None), ([12], None), ([14], None)] (turns 6)) of (r, cl) \<Rightarrow>
      r = Some (Inr \<lparr>al_Level = 1, al_DeviceName = ''tv'', al_Capability = 1024\<rparr>) \<and>
      fst (bl_Pair probe_codec plain_crypto (Inr ''1234'', None) ''dev'' cl) = Some (Inr issued)" by code_simp
  have 2: "fst (helloTimeout ?E probe_opts (demo_client [([15], None)] (turns 6))) =
      Some (Inr \<lparr>al_Level = 1000, al_DeviceName = ''tv'', al_Capability = 0\<rparr>)" by code_simp
  have "\<exists>out conns. confirm ?E probe_opts issued = Some (None, out, conns)"
    using 2 by (auto simp: confirm_def probe_connect pair_reads_def LevelVirtualInput_def LEVEL_VIRTUAL_INPUT_def
        simp del: One_nat_def split: prod.splits)
  then obtain out conns where 4: "confirm ?E probe_opts issued = Some (None, out, conns)" by blast
  show ?thesis
    using 1 4
    by (auto simp: cmdPair_def probe_connect pair_reads_def probe_env_sel probe_prompt probe_listen assms
        LevelVirtualInput_def LEVEL_VIRTUAL_INPUT_def split: prod.splits)
qed

theorem cmdPair_confirmed_witness:
  "\<exists>pr :: bey_pairing_result. \<exists>cert t.
     ParseCredentials plain_crypto (string_of (br_Certificate pr)) (string_of (br_PrivateKey pr)) = Inr cert \<and>
     stored_as plain_crypto ''/c/shrmt'' cert (snd (cmdPair (probe_env pair_reads) probe_opts paired_world)) t"
proof -
  let ?E = "probe_env pair_reads"
  obtain w' where s: "SaveCertificate plain_crypto issued paired_world = (None, w')"
    using issued_saved by (metis prod.collapse)
  obtain out conns where p: "cmdPair ?E probe_opts paired_world = (Some (None, out, conns), w')"
    using cmdPair_example [OF probe_ident s] by blast
  have d: "bey_configDir paired_world = Inr ''/c/shrmt''" by code_simp
  have f: "fs_fault paired_world OpRead q = None" for q by (simp add: paired_world_def plain_world_def)
  have "fs_files (snd (SaveCertificate plain_crypto issued paired_world)) ''/c/shrmt/beyonder-client-cert.pem'' \<noteq>
      fs_files paired_world ''/c/shrmt/beyonder-client-cert.pem''" by code_simp
  with s have "w' \<noteq> paired_world" by auto
  let ?parsed = "\<lambda>pr :: bey_pairing_result. \<lambda>cert.
      ParseCredentials (bp_crypto ?E) (string_of (br_Certificate pr)) (string_of (br_PrivateKey pr)) = Inr cert"
  let ?stored = "\<lambda>cert t. stored_as (bp_crypto ?E) ''/c/shrmt'' cert w' t"
  from cmdPair_confirmed [OF p d f f] have "\<exists>pr cert t. ?parsed pr cert \<and> ?stored cert t"
  proof (elim exE conjE disjE)
    assume "w' = paired_world"
    with \<open>w' \<noteq> paired_world\<close> show ?thesis by simp
  next
    fix pr cert t
    assume "?parsed pr cert" "?stored cert t"
    then show ?thesis by (intro exI conjI)
  qed
  with p show ?thesis by (simp add: probe_env_sel)
qed

end
