(* ===== verification/Probe.thy ===== *)
theory Probe
  imports Go_Net
begin

text \<open>
  \<open>internal/probe/probe.go\<close>: whether a service that was found answers, and what its TLS certificate
  says. The connections, the handshake and the certificates are arguments.
\<close>

section \<open>Results\<close>

record probe_target =
  pt_Service :: string
  pt_Instance :: string
  pt_HostName :: string
  pt_Address :: string
  pt_Port :: int
  pt_Text :: "string list"

record tls_info =
  ti_Enabled :: bool
  ti_ServerName :: string
  ti_Protocol :: string
  ti_CipherSuite :: string
  ti_Subject :: string
  ti_Issuer :: string
  ti_CommonName :: string
  ti_IssuerCommonName :: string
  ti_DNSNames :: "string list"
  ti_SelfSigned :: bool

record probe_result =
  rt_Target :: probe_target
  rt_TCPReachable :: bool
  rt_TLS :: "tls_info option"
  rt_Error :: string

text \<open>What the library says of a certificate and of a connection.\<close>

record x509_certificate =
  xc_Subject :: string
  xc_Issuer :: string
  xc_CommonName :: string
  xc_IssuerCommonName :: string
  xc_DNSNames :: "string list"
  xc_RawSubject :: "byte list"
  xc_RawIssuer :: "byte list"

record tls_state =
  ts_Version :: "16 word"
  ts_CipherSuiteName :: string
  ts_PeerCertificates :: "x509_certificate list"

text \<open>\<open>pv_Dial\<close> is asked a first time for the connection and a second time for the handshake.\<close>

record probe_env =
  pv_Dial :: "nat \<Rightarrow> string \<Rightarrow> goerr option"
  pv_Handshake :: "string \<Rightarrow> tls_state res"
  pv_isIP :: "string \<Rightarrow> bool"
  pv_Error :: "goerr \<Rightarrow> string"

section \<open>Helpers\<close>

definition probe_endpoint :: "string \<Rightarrow> int \<Rightarrow> string" where
  "probe_endpoint address port = JoinHostPort address (Itoa port)"

definition probe_inferServerName :: "(string \<Rightarrow> bool) \<Rightarrow> probe_target \<Rightarrow> string" where
  "probe_inferServerName isIP target =
     (let host = TrimSpace (pt_HostName target) in
      if host \<noteq> [] \<and> \<not> isIP host then host
      else
        (let addr = TrimSpace (pt_Address target) in
         if addr \<noteq> [] \<and> \<not> isIP addr then addr else []))"

definition tlsVersion :: "16 word \<Rightarrow> string" where
  "tlsVersion v =
     (if v = 0x0301 then ''TLS1.0''
      else if v = 0x0302 then ''TLS1.1''
      else if v = 0x0303 then ''TLS1.2''
      else if v = 0x0304 then ''TLS1.3''
      else ''0x'' @ hex_number (unat v))"

definition selfSigned :: "x509_certificate option \<Rightarrow> bool" where
  "selfSigned cert = (case cert of None \<Rightarrow> False | Some c \<Rightarrow> xc_RawSubject c = xc_RawIssuer c)"

definition sanitizeStrings :: "string list \<Rightarrow> string list" where
  "sanitizeStrings values =
     (if length values = 0 then [] else sort (unseen {} (filter (\<lambda>v. v \<noteq> []) (map TrimSpace values))))"

section \<open>The probe\<close>

definition tcpReachable :: "probe_env \<Rightarrow> string \<Rightarrow> int \<Rightarrow> goerr option" where
  "tcpReachable E address port = pv_Dial E 0 (probe_endpoint address port)"

definition tlsProbe :: "probe_env \<Rightarrow> probe_target \<Rightarrow> tls_info res" where
  "tlsProbe E target =
     (case pv_Dial E 1 (probe_endpoint (pt_Address target) (pt_Port target)) of
        Some err \<Rightarrow> Inl err
      | None \<Rightarrow>
          (let serverName = probe_inferServerName (pv_isIP E) target in
           case pv_Handshake E serverName of
             Inl err \<Rightarrow> Inl err
           | Inr state \<Rightarrow>
               (let info = \<lparr>ti_Enabled = True, ti_ServerName = serverName, ti_Protocol = tlsVersion (ts_Version state),
                     ti_CipherSuite = ts_CipherSuiteName state, ti_Subject = [], ti_Issuer = [], ti_CommonName = [],
                     ti_IssuerCommonName = [], ti_DNSNames = [], ti_SelfSigned = False\<rparr>
                in Inr (case ts_PeerCertificates state of
                     [] \<Rightarrow> info
                   | cert # _ \<Rightarrow>
                       info\<lparr>ti_Subject := xc_Subject cert, ti_Issuer := xc_Issuer cert,
                         ti_CommonName := xc_CommonName cert, ti_IssuerCommonName := xc_IssuerCommonName cert,
                         ti_DNSNames := sanitizeStrings (xc_DNSNames cert), ti_SelfSigned := selfSigned (Some cert)\<rparr>))))"

definition probe_Run :: "probe_env \<Rightarrow> probe_target \<Rightarrow> probe_result" where
  "probe_Run E target =
     (let result = \<lparr>rt_Target = target, rt_TCPReachable = False, rt_TLS = None, rt_Error = []\<rparr> in
      case tcpReachable E (pt_Address target) (pt_Port target) of
        Some err \<Rightarrow> result\<lparr>rt_Error := ''tcp connect failed: '' @ pv_Error E err\<rparr>
      | None \<Rightarrow>
          (let result = result\<lparr>rt_TCPReachable := True\<rparr> in
           case tlsProbe E target of
             Inl err \<Rightarrow> result\<lparr>rt_Error := ''tls handshake failed: '' @ pv_Error E err\<rparr>
           | Inr tlsInfo \<Rightarrow> result\<lparr>rt_TLS := Some tlsInfo\<rparr>))"

section \<open>Lemmas\<close>

lemma sanitizeStrings_spec:
  "sorted (sanitizeStrings vs)" "distinct (sanitizeStrings vs)" "set (sanitizeStrings vs) = TrimSpace ` set vs - {[]}"
  by (auto simp: sanitizeStrings_def set_unseen distinct_unseen)

text \<open>The version is printed so that it can be told apart: no two versions give the same text.\<close>

lemma tlsVersion_inj: "tlsVersion v = tlsVersion v' \<Longrightarrow> v = v'"
  by (auto simp: tlsVersion_def dest!: hex_number_inj intro: word_unat_eq_iff [THEN iffD2] split: if_splits)

text \<open>
  A probe says the same thing in all its fields: the error is empty exactly when the certificate was
  read, that needs a reachable port, and an unreachable one is never asked for its certificate. The server
  name is never an address or blank, and the names of the certificate are trimmed, sorted and distinct.
\<close>

theorem probe_Run_consistent:
  "rt_Target (probe_Run E t) = t
    \<and> (rt_Error (probe_Run E t) = [] \<longleftrightarrow> rt_TLS (probe_Run E t) \<noteq> None)
    \<and> (rt_TCPReachable (probe_Run E t) \<longleftrightarrow> pv_Dial E 0 (probe_endpoint (pt_Address t) (pt_Port t)) = None)
    \<and> (\<forall>info. rt_TLS (probe_Run E t) = Some info \<longrightarrow>
        rt_TCPReachable (probe_Run E t) \<and> ti_Enabled info
        \<and> (ti_ServerName info = [] \<or> \<not> pv_isIP E (ti_ServerName info))
        \<and> sorted (ti_DNSNames info) \<and> distinct (ti_DNSNames info) \<and> [] \<notin> set (ti_DNSNames info)
        \<and> (\<exists>state. pv_Handshake E (ti_ServerName info) = Inr state \<and> ti_Protocol info = tlsVersion (ts_Version state)
            \<and> (ts_PeerCertificates state \<noteq> [] \<longrightarrow> ti_Subject info = xc_Subject (hd (ts_PeerCertificates state)))))"
proof (cases "tcpReachable E (pt_Address t) (pt_Port t)")
  case (Some err)
  then show ?thesis by (simp add: probe_Run_def tcpReachable_def)
next
  case None
  show ?thesis
  proof (cases "tlsProbe E t")
    case (Inl err)
    with None show ?thesis by (simp add: probe_Run_def tcpReachable_def)
  next
    case (Inr info)
    let ?name = "probe_inferServerName (pv_isIP E) t"
    have "?name = [] \<or> \<not> pv_isIP E ?name" by (simp add: probe_inferServerName_def Let_def)
    moreover from Inr obtain state where state: "pv_Handshake E ?name = Inr state"
      "ti_ServerName info = ?name" "ti_Enabled info" "ti_Protocol info = tlsVersion (ts_Version state)"
      "(ts_PeerCertificates state = [] \<and> ti_DNSNames info = []) \<or>
       (\<exists>cert certs. ts_PeerCertificates state = cert # certs \<and> ti_Subject info = xc_Subject cert
          \<and> ti_DNSNames info = sanitizeStrings (xc_DNSNames cert))"
      by (auto simp: tlsProbe_def Let_def split: option.splits sum.splits list.splits)
    moreover from this(5) have "sorted (ti_DNSNames info)" "distinct (ti_DNSNames info)" "[] \<notin> set (ti_DNSNames info)"
      by (auto simp: sanitizeStrings_spec)
    moreover have "rt_TLS (probe_Run E t) = Some info" "rt_Error (probe_Run E t) = []" "rt_TCPReachable (probe_Run E t)"
      "rt_Target (probe_Run E t) = t"
      using None Inr by (simp_all add: probe_Run_def)
    ultimately show ?thesis using None by (auto simp: tcpReachable_def)
  qed
qed

definition demo_certificate :: x509_certificate where
  "demo_certificate = \<lparr>xc_Subject = ''CN=tv'', xc_Issuer = ''CN=tv'', xc_CommonName = ''tv'', xc_IssuerCommonName = ''tv'',
     xc_DNSNames = [''tv.local '', ''a'', ''tv.local''], xc_RawSubject = [1], xc_RawIssuer = [1]\<rparr>"

definition demo_probe_env :: probe_env where
  "demo_probe_env = \<lparr>pv_Dial = (\<lambda>_ _. None),
     pv_Handshake = (\<lambda>_. Inr \<lparr>ts_Version = 0x0304, ts_CipherSuiteName = ''x'', ts_PeerCertificates = [demo_certificate]\<rparr>),
     pv_isIP = (\<lambda>s. s = ''10.0.0.1''), pv_Error = (\<lambda>_. ''e'')\<rparr>"

definition demo_probe_target :: probe_target where
  "demo_probe_target = \<lparr>pt_Service = [], pt_Instance = [], pt_HostName = ''10.0.0.1'', pt_Address = ''tv'', pt_Port = 6466,
     pt_Text = []\<rparr>"

theorem probe_Run_consistent_witness:
  "\<exists>info. rt_TLS (probe_Run demo_probe_env demo_probe_target) = Some info \<and> ti_ServerName info = ''tv''
    \<and> \<not> pv_isIP demo_probe_env (ti_ServerName info) \<and> distinct (ti_DNSNames info)"
proof -
  have "TrimSpace ''10.0.0.1'' = ''10.0.0.1''" "TrimSpace ''tv'' = ''tv''" by code_simp+
  then have "map_option ti_ServerName (rt_TLS (probe_Run demo_probe_env demo_probe_target)) = Some ''tv''"
    by (simp add: probe_Run_def tcpReachable_def tlsProbe_def demo_probe_env_def demo_probe_target_def
        probe_inferServerName_def Let_def)
  then obtain info where info: "rt_TLS (probe_Run demo_probe_env demo_probe_target) = Some info" "ti_ServerName info = ''tv''"
    by (cases "rt_TLS (probe_Run demo_probe_env demo_probe_target)") simp_all
  note probe_Run_consistent [of demo_probe_env demo_probe_target, THEN conjunct2, THEN conjunct2, THEN conjunct2,
    rule_format, OF info(1)]
  with info show ?thesis by (intro exI [of _ info]) simp
qed

end
