(* ===== verification/Spec2Isabelle.thy ===== *)
theory Spec2Isabelle
  imports Shrmt_Program Keys Gtk_App Gtk_Bootstrap NvProbe_Run Wakeprobe Beyonder_Probe Probe
begin

text \<open>
  A verification library of \<open>shrmt\<close>, a remote control for an NVIDIA SHIELD: it finds the device
  on the network, pairs with it, and sends it keys, app launches and the sleep command, from a
  command line and from a window. Three development tools and a package probe the device's protocols.

  \<^bold>\<open>Parts and how they interact.\<close> \<open>core/action\<close> parses action names, \<open>core/device\<close> decides which
  target is meant (an explicit one, the saved one, or the only one discovered), \<open>core/pairing\<close>
  checks the code and runs a pairer, \<open>core/remote\<close> joins them: it loads the state shown to the
  user, and gives a target with its credentials to a sender. \<open>controller\<close> is the facade behind
  which \<open>cmd/shrmt\<close> assembles the program: the stores of \<open>adapters/out/xdg\<close>, the discoverer of
  \<open>adapters/out/zeroconf\<close>, the pairer and the sender of \<open>adapters/out/androidtv\<close> over
  \<open>internal/atvremote\<close>, and around that sender the one of \<open>adapters/out/beyonder\<close>, which sends
  power and app shortcuts through \<open>internal/beyonder\<close> where the device has been paired for it. The
  two front ends \<open>adapters/in/cli\<close> and \<open>adapters/in/gtk\<close> call the controller only.

  \<^bold>\<open>Go in Isabelle.\<close> (\<open>Go_Prelude\<close>, \<open>Go_Strings\<close>, \<open>Go_Wire\<close>, \<open>Go_Net\<close>, \<open>Go_Files\<close>, \<open>Go_Conn\<close>.) A
  result with an error is a sum, \<open>Inl\<close> the error; an error is a sentinel or a wrapped one, and
  \<open>errors_is\<close> follows the wrapping. A struct is a record, an interface a record of functions, a
  nil pointer \<open>None\<close>. The file system is a record with the files, their modes, and the fault that
  each operation may have; a connection is the bytes that will still arrive and those that were
  written. A function that changes the world takes and returns it. The theorems on a store or a
  connection are proved for every fault, so they cover every error path.

  \<^bold>\<open>Theories.\<close>
  \<^item> \<open>Actions\<close>, \<open>Devices\<close>, \<open>Pairing_Core\<close>, \<open>Remote_Core\<close>: the packages of \<open>core/\<close>, with \<open>controller/\<close>
    and \<open>ports/\<close>. The locales \<open>saved_target_store\<close>, \<open>client_credential_store\<close> and \<open>remote_stores\<close>
    state what the services rely on; \<open>Xdg_Store\<close> and \<open>Shrmt_Main\<close> interpret them on the code's stores.
  \<^item> \<open>Xdg_Store\<close>: \<open>adapters/out/xdg\<close> with the migration from former directories. What is saved is
    loaded next; loading twice gives the same; half a migration fails every later load.
  \<^item> \<open>Keys\<close>, \<open>Remote_Client\<close>, \<open>Session\<close>, \<open>Android_Tv\<close>: \<open>internal/atvremote\<close> (\<open>keys.go\<close>, \<open>remote.go\<close>,
    \<open>session.go\<close>) and \<open>adapters/out/androidtv\<close>. The reader of the remote client is a sequence of
    rounds, one for each message; the invariants are by induction on reachable states, with what
    each write puts on the connection. The sender keeps one session and dials again once; its
    invariant (\<open>sender_inv\<close>) is that a kept session is open, ready, and dialled to where it is
    filed under.
  \<^item> \<open>Certificates\<close>, \<open>Pairing_Protocol\<close>: \<open>certificate.go\<close> and \<open>pairing.go\<close>, both halves of the
    conversation; \<open>start\<close> refines an abstract conversation of three requests.
  \<^item> \<open>Beyonder_Messages\<close>, \<open>Beyonder_Creds\<close>, \<open>Beyonder_Client\<close>, \<open>Power_Sender\<close>: \<open>internal/beyonder\<close> and
    \<open>adapters/out/beyonder\<close>. The reader, the keepalive and the caller are interleaved by a schedule
    of events, and the theorems hold for every schedule and say what was written on the connection
    before and after a message came. \<open>Beyonder_String\<close> is the text of a message,
    which does not show the secrets of a pairing.
  \<^item> \<open>Discovery\<close>: \<open>internal/discovery\<close> and \<open>adapters/out/zeroconf\<close>.
  \<^item> \<open>Cli\<close>, \<open>Gtk_App\<close>, \<open>Shrmt_Main\<close>, \<open>Shrmt_Program\<close>: the front ends and the program, of which one process
    leaves only the files to the next. \<open>app_send_usable\<close> compares the program with the same program
    on another sender (\<open>with_sender\<close>). The window is a step relation over
    what the user, the worker and the goroutines do; \<open>ui_run\<close> are its runs, and \<open>ui_path\<close> the
    same runs with the states between the events, from which the presses of the user and the
    results of the sends are read off. \<open>Gtk_Bootstrap\<close> is the
    search for the layer-shell library and the second start of the program with it.
  \<^item> \<open>NvProbe_Wire\<close>, \<open>NvProbe_Attempts\<close>, \<open>NvProbe_Run\<close>, \<open>Wakeprobe\<close>: the tools \<open>cmd/nvprobe\<close> and
    \<open>cmd/wakeprobe\<close>. Both try a list of attempts and poll the power state after each, which is
    \<open>Power_Poll\<close>; what their two loops share is its locale \<open>attempt_loop\<close>, interpreted on each.
  \<^item> \<open>Beyonder_Probe\<close>: the tool \<open>cmd/beyonderprobe\<close> over \<open>internal/beyonder\<close>: its commands succeed only
    when the device has granted what they need. \<open>Probe\<close>: \<open>internal/probe\<close>.
  \<^item> This theory: what pairing with the tool means for the sender of the program.

  \<^bold>\<open>Bounds and fuel.\<close> A loop that the code leaves only when something happens outside is not given
  fuel that could run out silently. Reading from a connection ends since the connection has finitely
  many bytes (\<open>reader_terminates\<close>). A wait of the beyonder client runs along a schedule, and \<open>None\<close>
  is a schedule that ended before the wait did; every schedule with \<open>work\<close> rounds of the reader and
  the waiter suffices (\<open>wait_returns\<close>), \<open>bey_returns\<close> says which do for a whole exchange, and \<open>helloTimeout_returns\<close> that a timer does. \<open>en_rounds\<close> is how far the reader of a
  session has come when the caller looks again, any number. The range of a flag and the polling of
  the power state are partial functions, where \<open>None\<close> is a loop that never ends; \<open>parseIntList_spec\<close>, \<open>nv_probe_returns\<close> and \<open>wk_probe_run\<close> say
  when they do end, the first of them exactly.
  Integers are mathematical where the code cannot overflow, \<open>i64\<close> wraps where it can, and message
  fields have their width.

  \<^bold>\<open>Not modelled.\<close> Code that is not in the repository is an argument: protobuf encoding and decoding,
  crypto, TLS, mDNS (\<open>zeroconf\<close>), \<open>encoding/json\<close>, and the flags that \<open>cobra\<close> and \<open>flag\<close> parse. What
  is relied on about them is a named hypothesis (\<open>codec_ok\<close> and the like) with a concrete
  instance in the witnesses. Left out are the calls that build and draw the widgets of GTK, and
  the generated message types (\<open>*.pb.go\<close>), whose fields are records here. Time is an argument;
  that a timer fires late, or a goroutine is starved, is only what a schedule or a clock says.

  \<^bold>\<open>Simplifications.\<close> A prompt for a code or a PIN is part of reading it, and not among the lines
  printed. The fault of a file operation is the same for the whole of a run. The bytes
  that \<open>bufio\<close> has read ahead in the remote client cannot be read after it is closed. The writes of
  the beyonder client are a list with one element for each that went through; one that fails leaves
  none, not a part. The worker of the window takes an action and reads
  the depth in one step, which only the status text could show. The window is activated once.
\<close>

text \<open>
  C13: What \<open>beyonderprobe pair\<close> stores is what the remote uses. When it has paired, a pairing result that says
  success came on its first connection, and from then on sending the power action goes through the beyonder
  protocol with what the certificate and the key of that result load as, whatever the other sender is. It
  returns, with the connection closed. Otherwise the server had granted the level without pairing, and nothing
  was stored.
\<close>

theorem pair_tool_enables_power:
  assumes "cmdPair E o' w = (Some (None, out, conns), w')" and "bey_configDir w = Inr dir"
    and "fs_fault w OpRead (path_Join [dir, bey_certFile]) = None"
    and "fs_fault w OpRead (path_Join [dir, bey_keyFile]) = None"
    and "pe_crypto env = bp_crypto E"
  shows "\<exists>cl0 al cl. bp_connect E 0 o' None = Inr cl0 \<and> greeted (bp_codec E) cl0 al cl \<and>
    (al_Level al = 1000 \<and> w' = w \<or>
     (\<exists>m pr cert pair r left.
        m \<in> set (incoming (bp_codec E) cl) \<and> ms_PairingResult m = Some pr \<and> br_ResultType pr = 1 \<and>
        ParseCredentials (bp_crypto E) (string_of (br_Certificate pr)) (string_of (br_PrivateKey pr)) = Inr cert \<and>
        stored_as (bp_crypto E) dir cert w' pair \<and>
        bey_sleep (pe_codec env) (pe_net env (aw_now w')) t pair Power = Some (r, left) \<and> left_closed left \<and>
        power_Send env inner t creds Power w' = (r, w'\<lparr>aw_now := aw_now w' + 1\<rparr>)))"
proof -
  have sleep: "\<exists>r left. bey_sleep (pe_codec env) (pe_net env (aw_now w')) t pair Power = Some (r, left) \<and> left_closed left \<and>
      power_Send env inner t creds Power w' = (r, w'\<lparr>aw_now := aw_now w' + 1\<rparr>)"
    if "stored_as (bp_crypto E) dir cert w' pair" for cert pair
  proof -
    have "LoadCredentials (bp_crypto E) w' = Inr (Some pair)" using that unfolding stored_as_def by blast
    moreover obtain r left where "bey_sleep (pe_codec env) (pe_net env (aw_now w')) t pair Power = Some (r, left)"
      "left_closed left"
      using bey_end by blast
    ultimately show ?thesis using assms(5) by (simp add: power_Send_def)
  qed
  from cmdPair_None [OF assms(1-4)] show ?thesis
  proof (elim exE conjE disjE)
    fix cl0 al cl
    assume "bp_connect E 0 o' None = Inr cl0" "greeted (bp_codec E) cl0 al cl" "al_Level al = 1000" "w' = w"
    then show ?thesis by blast
  next
    fix cl0 al cl pre challenge between m pr cert pair cl1
    assume c: "bp_connect E 0 o' None = Inr cl0" "greeted (bp_codec E) cl0 al cl"
      and i: "incoming (bp_codec E) cl = pre @ challenge # between @ m # incoming (bp_codec E) cl1"
      and p: "ms_PairingResult m = Some pr" "br_ResultType pr = 1"
        "ParseCredentials (bp_crypto E) (string_of (br_Certificate pr)) (string_of (br_PrivateKey pr)) = Inr cert"
      and s: "stored_as (bp_crypto E) dir cert w' pair"
    from i have m: "m \<in> set (incoming (bp_codec E) cl)" by simp
    obtain r left where b: "bey_sleep (pe_codec env) (pe_net env (aw_now w')) t pair Power = Some (r, left)"
      "left_closed left" "power_Send env inner t creds Power w' = (r, w'\<lparr>aw_now := aw_now w' + 1\<rparr>)"
      using sleep [OF s] by blast
    show ?thesis by (intro exI conjI disjI2) (rule c m p s b)+
  qed
qed

definition fresh_world :: atv_world where
  "fresh_world = \<lparr>fs_configDir = Inr ''/c'',
     fs_files = [''/c/shrmt/beyonder-device-id'' \<mapsto> (''dev'', 384)],
     fs_dirs = (\<lambda>p. if p = ''/'' \<or> p = ''/c'' \<or> p = ''/c/shrmt'' then Some 493 else None),
     fs_fault = (\<lambda>_ _. None), fs_short = (\<lambda>_. 0), aw_now = 0, aw_session = None, aw_config = zero_config\<rparr>"

lemma fresh_ident: "LoadOrCreateDeviceID (Inr []) fresh_world = (Inr ''dev'', fresh_world)"
proof -
  have "TrimSpace ''dev'' = ''dev''" by (rule TrimSpace_all) (simp add: edge_char_def)
  moreover have "os_ReadFile fresh_world ''/c/shrmt/beyonder-device-id'' = Inr ''dev''" by code_simp
  moreover have "bey_configDir fresh_world = Inr ''/c/shrmt''" by code_simp
  ultimately show ?thesis by (simp add: LoadOrCreateDeviceID_def plain_paths Let_def)
qed

theorem pair_tool_enables_power_witness:
  "\<exists>w' cert pair r left. snd (cmdPair (probe_env pair_reads) probe_opts fresh_world) = w' \<and>
     stored_as plain_crypto ''/c/shrmt'' cert w' pair \<and>
     bey_sleep sleep_codec sleep_net tv_target pair Power = Some (r, left) \<and>
     power_Send \<lparr>pe_codec = sleep_codec, pe_crypto = plain_crypto, pe_net = (\<lambda>_. sleep_net)\<rparr>
       \<lparr>in_Send = (\<lambda>_ _ _ w. (Inl nil_panic, w)), in_Warmup = (\<lambda>_ _ w. (None, w)), in_Launch = (\<lambda>_ _ _ w. (None, w))\<rparr>
       tv_target \<lparr>cr_CertPath = [], cr_KeyPath = [], cr_Source = []\<rparr> Power w' = (r, w'\<lparr>aw_now := aw_now w' + 1\<rparr>)"
proof -
  let ?env = "\<lparr>pe_codec = sleep_codec, pe_crypto = plain_crypto, pe_net = (\<lambda>_. sleep_net)\<rparr>"
  let ?inner = "\<lparr>in_Send = (\<lambda>_ _ _ w. (Inl nil_panic, w)), in_Warmup = (\<lambda>_ _ w. (None, w)),
      in_Launch = (\<lambda>_ _ _ w. (None, w))\<rparr> :: atv_world inner_sender"
  have "case SaveCertificate plain_crypto issued fresh_world of (r, w') \<Rightarrow>
      r = None \<and> fs_files w' ''/c/shrmt/beyonder-client-cert.pem'' \<noteq> fs_files fresh_world ''/c/shrmt/beyonder-client-cert.pem''"
    by code_simp
  then obtain w' where s: "SaveCertificate plain_crypto issued fresh_world = (None, w')" and n: "w' \<noteq> fresh_world" by auto
  obtain out conns where p: "cmdPair (probe_env pair_reads) probe_opts fresh_world = (Some (None, out, conns), w')"
    using cmdPair_example [OF fresh_ident s] by blast
  have d: "bey_configDir fresh_world = Inr ''/c/shrmt''" by code_simp
  have f: "fs_fault fresh_world OpRead q = None" for q by (simp add: fresh_world_def)
  have c: "pe_crypto ?env = bp_crypto (probe_env pair_reads)" by (simp add: probe_env_sel)
  let ?creds = "\<lparr>cr_CertPath = [], cr_KeyPath = [], cr_Source = []\<rparr>"
  from pair_tool_enables_power [OF p d f f c, of tv_target ?inner ?creds]
  show ?thesis
  proof (elim exE conjE disjE)
    assume "w' = fresh_world"
    with n show ?thesis by simp
  next
    fix cert pair r left
    assume "stored_as (bp_crypto (probe_env pair_reads)) ''/c/shrmt'' cert w' pair"
      "bey_sleep (pe_codec ?env) (pe_net ?env (aw_now w')) tv_target pair Power = Some (r, left)"
      "power_Send ?env ?inner tv_target ?creds Power w' = (r, w'\<lparr>aw_now := aw_now w' + 1\<rparr>)"
    with p show ?thesis by (intro exI conjI) (assumption | simp add: probe_env_sel)+
  qed
qed

end
